(* ===== verification/Prelude.thy ===== *)
theory Prelude
  imports Main "HOL-Library.Word"
begin

text \<open>
  What every component of the emulator model shares.

  \<^item> The fixed-width integers of the C++ sources as words, with \<open>size_t\<close> taken at
    64 bits (the hosts the build supports, x86-64 and AArch64, are 64-bit and little-endian).
  \<^item> The outcome of a C++ operation: it returns, it throws \<open>EmulatorError\<close>
    (\<^verbatim>\<open>include/aiasm/memory.h\<close>), or its behaviour is undefined (an access outside an
    array or vector, a null dereference).
  \<^item> A state monad over such outcomes in which an exception keeps the state it was thrown
    in, as a C++ exception does, with a calculus for preserved invariants.
  \<^item> Byte buffers: \<open>slice\<close> and \<open>splice_at\<close> for \<open>memcpy\<close> out of and into a buffer, and
    the little-endian image of 32-bit and 64-bit integers.
\<close>

unbundle bit_operations_syntax

type_synonym u8 = "8 word"
type_synonym u16 = "16 word"
type_synonym u32 = "32 word"
type_synonym u64 = "64 word"
type_synonym size_t = "64 word"

named_theorems st_defs \<open>the primitives of the state monad\<close>
named_theorems mask_simps \<open>the bit masks of the sources as \<open>mask\<close>\<close>
named_theorems pres \<open>introduction rules for preserved invariants\<close>

section \<open>Outcomes\<close>

text \<open>One constructor for every message the sources pass to \<open>EmulatorError\<close>.\<close>

datatype emu_error =
    SramOutOfBounds u32 size_t
  | MainRamOutOfBounds
  | UnknownOpcode u8
  | ProgramTooLarge size_t
  | MatmulInvalidTile u8
  | DmaLoadScratchpadOutOfBounds
  | DmaLoadMainRamOutOfBounds
  | DmaStoreMainRamOutOfBounds
  | DmaStoreScratchpadOutOfBounds

datatype 'a res = Ok 'a | Err emu_error | Undef

fun bind_res :: "'a res \<Rightarrow> ('a \<Rightarrow> 'b res) \<Rightarrow> 'b res" where
  "bind_res (Ok a) f = f a"
| "bind_res (Err e) f = Err e"
| "bind_res Undef f = Undef"

section \<open>The state monad\<close>

type_synonym ('s, 'a) st = "'s \<Rightarrow> 'a res \<times> 's"

definition ret :: "'a \<Rightarrow> ('s, 'a) st" where
  "ret a = (\<lambda>s. (Ok a, s))"

definition throw :: "emu_error \<Rightarrow> ('s, 'a) st" where
  "throw e = (\<lambda>s. (Err e, s))"

definition bind :: "('s, 'a) st \<Rightarrow> ('a \<Rightarrow> ('s, 'b) st) \<Rightarrow> ('s, 'b) st" where
  "bind m f = (\<lambda>s. case m s of
       (Ok a, s') \<Rightarrow> f a s'
     | (Err e, s') \<Rightarrow> (Err e, s')
     | (Undef, s') \<Rightarrow> (Undef, s'))"

definition gets :: "('s \<Rightarrow> 'a) \<Rightarrow> ('s, 'a) st" where
  "gets f = (\<lambda>s. (Ok (f s), s))"

definition modify :: "('s \<Rightarrow> 's) \<Rightarrow> ('s, unit) st" where
  "modify f = (\<lambda>s. (Ok (), f s))"

text \<open>Runs an operation that reads the state only and may fail.\<close>

definition lift_res :: "('s \<Rightarrow> 'a res) \<Rightarrow> ('s, 'a) st" where
  "lift_res f = (\<lambda>s. (f s, s))"

text \<open>Runs an operation on a part of the state: the part is replaced only when it returns.\<close>

definition update_res :: "('s \<Rightarrow> 't res) \<Rightarrow> ('t \<Rightarrow> 's \<Rightarrow> 's) \<Rightarrow> ('s, unit) st" where
  "update_res f upd = (\<lambda>s. case f s of
       Ok t \<Rightarrow> (Ok (), upd t s)
     | Err e \<Rightarrow> (Err e, s)
     | Undef \<Rightarrow> (Undef, s))"

abbreviation (input) andthen :: "('s, 'a) st \<Rightarrow> ('s, 'b) st \<Rightarrow> ('s, 'b) st" where
  "andthen m k \<equiv> bind m (\<lambda>_. k)"

lemmas [st_defs] = ret_def throw_def bind_def gets_def modify_def lift_res_def update_res_def

text \<open>
  An operation preserves a predicate when every state it can leave behind satisfies it, by
  returning or by throwing; nothing is said of undefined behaviour here.
\<close>

definition preserves :: "('s \<Rightarrow> bool) \<Rightarrow> ('s, 'a) st \<Rightarrow> bool" where
  "preserves P m \<longleftrightarrow> (\<forall>s. P s \<longrightarrow> fst (m s) \<noteq> Undef \<longrightarrow> P (snd (m s)))"

text \<open>An operation is defined under a predicate when it cannot reach undefined behaviour.\<close>

definition no_undef :: "('s, 'a) st \<Rightarrow> 's \<Rightarrow> bool" where
  "no_undef m s \<longleftrightarrow> fst (m s) \<noteq> Undef"

lemma bind_Ok: "m s = (Ok a, s') \<Longrightarrow> bind m f s = f a s'"
  by (simp add: bind_def)

lemma bind_Err: "m s = (Err e, s') \<Longrightarrow> bind m f s = (Err e, s')"
  by (simp add: bind_def)

lemma bind_ret [simp]: "bind (ret a) f = f a"
  by (simp add: fun_eq_iff st_defs)

lemma bind_gets [simp]: "bind (gets g) f s = f (g s) s"
  by (simp add: st_defs)

lemma bind_modify [simp]: "bind (modify g) f s = f () (g s)"
  by (simp add: st_defs)

lemma bind_throw [simp]: "bind (throw e) f = throw e"
  by (simp add: fun_eq_iff st_defs)

lemma bind_assoc: "bind (bind m f) g = bind m (\<lambda>a. bind (f a) g)"
  by (auto simp: fun_eq_iff bind_def split: prod.splits res.splits)

lemma bind_OkE:
  assumes "bind m f s = (Ok a, s')"
  obtains b s1 where "m s = (Ok b, s1)" and "f b s1 = (Ok a, s')"
  using assms by (auto simp: bind_def split: prod.splits res.splits)

lemma ret_apply [simp]: "ret a s = (Ok a, s)"
  by (simp add: ret_def)

lemma throw_apply [simp]: "throw e s = (Err e, s)"
  by (simp add: throw_def)

lemma gets_apply [simp]: "gets g s = (Ok (g s), s)"
  by (simp add: gets_def)

lemma modify_apply [simp]: "modify g s = (Ok (), g s)"
  by (simp add: modify_def)

lemma lift_res_apply [simp]: "lift_res f s = (f s, s)"
  by (simp add: lift_res_def)

lemma preservesI:
  "(\<And>s. P s \<Longrightarrow> fst (m s) \<noteq> Undef \<Longrightarrow> P (snd (m s))) \<Longrightarrow> preserves P m"
  by (simp add: preserves_def)

lemma preservesD:
  "preserves P m \<Longrightarrow> P s \<Longrightarrow> fst (m s) \<noteq> Undef \<Longrightarrow> P (snd (m s))"
  by (simp add: preserves_def)

lemma preserves_ret [pres]: "preserves P (ret a)"
  by (simp add: preserves_def)

lemma preserves_throw [pres]: "preserves P (throw e)"
  by (simp add: preserves_def)

lemma preserves_gets [pres]: "preserves P (gets g)"
  by (simp add: preserves_def)

lemma preserves_lift_res [pres]: "preserves P (lift_res f)"
  by (simp add: preserves_def)

lemma preserves_modify: "(\<And>s. P s \<Longrightarrow> P (g s)) \<Longrightarrow> preserves P (modify g)"
  by (simp add: preserves_def)

lemma preserves_update_res:
  "(\<And>s t. P s \<Longrightarrow> f s = Ok t \<Longrightarrow> P (upd t s)) \<Longrightarrow> preserves P (update_res f upd)"
  by (auto simp: preserves_def update_res_def split: res.splits)

lemma preserves_bind [pres]:
  assumes m: "preserves P m" and f: "\<And>a. preserves P (f a)"
  shows "preserves P (bind m f)"
proof (rule preservesI)
  fix s assume P: "P s" and ok: "fst (bind m f s) \<noteq> Undef"
  obtain r s' where ms: "m s = (r, s')" by force
  with ok have "r \<noteq> Undef" by (auto simp: bind_def)
  with m P ms have "P s'" by (auto dest: preservesD)
  with ok ms show "P (snd (bind m f s))"
    by (cases r) (auto simp: bind_def intro: preservesD [OF f])
qed

text \<open>The same with what is known of the result of the first operation.\<close>

lemma preserves_bind_post:
  assumes m: "preserves P m" and Q: "\<And>s a s'. P s \<Longrightarrow> m s = (Ok a, s') \<Longrightarrow> Q a"
    and f: "\<And>a. Q a \<Longrightarrow> preserves P (f a)"
  shows "preserves P (bind m f)"
proof (rule preservesI)
  fix s assume P: "P s" and ok: "fst (bind m f s) \<noteq> Undef"
  obtain r s' where ms: "m s = (r, s')" by force
  with ok have "r \<noteq> Undef" by (auto simp: bind_def)
  with m P ms have "P s'" by (auto dest: preservesD)
  with ok ms P show "P (snd (bind m f s))"
    by (cases r) (auto simp: bind_def intro: preservesD [OF f] Q)
qed

lemma preserves_if [pres]:
  "preserves P m \<Longrightarrow> preserves P k \<Longrightarrow> preserves P (if b then m else k)"
  by simp

lemma preserves_case_option [pres]:
  "preserves P m \<Longrightarrow> (\<And>a. preserves P (f a)) \<Longrightarrow>
   preserves P (case x of None \<Rightarrow> m | Some a \<Rightarrow> f a)"
  by (cases x) simp_all

lemma preserves_let [pres]: "(\<And>a. preserves P (f a)) \<Longrightarrow> preserves P (let a = x in f a)"
  by simp

text \<open>
  An operation is blind to an update \<open>u\<close> of the state when it does the same with and without
  the update, and carries it through: a part of the state it neither reads nor writes.
\<close>

definition blind :: "('s \<Rightarrow> 's) \<Rightarrow> ('s, 'a) st \<Rightarrow> bool" where
  "blind u m \<longleftrightarrow> (\<forall>s. m (u s) = (fst (m s), u (snd (m s))))"

named_theorems blind_intros \<open>introduction rules for \<open>blind\<close>\<close>

lemma blindI: "(\<And>s. m (u s) = (fst (m s), u (snd (m s)))) \<Longrightarrow> blind u m"
  by (simp add: blind_def)

lemma blindD: "blind u m \<Longrightarrow> m s = (r, s') \<Longrightarrow> m (u s) = (r, u s')"
  by (simp add: blind_def)

lemma blind_ret [blind_intros]: "blind u (ret a)"
  by (simp add: blind_def)

lemma blind_throw [blind_intros]: "blind u (throw e)"
  by (simp add: blind_def)

lemma blind_gets: "(\<And>s. g (u s) = g s) \<Longrightarrow> blind u (gets g)"
  by (simp add: blind_def)

lemma blind_modify: "(\<And>s. g (u s) = u (g s)) \<Longrightarrow> blind u (modify g)"
  by (simp add: blind_def)

lemma blind_lift_res: "(\<And>s. f (u s) = f s) \<Longrightarrow> blind u (lift_res f)"
  by (simp add: blind_def)

lemma blind_update_res:
  "(\<And>s. f (u s) = f s) \<Longrightarrow> (\<And>t s. upd t (u s) = u (upd t s)) \<Longrightarrow> blind u (update_res f upd)"
  by (auto simp: blind_def update_res_def split: res.split)

lemma blind_bind [blind_intros]:
  assumes "blind u m" and "\<And>a. blind u (f a)"
  shows "blind u (bind m f)"
proof (rule blindI)
  fix s
  obtain r s' where m: "m s = (r, s')" by force
  from blindD [OF assms(1) m] m assms(2)
  show "bind m f (u s) = (fst (bind m f s), u (snd (bind m f s)))"
    by (cases r) (auto simp: bind_def blind_def)
qed

lemma blind_if [blind_intros]: "blind u m \<Longrightarrow> blind u k \<Longrightarrow> blind u (if b then m else k)"
  by simp

lemma blind_case_option [blind_intros]:
  "blind u m \<Longrightarrow> (\<And>a. blind u (f a)) \<Longrightarrow> blind u (case x of None \<Rightarrow> m | Some a \<Rightarrow> f a)"
  by (cases x) simp_all

lemma blind_case_prod [blind_intros]:
  "(\<And>a b. blind u (f a b)) \<Longrightarrow> blind u (case x of (a, b) \<Rightarrow> f a b)"
  by (cases x) simp

section \<open>Byte buffers\<close>

definition slice :: "nat \<Rightarrow> nat \<Rightarrow> 'a list \<Rightarrow> 'a list" where
  "slice off n xs = take n (drop off xs)"

definition splice_at :: "nat \<Rightarrow> 'a list \<Rightarrow> 'a list \<Rightarrow> 'a list" where
  "splice_at off src xs = take off xs @ src @ drop (off + length src) xs"

text \<open>\<open>memcpy\<close> out of and into a vector: outside the vector its behaviour is undefined.\<close>

definition mem_read :: "'a list \<Rightarrow> nat \<Rightarrow> nat \<Rightarrow> 'a list res" where
  "mem_read xs off n = (if off + n \<le> length xs then Ok (slice off n xs) else Undef)"

definition mem_write :: "'a list \<Rightarrow> nat \<Rightarrow> 'a list \<Rightarrow> 'a list res" where
  "mem_write xs off src =
     (if off + length src \<le> length xs then Ok (splice_at off src xs) else Undef)"

text \<open>\<open>std::array\<close> and \<open>std::vector\<close> subscripts, unchecked.\<close>

definition arr_get :: "'a list \<Rightarrow> nat \<Rightarrow> 'a res" where
  "arr_get xs i = (if i < length xs then Ok (xs ! i) else Undef)"

definition arr_set :: "'a list \<Rightarrow> nat \<Rightarrow> 'a \<Rightarrow> 'a list res" where
  "arr_set xs i x = (if i < length xs then Ok (xs[i := x]) else Undef)"

lemma length_slice [simp]: "off + n \<le> length xs \<Longrightarrow> length (slice off n xs) = n"
  by (simp add: slice_def)

lemma length_splice_at [simp]:
  "off + length src \<le> length xs \<Longrightarrow> length (splice_at off src xs) = length xs"
  by (simp add: splice_at_def)

lemma nth_slice: "off + n \<le> length xs \<Longrightarrow> i < n \<Longrightarrow> slice off n xs ! i = xs ! (off + i)"
  by (simp add: slice_def)

lemma nth_splice_at:
  "off + length src \<le> length xs \<Longrightarrow> i < length xs \<Longrightarrow>
   splice_at off src xs ! i =
     (if off \<le> i \<and> i < off + length src then src ! (i - off) else xs ! i)"
  by (auto simp: splice_at_def nth_append)

lemma slice_splice_at_same:
  "off + length src \<le> length xs \<Longrightarrow> slice off (length src) (splice_at off src xs) = src"
  by (simp add: slice_def splice_at_def)

lemma slice_splice_at_disjoint:
  assumes "off + length src \<le> length xs" and "a + n \<le> length xs"
    and "a + n \<le> off \<or> off + length src \<le> a"
  shows "slice a n (splice_at off src xs) = slice a n xs"
proof (rule nth_equalityI)
  show "length (slice a n (splice_at off src xs)) = length (slice a n xs)"
    using assms by simp
next
  fix i assume "i < length (slice a n (splice_at off src xs))"
  with assms have "i < n" by simp
  with assms show "slice a n (splice_at off src xs) ! i = slice a n xs ! i"
    by (auto simp: nth_slice nth_splice_at)
qed

lemma slice_sub_splice_at:
  "off + length src \<le> length xs \<Longrightarrow> i + n \<le> length src \<Longrightarrow>
   slice (off + i) n (splice_at off src xs) = slice i n src"
  by (rule nth_equalityI) (auto simp: nth_slice nth_splice_at)

lemma splice_at_Nil [simp]: "splice_at off [] xs = xs"
  by (simp add: splice_at_def)

section \<open>Little-endian images\<close>

definition le_bytes32 :: "u32 \<Rightarrow> u8 list" where
  "le_bytes32 w = [ucast w, ucast (drop_bit 8 w), ucast (drop_bit 16 w), ucast (drop_bit 24 w)]"

fun le_word32 :: "u8 list \<Rightarrow> u32" where
  "le_word32 [a, b, c, d] =
     ucast a OR push_bit 8 (ucast b) OR push_bit 16 (ucast c) OR push_bit 24 (ucast d)"
| "le_word32 _ = 0"

definition le_word64 :: "u8 list \<Rightarrow> u64" where
  "le_word64 bs = ucast (le_word32 (take 4 bs)) OR push_bit 32 (ucast (le_word32 (drop 4 bs)))"

definition le_bytes64 :: "u64 \<Rightarrow> u8 list" where
  "le_bytes64 w = le_bytes32 (ucast w) @ le_bytes32 (ucast (drop_bit 32 w))"

definition bytes_of_words :: "u32 list \<Rightarrow> u8 list" where
  "bytes_of_words ws = concat (map le_bytes32 ws)"

text \<open>Consecutive groups of four bytes; what is left over at the end is dropped.\<close>

fun words_of_bytes :: "u8 list \<Rightarrow> u32 list" where
  "words_of_bytes (a # b # c # d # bs) = le_word32 [a, b, c, d] # words_of_bytes bs"
| "words_of_bytes _ = []"

lemma length_le_bytes32 [simp]: "length (le_bytes32 w) = 4"
  by (simp add: le_bytes32_def)

lemma le_word32_bytes [simp]: "le_word32 (le_bytes32 w) = w"
proof (rule bit_word_eqI)
  fix n assume "n < LENGTH(32)"
  then show "bit (le_word32 (le_bytes32 w)) n = bit w n"
    by (cases "n < 8"; cases "n < 16"; cases "n < 24") (auto simp: le_bytes32_def bit_simps)
qed

lemma le_bytes32_word [simp]: "length bs = 4 \<Longrightarrow> le_bytes32 (le_word32 bs) = bs"
proof (cases bs rule: le_word32.cases)
  case (1 a b c d)
  have high: "\<not> bit (x :: u8) (8 + n)" "\<not> bit x (16 + n)" "\<not> bit x (24 + n)" for x n
    by (auto dest: bit_imp_le_length)
  from 1 show ?thesis
    by (auto simp: le_bytes32_def bit_simps high intro!: bit_word_eqI)
qed auto

lemma length_le_bytes64 [simp]: "length (le_bytes64 w) = 8"
  by (simp add: le_bytes64_def)

lemma le_word64_bytes [simp]: "le_word64 (le_bytes64 w) = w"
proof (rule bit_word_eqI)
  fix n assume "n < LENGTH(64)"
  then show "bit (le_word64 (le_bytes64 w)) n = bit w n"
    by (cases "n < 32") (auto simp: le_word64_def le_bytes64_def bit_simps)
qed

lemma length_bytes_of_words [simp]: "length (bytes_of_words ws) = 4 * length ws"
  by (induction ws) (auto simp: bytes_of_words_def)

lemma slice_bytes_of_words:
  "i < length ws \<Longrightarrow> slice (4 * i) 4 (bytes_of_words ws) = le_bytes32 (ws ! i)"
proof (induction ws arbitrary: i)
  case (Cons w ws)
  show ?case
  proof (cases i)
    case 0
    then show ?thesis by (simp add: slice_def bytes_of_words_def)
  next
    case (Suc j)
    with Cons have "slice (4 * j) 4 (bytes_of_words ws) = le_bytes32 (ws ! j)" by simp
    with Suc show ?thesis by (simp add: slice_def bytes_of_words_def)
  qed
qed simp

lemma words_of_bytes_length: "length (words_of_bytes bs) = length bs div 4"
  by (induction bs rule: words_of_bytes.induct) auto

lemma words_of_bytes_of_words: "words_of_bytes (bytes_of_words ws) = ws"
proof (induction ws)
  case (Cons w ws)
  have "le_bytes32 w @ bs = ucast w # ucast (drop_bit 8 w) # ucast (drop_bit 16 w) # ucast (drop_bit 24 w) # bs" for bs
    by (simp add: le_bytes32_def)
  with Cons show ?case
    using le_word32_bytes [of w] by (simp add: bytes_of_words_def le_bytes32_def)
qed (simp add: bytes_of_words_def)

section \<open>Words\<close>

text \<open>The C shift \<open>w << n\<close>, kept apart from \<open>push_bit\<close> so that bit masks stay symbolic.\<close>

definition shl :: "'a::len word \<Rightarrow> nat \<Rightarrow> 'a word" where
  "shl w n = push_bit n w"

lemma bit_shl_iff [bit_simps]:
  "bit (shl w n) k \<longleftrightarrow> n \<le> k \<and> k < LENGTH('a) \<and> bit w (k - n)" for w :: "'a::len word"
  by (auto simp: shl_def bit_simps)

lemma and_shl_one: "(w :: 'a::len word) AND shl 1 n = 0 \<longleftrightarrow> \<not> bit w n"
proof -
  have "bit (w AND shl 1 n) k \<longleftrightarrow> k = n \<and> bit w n" for k
    by (auto simp: bit_simps dest: bit_imp_le_length)
  then show ?thesis by (metis bit_0_eq bot2E bot_apply bot_bool_def bit_word_eqI)
qed

lemma bit_three: "bit (3 :: int) n \<longleftrightarrow> n < 2"
proof -
  have "(3 :: int) = mask 2" by (simp add: mask_eq_exp_minus_1)
  then show ?thesis by (metis bit_mask_iff possible_bit_int)
qed

lemma mask_0x1F [mask_simps]: "(0x1F :: 'a::len word) = mask 5"
  by (simp add: mask_eq_exp_minus_1)

lemma mask_0x3F [mask_simps]: "(0x3F :: 'a::len word) = mask 6"
  by (simp add: mask_eq_exp_minus_1)

lemma mask_0xFF [mask_simps]: "(0xFF :: 'a::len word) = mask 8"
  by (simp add: mask_eq_exp_minus_1)

lemma mask_0x7FF [mask_simps]: "(0x7FF :: 'a::len word) = mask 11"
  by (simp add: mask_eq_exp_minus_1)

lemma mask_0xFFFF [mask_simps]: "(0xFFFF :: 'a::len word) = mask 16"
  by (simp add: mask_eq_exp_minus_1)

lemma mask_0x3FFFFFF [mask_simps]: "(0x3FFFFFF :: 'a::len word) = mask 26"
  by (simp add: mask_eq_exp_minus_1)

lemma unat_u32_less [simp]: "unat (w :: u32) < 4294967296"
  using unsigned_less [of w, where 'a = nat] by simp

lemma unat_u8_less [simp]: "unat (w :: u8) < 256"
  using unsigned_less [of w, where 'a = nat] by simp

lemma unat_ucast_u32_u64 [simp]: "unat (ucast (w :: u32) :: u64) = unat w"
proof -
  have "unat w < 2 ^ 64"
    by (rule less_trans [OF unat_u32_less]) simp
  then show ?thesis
    by (simp add: unsigned_ucast_eq take_bit_nat_eq_self)
qed

lemma unat_and_mask_less: "unat ((w :: 'a::len word) AND mask n) < 2 ^ n"
proof -
  have "unat (w AND mask n) = take_bit n (unat w)"
    by (simp add: unsigned_take_bit_eq flip: take_bit_eq_mask)
  then show ?thesis by simp
qed

end
