(* ===== verification/Config.thy ===== *)
theory Config
  imports Prelude
begin

text \<open>
  The constants of \<^verbatim>\<open>include/aiasm/config.h\<close>, under their own names. Sizes that the
  sources use as \<open>size_t\<close> are 64-bit words, addresses 32-bit words; the lengths of fixed
  arrays are naturals, because they are only used as list lengths.
\<close>

definition SCRATCHPAD_SIZE :: size_t where "SCRATCHPAD_SIZE = 64 * 1024 * 1024"
definition MAIN_RAM_SIZE :: size_t where "MAIN_RAM_SIZE = 64 * 1024 * 1024"

definition TEXT_BASE :: u32 where "TEXT_BASE = 0x00000000"
definition TEXT_SIZE :: size_t where "TEXT_SIZE = 8 * 1024 * 1024"
definition DATA_BASE :: u32 where "DATA_BASE = TEXT_BASE + ucast TEXT_SIZE"
definition DATA_SIZE :: size_t where "DATA_SIZE = 8 * 1024 * 1024"
definition TENSOR_BASE :: u32 where "TENSOR_BASE = DATA_BASE + ucast DATA_SIZE"
definition TENSOR_SIZE :: size_t where "TENSOR_SIZE = SCRATCHPAD_SIZE - TEXT_SIZE - DATA_SIZE"

definition MMIO_BASE :: u32 where "MMIO_BASE = 0x03F00000"
definition MMIO_SIZE :: size_t where "MMIO_SIZE = 0x00100000"
definition MMIO_END :: u32 where "MMIO_END = MMIO_BASE + ucast MMIO_SIZE"

definition TIMER_COUNT :: u32 where "TIMER_COUNT = 0x00"
definition TIMER_LIMIT :: u32 where "TIMER_LIMIT = 0x04"
definition TIMER_CTRL :: u32 where "TIMER_CTRL = 0x08"
definition TIMER_IRQ :: u32 where "TIMER_IRQ = 0x0C"

definition UART_BASE :: u32 where "UART_BASE = 0x00001000"
definition UART_TX :: u32 where "UART_TX = 0x00"
definition UART_RX :: u32 where "UART_RX = 0x04"
definition UART_STATUS :: u32 where "UART_STATUS = 0x08"

definition TILE_SIZE :: nat where "TILE_SIZE = 4"
definition VEC_WIDTH :: nat where "VEC_WIDTH = TILE_SIZE * TILE_SIZE"
definition VR_BYTE_SIZE :: nat where "VR_BYTE_SIZE = VEC_WIDTH * 4"

definition DMA_LINE_SIZE :: size_t where "DMA_LINE_SIZE = 64"

definition NUM_GPR :: nat where "NUM_GPR = 16"
definition NUM_VR :: nat where "NUM_VR = 8"
definition NUM_OPCODES :: nat where "NUM_OPCODES = 64"

definition OPCODE_SHIFT :: nat where "OPCODE_SHIFT = 26"
definition OPCODE_MASK :: u32 where "OPCODE_MASK = 0x3F"
definition RD_SHIFT :: nat where "RD_SHIFT = 21"
definition RD_MASK :: u32 where "RD_MASK = 0x1F"
definition RA_SHIFT :: nat where "RA_SHIFT = 16"
definition RA_MASK :: u32 where "RA_MASK = 0x1F"
definition RB_SHIFT :: nat where "RB_SHIFT = 11"
definition RB_MASK :: u32 where "RB_MASK = 0x1F"
definition FUNC_MASK :: u32 where "FUNC_MASK = 0x7FF"
definition IMM_MASK :: u32 where "IMM_MASK = 0xFFFF"
definition TARGET_MASK :: u32 where "TARGET_MASK = 0x3FFFFFF"

definition CYCLES_PER_TICK :: u64 where "CYCLES_PER_TICK = 1000"

named_theorems config_defs \<open>the values of the configuration constants\<close>

lemmas [config_defs] =
  SCRATCHPAD_SIZE_def MAIN_RAM_SIZE_def TEXT_BASE_def TEXT_SIZE_def DATA_BASE_def DATA_SIZE_def
  TENSOR_BASE_def TENSOR_SIZE_def MMIO_BASE_def MMIO_SIZE_def MMIO_END_def
  TIMER_COUNT_def TIMER_LIMIT_def TIMER_CTRL_def TIMER_IRQ_def
  UART_BASE_def UART_TX_def UART_RX_def UART_STATUS_def
  TILE_SIZE_def VEC_WIDTH_def VR_BYTE_SIZE_def DMA_LINE_SIZE_def
  NUM_GPR_def NUM_VR_def NUM_OPCODES_def CYCLES_PER_TICK_def

named_theorems field_defs \<open>the shifts and masks of the instruction fields\<close>

lemmas [field_defs] =
  OPCODE_SHIFT_def OPCODE_MASK_def RD_SHIFT_def RD_MASK_def RA_SHIFT_def RA_MASK_def
  RB_SHIFT_def RB_MASK_def FUNC_MASK_def IMM_MASK_def TARGET_MASK_def

lemma sizes_nat [simp]:
  "NUM_GPR = 16" "NUM_VR = 8" "NUM_OPCODES = 64" "TILE_SIZE = 4" "VEC_WIDTH = 16"
  "VR_BYTE_SIZE = 64"
  by (simp_all add: config_defs)

end
