(* ===== verification/Memory.thy ===== *)
theory Memory
  imports Config
begin

text \<open>
  The two memories of \<^verbatim>\<open>include/aiasm/memory.h\<close>: the scratchpad \<open>VirtualSRAM\<close> and
  the \<open>MainRAM\<close> that DMA copies from and to, each a vector of bytes. \<open>check_bounds\<close>
  adds a 32-bit address to a 64-bit size in 64-bit arithmetic; the \<open>memcpy\<close> behind it is
  undefined outside the vector.

  The locale \<open>byte_store\<close> is the contract both memories meet: what a block read returns
  after a block write, at the same place and elsewhere. Its lemmas are proved once and
  obtained for \<open>VirtualSRAM\<close> and for \<open>MainRAM\<close> by interpretation.
\<close>

section \<open>VirtualSRAM\<close>

record sram =
  sram_data :: "u8 list"

definition sram_new :: "size_t \<Rightarrow> sram" where
  "sram_new n = \<lparr>sram_data = replicate (unat n) 0\<rparr>"

definition sram_size :: "sram \<Rightarrow> size_t" where
  "sram_size m = of_nat (length (sram_data m))"

definition sram_check_bounds :: "sram \<Rightarrow> u32 \<Rightarrow> size_t \<Rightarrow> unit res" where
  "sram_check_bounds m addr sz =
     (if ucast addr + sz > sram_size m then Err (SramOutOfBounds addr sz) else Ok ())"

definition sram_write32 :: "sram \<Rightarrow> u32 \<Rightarrow> u32 \<Rightarrow> sram res" where
  "sram_write32 m addr v = bind_res (sram_check_bounds m addr 4) (\<lambda>_.
     map_res (\<lambda>d. m\<lparr>sram_data := d\<rparr>) (mem_write (sram_data m) (unat addr) (le_bytes32 v)))"

definition sram_read32 :: "sram \<Rightarrow> u32 \<Rightarrow> u32 res" where
  "sram_read32 m addr = bind_res (sram_check_bounds m addr 4) (\<lambda>_.
     map_res le_word32 (mem_read (sram_data m) (unat addr) 4))"

text \<open>
  Block access. \<open>src\<close> is the buffer the caller's pointer leads to; a count beyond it is a
  read outside that buffer.
\<close>

definition sram_write_bytes :: "sram \<Rightarrow> u32 \<Rightarrow> u8 list \<Rightarrow> size_t \<Rightarrow> sram res" where
  "sram_write_bytes m addr src count = bind_res (sram_check_bounds m addr count) (\<lambda>_.
     bind_res (mem_read src 0 (unat count)) (\<lambda>bs.
       map_res (\<lambda>d. m\<lparr>sram_data := d\<rparr>) (mem_write (sram_data m) (unat addr) bs)))"

definition sram_read_bytes :: "sram \<Rightarrow> u32 \<Rightarrow> size_t \<Rightarrow> u8 list res" where
  "sram_read_bytes m addr count = bind_res (sram_check_bounds m addr count) (\<lambda>_.
     mem_read (sram_data m) (unat addr) (unat count))"

definition sram_load :: "sram \<Rightarrow> u32 \<Rightarrow> u8 list \<Rightarrow> size_t \<Rightarrow> sram res" where
  "sram_load m addr src count = bind_res (sram_check_bounds m addr count) (\<lambda>_.
     bind_res (mem_read src 0 (unat count)) (\<lambda>bs.
       map_res (\<lambda>d. m\<lparr>sram_data := d\<rparr>) (mem_write (sram_data m) (unat addr) bs)))"

definition sram_load_words :: "sram \<Rightarrow> u32 \<Rightarrow> u32 list \<Rightarrow> size_t \<Rightarrow> sram res" where
  "sram_load_words m addr instrs count = sram_load m addr (bytes_of_words instrs) (count * 4)"

definition in_text_region :: "u32 \<Rightarrow> bool" where
  "in_text_region addr \<longleftrightarrow> addr \<ge> TEXT_BASE \<and> (ucast addr :: size_t) < ucast TEXT_BASE + TEXT_SIZE"

definition in_data_region :: "u32 \<Rightarrow> bool" where
  "in_data_region addr \<longleftrightarrow> addr \<ge> DATA_BASE \<and> (ucast addr :: size_t) < ucast DATA_BASE + DATA_SIZE"

definition in_tensor_region :: "u32 \<Rightarrow> bool" where
  "in_tensor_region addr \<longleftrightarrow>
     addr \<ge> TENSOR_BASE \<and> (ucast addr :: size_t) < ucast TENSOR_BASE + TENSOR_SIZE"

definition sram_clear :: "sram \<Rightarrow> sram" where
  "sram_clear m = m\<lparr>sram_data := replicate (length (sram_data m)) 0\<rparr>"

section \<open>MainRAM\<close>

record main_ram =
  ram_data :: "u8 list"

definition ram_new :: "size_t \<Rightarrow> main_ram" where
  "ram_new n = \<lparr>ram_data = replicate (unat n) 0\<rparr>"

definition ram_size :: "main_ram \<Rightarrow> size_t" where
  "ram_size m = of_nat (length (ram_data m))"

definition ram_check_bounds :: "main_ram \<Rightarrow> u32 \<Rightarrow> size_t \<Rightarrow> unit res" where
  "ram_check_bounds m addr count =
     (if ucast addr + count > ram_size m then Err MainRamOutOfBounds else Ok ())"

definition ram_write :: "main_ram \<Rightarrow> u32 \<Rightarrow> u8 list \<Rightarrow> size_t \<Rightarrow> main_ram res" where
  "ram_write m addr src count = bind_res (ram_check_bounds m addr count) (\<lambda>_.
     bind_res (mem_read src 0 (unat count)) (\<lambda>bs.
       map_res (\<lambda>d. m\<lparr>ram_data := d\<rparr>) (mem_write (ram_data m) (unat addr) bs)))"

definition ram_read :: "main_ram \<Rightarrow> u32 \<Rightarrow> size_t \<Rightarrow> u8 list res" where
  "ram_read m addr count = bind_res (ram_check_bounds m addr count) (\<lambda>_.
     mem_read (ram_data m) (unat addr) (unat count))"

definition ram_clear :: "main_ram \<Rightarrow> main_ram" where
  "ram_clear m = m\<lparr>ram_data := replicate (length (ram_data m)) 0\<rparr>"

section \<open>Objects\<close>

text \<open>
  The templates \<open>write<T>\<close> and \<open>read<T>\<close>: a trivially copyable object is the list of its \<open>sizeof(T)\<close>
  bytes.
\<close>

definition sram_write_obj :: "sram \<Rightarrow> u32 \<Rightarrow> u8 list \<Rightarrow> sram res" where
  "sram_write_obj m addr obj = sram_write_bytes m addr obj (of_nat (length obj))"

definition sram_read_obj :: "nat \<Rightarrow> sram \<Rightarrow> u32 \<Rightarrow> u8 list res" where
  "sram_read_obj sz m addr = sram_read_bytes m addr (of_nat sz)"

definition ram_write_obj :: "main_ram \<Rightarrow> u32 \<Rightarrow> u8 list \<Rightarrow> main_ram res" where
  "ram_write_obj m addr obj = ram_write m addr obj (of_nat (length obj))"

section \<open>The contract of a byte store\<close>

text \<open>
  \<open>contents\<close> is the abstract value of a store. The laws say when an access is accepted and
  what it does to the contents, in unbounded arithmetic: the range must end inside the store.
  Counts of a range that does not wrap the 64-bit sum are the ones the callers can form.
\<close>

definition vec64 :: "'a list \<Rightarrow> bool" where
  "vec64 xs \<longleftrightarrow> length xs < 2 ^ 64"

definition no_wrap :: "u32 \<Rightarrow> size_t \<Rightarrow> bool" where
  "no_wrap addr count \<longleftrightarrow> unat addr + unat count < 2 ^ 64"

locale byte_store =
  fixes contents :: "'m \<Rightarrow> u8 list"
    and wr :: "'m \<Rightarrow> u32 \<Rightarrow> u8 list \<Rightarrow> size_t \<Rightarrow> 'm res"
    and rd :: "'m \<Rightarrow> u32 \<Rightarrow> size_t \<Rightarrow> u8 list res"
  assumes wr_ok: "vec64 (contents m) \<Longrightarrow> no_wrap addr count \<Longrightarrow>
      unat count = length src \<Longrightarrow> unat addr + length src \<le> length (contents m) \<Longrightarrow>
      \<exists>m'. wr m addr src count = Ok m' \<and> contents m' = splice_at (unat addr) src (contents m)"
    and wr_throws: "vec64 (contents m) \<Longrightarrow> no_wrap addr count \<Longrightarrow>
      length (contents m) < unat addr + unat count \<Longrightarrow> \<exists>e. wr m addr src count = Err e"
    and rd_ok: "vec64 (contents m) \<Longrightarrow> no_wrap addr count \<Longrightarrow>
      unat addr + unat count \<le> length (contents m) \<Longrightarrow>
      rd m addr count = Ok (slice (unat addr) (unat count) (contents m))"
    and rd_throws: "vec64 (contents m) \<Longrightarrow> no_wrap addr count \<Longrightarrow>
      length (contents m) < unat addr + unat count \<Longrightarrow> \<exists>e. rd m addr count = Err e"
begin

lemma wr_effect:
  assumes "vec64 (contents m)" and "no_wrap addr count" and "unat count = length src"
    and "wr m addr src count = Ok m'"
  shows "unat addr + length src \<le> length (contents m)"
    and "contents m' = splice_at (unat addr) src (contents m)"
    and "length (contents m') = length (contents m)" and "vec64 (contents m')"
proof -
  show fits: "unat addr + length src \<le> length (contents m)"
  proof (rule ccontr)
    assume "\<not> ?thesis"
    with assms obtain e where "wr m addr src count = Err e"
      using wr_throws [of m addr count src] by auto
    with assms(4) show False by simp
  qed
  from wr_ok [OF assms(1-3) fits] assms(4)
  show c: "contents m' = splice_at (unat addr) src (contents m)" by auto
  with fits show "length (contents m') = length (contents m)" by simp
  with assms(1) show "vec64 (contents m')" by (simp add: vec64_def)
qed

lemma rd_after_wr:
  assumes "vec64 (contents m)" and "no_wrap addr count" and "unat count = length src"
    and "wr m addr src count = Ok m'"
  shows "rd m' addr count = Ok src"
  using wr_effect [OF assms] assms rd_ok [of m' addr count]
  by (simp add: slice_splice_at_same)

lemma rd_other_after_wr:
  assumes "vec64 (contents m)" and "no_wrap addr count" and "unat count = length src"
    and "wr m addr src count = Ok m'" and "no_wrap a n"
    and "unat a + unat n \<le> unat addr \<or> unat addr + unat count \<le> unat a"
  shows "rd m' a n = rd m a n \<or> (\<exists>e e'. rd m' a n = Err e \<and> rd m a n = Err e')"
proof (cases "unat a + unat n \<le> length (contents m)")
  case False
  with wr_effect [OF assms(1-4)] assms(1,5) show ?thesis
    using rd_throws [of m a n] rd_throws [of m' a n] by auto
next
  case True
  note eff = wr_effect [OF assms(1-4)]
  from True eff assms(1,5) have "rd m' a n = Ok (slice (unat a) (unat n) (contents m'))"
    and "rd m a n = Ok (slice (unat a) (unat n) (contents m))"
    by (simp_all add: rd_ok)
  moreover have "slice (unat a) (unat n) (contents m') = slice (unat a) (unat n) (contents m)"
    using eff True assms(3,6) by (simp add: slice_splice_at_disjoint)
  ultimately show ?thesis by simp
qed

end

section \<open>Both memories meet the contract\<close>

lemma unat_sum_u64: "no_wrap addr count \<Longrightarrow> unat (ucast addr + count :: size_t) = unat addr + unat count"
  by (simp add: no_wrap_def unat_word_ariths)

lemma unat_size_u64: "vec64 xs \<Longrightarrow> unat (of_nat (length xs) :: size_t) = length xs"
  by (simp add: unat_of_nat take_bit_nat_eq_self vec64_def)

lemma bounds_iff:
  assumes "vec64 xs" and "no_wrap addr count"
  shows "(ucast addr + count > (of_nat (length xs) :: size_t)) \<longleftrightarrow>
     length xs < unat addr + unat count"
  using assms by (simp add: word_less_nat_alt unat_sum_u64 unat_size_u64)

lemma mem_read_all [simp]: "mem_read src 0 (length src) = Ok src"
  by (simp add: mem_read_def slice_def)

interpretation sram_store: byte_store sram_data sram_write_bytes sram_read_bytes
proof
  fix m :: sram and addr count and src :: "u8 list"
  assume "vec64 (sram_data m)" "no_wrap addr count" "unat count = length src"
    "unat addr + length src \<le> length (sram_data m)"
  then show "\<exists>m'. sram_write_bytes m addr src count = Ok m' \<and>
      sram_data m' = splice_at (unat addr) src (sram_data m)"
    by (simp add: sram_write_bytes_def sram_check_bounds_def sram_size_def bounds_iff
        mem_write_def)
qed (simp_all add: sram_write_bytes_def sram_read_bytes_def sram_check_bounds_def sram_size_def
    bounds_iff mem_read_def)

interpretation ram_store: byte_store ram_data ram_write ram_read
proof
  fix m :: main_ram and addr count and src :: "u8 list"
  assume "vec64 (ram_data m)" "no_wrap addr count" "unat count = length src"
    "unat addr + length src \<le> length (ram_data m)"
  then show "\<exists>m'. ram_write m addr src count = Ok m' \<and>
      ram_data m' = splice_at (unat addr) src (ram_data m)"
    by (simp add: ram_write_def ram_check_bounds_def ram_size_def bounds_iff
        mem_write_def)
qed (simp_all add: ram_write_def ram_read_def ram_check_bounds_def ram_size_def
    bounds_iff mem_read_def)

section \<open>Word access\<close>

lemma no_wrap_4 [simp]: "no_wrap addr 4"
  using unat_u32_less [of addr] by (simp add: no_wrap_def del: unat_u32_less)

lemma sram_read32_eq:
  "vec64 (sram_data m) \<Longrightarrow>
   sram_read32 m addr =
     (if unat addr + 4 \<le> length (sram_data m)
      then Ok (le_word32 (slice (unat addr) 4 (sram_data m)))
      else Err (SramOutOfBounds addr 4))"
  using bounds_iff [of "sram_data m" addr 4]
  by (auto simp: sram_read32_def sram_check_bounds_def sram_size_def mem_read_def)

lemma sram_write32_eq:
  "vec64 (sram_data m) \<Longrightarrow>
   sram_write32 m addr v =
     (if unat addr + 4 \<le> length (sram_data m)
      then Ok (m\<lparr>sram_data := splice_at (unat addr) (le_bytes32 v) (sram_data m)\<rparr>)
      else Err (SramOutOfBounds addr 4))"
  using bounds_iff [of "sram_data m" addr 4]
  by (auto simp: sram_write32_def sram_check_bounds_def sram_size_def mem_write_def)

lemma sram_write32_length:
  "vec64 (sram_data m) \<Longrightarrow> sram_write32 m addr v = Ok m' \<Longrightarrow>
   length (sram_data m') = length (sram_data m)"
  by (auto simp: sram_write32_eq split: if_splits)

lemma sram_write_bytes_length:
  "sram_write_bytes m addr src count = Ok m' \<Longrightarrow> length (sram_data m') = length (sram_data m)"
  by (auto simp: sram_write_bytes_def mem_write_def mem_read_def sram_check_bounds_def
      split: if_splits)

lemma sram_clear_length [simp]: "length (sram_data (sram_clear m)) = length (sram_data m)"
  by (simp add: sram_clear_def)

lemma ram_clear_length [simp]: "length (ram_data (ram_clear m)) = length (ram_data m)"
  by (simp add: ram_clear_def)

lemma sram_read32_write32:
  assumes "vec64 (sram_data m)" and "sram_write32 m addr v = Ok m'"
  shows "sram_read32 m' addr = Ok v"
proof -
  from assms have fits: "unat addr + 4 \<le> length (sram_data m)"
    and m': "m' = m\<lparr>sram_data := splice_at (unat addr) (le_bytes32 v) (sram_data m)\<rparr>"
    by (auto simp: sram_write32_eq split: if_splits)
  then have "slice (unat addr) 4 (sram_data m') = le_bytes32 v"
    using slice_splice_at_same [of "unat addr" "le_bytes32 v" "sram_data m"] by simp
  with fits m' assms(1) show ?thesis by (simp add: sram_read32_eq vec64_def)
qed

text \<open>Every word of a program is where the loader puts it.\<close>

lemma sram_load_words_read:
  assumes "vec64 (sram_data m)" and "no_wrap addr (count * 4)"
    and "unat (count * 4) = 4 * length ws" and "sram_load_words m addr ws count = Ok m'"
    and "i < length ws" and "unat addr + 4 * i < 2 ^ 32"
  shows "sram_read32 m' (addr + of_nat (4 * i)) = Ok (ws ! i)"
proof -
  let ?bs = "bytes_of_words ws"
  have wr: "sram_write_bytes m addr ?bs (count * 4) = Ok m'"
    using assms(4) by (simp add: sram_load_words_def sram_load_def sram_write_bytes_def)
  have cnt: "unat (count * 4) = length ?bs" using assms(3) by simp
  have len: "length (sram_data m') = length (sram_data m)"
    and fits: "unat addr + length ?bs \<le> length (sram_data m)"
    and c: "sram_data m' = splice_at (unat addr) ?bs (sram_data m)"
    and v: "vec64 (sram_data m')"
    using sram_store.wr_effect [OF assms(1,2) cnt wr] by simp_all
  have a: "unat (addr + of_nat (4 * i)) = unat addr + 4 * i"
    using assms(6) by (simp add: unat_word_ariths unat_of_nat take_bit_nat_eq_self)
  have "slice (unat addr + 4 * i) 4 (sram_data m') = le_bytes32 (ws ! i)"
    using slice_sub_splice_at [OF fits, of "4 * i" 4] assms(5) c
    by (simp add: slice_bytes_of_words)
  then show ?thesis
    using len fits v assms(5) a by (simp add: sram_read32_eq)
qed

text \<open>An object written to either memory is read back.\<close>

lemma obj_size: "length obj < 2 ^ 32 \<Longrightarrow> unat (of_nat (length obj) :: size_t) = length obj \<and> no_wrap addr (of_nat (length obj))"
  using unat_u32_less [of addr] by (simp add: no_wrap_def unat_of_nat take_bit_nat_eq_self del: unat_u32_less)

lemma sram_obj_roundtrip:
  assumes "vec64 (sram_data m)" and "length obj < 2 ^ 32" and "sram_write_obj m addr obj = Ok m'"
  shows "sram_read_obj (length obj) m' addr = Ok obj"
  using sram_store.rd_after_wr [OF assms(1), of addr "of_nat (length obj)" obj m'] obj_size [OF assms(2), of addr] assms(3)
  by (simp add: sram_write_obj_def sram_read_obj_def)

lemma ram_obj_roundtrip:
  assumes "vec64 (ram_data m)" and "length obj < 2 ^ 32" and "ram_write_obj m addr obj = Ok m'"
  shows "ram_read m' addr (of_nat (length obj)) = Ok obj"
  using ram_store.rd_after_wr [OF assms(1), of addr "of_nat (length obj)" obj m'] obj_size [OF assms(2), of addr] assms(3)
  by (simp add: ram_write_obj_def)

end
