(* ===== verification/Bus.thy ===== *)
theory Bus
  imports Memory
begin

text \<open>
  The memory-mapped bus of \<^verbatim>\<open>include/aiasm/bus.h\<close>. A device carries a base address, a
  size and optional read and write handlers. In the sources a handler is a closure over the
  emulator; here it is a tag of type \<open>'h\<close>, and running it is the argument \<open>call\<close> of the bus
  operations, which the emulator model instantiates with the bodies of the closures.
\<close>

record 'h bus_device =
  dev_base :: u32
  dev_size :: u32
  dev_read :: "'h option"
  dev_write :: "'h option"

definition dev_match :: "u32 \<Rightarrow> 'h bus_device \<Rightarrow> bool" where
  "dev_match addr d \<longleftrightarrow> addr \<ge> dev_base d \<and> addr < dev_base d + dev_size d"

definition bus_add_device ::
  "u32 \<Rightarrow> u32 \<Rightarrow> 'h option \<Rightarrow> 'h option \<Rightarrow> 'h bus_device list \<Rightarrow> 'h bus_device list" where
  "bus_add_device base sz rd wr devs =
     devs @ [\<lparr>dev_base = base, dev_size = sz, dev_read = rd, dev_write = wr\<rparr>]"

definition is_mmio :: "u32 \<Rightarrow> bool" where
  "is_mmio addr \<longleftrightarrow> addr \<ge> MMIO_BASE"

text \<open>The device that serves an address: the first match, in registration order.\<close>

definition bus_route :: "'h bus_device list \<Rightarrow> u32 \<Rightarrow> 'h bus_device option" where
  "bus_route devs addr = (if addr \<ge> MMIO_BASE then find (dev_match addr) devs else None)"

definition bus_read32 ::
  "('h \<Rightarrow> u32 \<Rightarrow> ('s, u32) st) \<Rightarrow> 'h bus_device list \<Rightarrow> ('s \<Rightarrow> sram) \<Rightarrow> u32 \<Rightarrow> ('s, u32) st" where
  "bus_read32 call devs ram addr =
     (case bus_route devs addr of
        Some d \<Rightarrow> (case dev_read d of Some h \<Rightarrow> call h addr | None \<Rightarrow> ret 0)
      | None \<Rightarrow> lift_res (\<lambda>s. sram_read32 (ram s) addr))"

definition bus_write32 ::
  "('h \<Rightarrow> u32 \<Rightarrow> u32 \<Rightarrow> ('s, unit) st) \<Rightarrow> 'h bus_device list \<Rightarrow> ('s \<Rightarrow> sram) \<Rightarrow>
   (sram \<Rightarrow> 's \<Rightarrow> 's) \<Rightarrow> u32 \<Rightarrow> u32 \<Rightarrow> ('s, unit) st" where
  "bus_write32 call devs ram set_ram addr v =
     (case bus_route devs addr of
        Some d \<Rightarrow> (case dev_write d of Some h \<Rightarrow> call h addr v | None \<Rightarrow> ret ())
      | None \<Rightarrow> update_res (\<lambda>s. sram_write32 (ram s) addr v) set_ram)"

lemma bus_route_below_mmio: "addr < MMIO_BASE \<Longrightarrow> bus_route devs addr = None"
  by (simp add: bus_route_def linorder_not_le [symmetric])

lemma bus_route_SomeD:
  "bus_route devs addr = Some d \<Longrightarrow> d \<in> set devs \<and> dev_match addr d \<and> is_mmio addr"
  by (auto simp: bus_route_def is_mmio_def find_Some_iff split: if_splits)

lemma bus_read32_ram:
  "bus_route devs addr = None \<Longrightarrow> bus_read32 call devs ram addr s = (sram_read32 (ram s) addr, s)"
  by (simp add: bus_read32_def)

lemma preserves_bus_read32:
  assumes "\<And>h a. preserves P (call h a)"
  shows "preserves P (bus_read32 call devs ram addr)"
  using assms by (auto simp: bus_read32_def intro!: pres split: option.split)

lemma preserves_bus_write32:
  assumes "\<And>h a v. preserves P (call h a v)"
    and "\<And>s m. P s \<Longrightarrow> sram_write32 (ram s) addr v = Ok m \<Longrightarrow> P (set_ram m s)"
  shows "preserves P (bus_write32 call devs ram set_ram addr v)"
  using assms by (auto simp: bus_write32_def intro!: pres preserves_update_res split: option.split)

end
