(* ===== verification/Devices.thy ===== *)
theory Devices
  imports Config
begin

text \<open>
  The memory-mapped peripherals of \<^verbatim>\<open>include/aiasm/devices.h\<close>: the timer and the
  line-buffered UART. A UART line sent to \<open>stdout\<close> is recorded in \<open>uart_lines\<close>; the
  \<open>%s\<close> of the \<open>printf\<close> call stops at the first NUL byte. The \<open>char\<close> of the receive
  buffer is signed, as on the x86-64 host.
\<close>

section \<open>Timer\<close>

record timer =
  t_count :: u64
  t_limit :: u64
  t_ctrl :: bool
  t_irq_pending :: bool

definition timer_init :: timer where
  "timer_init = \<lparr>t_count = 0, t_limit = 10000, t_ctrl = False, t_irq_pending = False\<rparr>"

definition timer_tick :: "u64 \<Rightarrow> timer \<Rightarrow> timer" where
  "timer_tick cycles t =
     (if t_ctrl t then
        let c = t_count t + cycles in
        if c \<ge> t_limit t
        then t\<lparr>t_count := c - t_limit t, t_irq_pending := True\<rparr>
        else t\<lparr>t_count := c\<rparr>
      else t)"

definition timer_read_reg :: "u32 \<Rightarrow> timer \<Rightarrow> u32 \<times> timer" where
  "timer_read_reg off t =
     (if off = TIMER_COUNT then (ucast (t_count t AND 0xFFFFFFFF), t)
      else if off = TIMER_LIMIT then (ucast (t_limit t AND 0xFFFFFFFF), t)
      else if off = TIMER_CTRL then (if t_ctrl t then 1 else 0, t)
      else if off = TIMER_IRQ then
        (if t_irq_pending t then 1 else 0, t\<lparr>t_irq_pending := False\<rparr>)
      else (0, t))"

definition timer_write_reg :: "u32 \<Rightarrow> u32 \<Rightarrow> timer \<Rightarrow> timer" where
  "timer_write_reg off v t =
     (if off = TIMER_COUNT then t\<lparr>t_count := ucast v\<rparr>
      else if off = TIMER_LIMIT then t\<lparr>t_limit := ucast v\<rparr>
      else if off = TIMER_CTRL then t\<lparr>t_ctrl := (v \<noteq> 0)\<rparr>
      else if off = TIMER_IRQ then t\<lparr>t_irq_pending := False\<rparr>
      else t)"

definition timer_clear_interrupt :: "timer \<Rightarrow> timer" where
  "timer_clear_interrupt t = t\<lparr>t_irq_pending := False\<rparr>"

text \<open>\<open>TimerDevice::State\<close> has the fields of the device.\<close>

definition timer_save :: "timer \<Rightarrow> timer" where
  "timer_save t = t"

definition timer_restore :: "timer \<Rightarrow> timer \<Rightarrow> timer" where
  "timer_restore s t = t\<lparr>t_count := t_count s, t_limit := t_limit s, t_ctrl := t_ctrl s,
     t_irq_pending := t_irq_pending s\<rparr>"

section \<open>UART\<close>

record uart =
  tx_buffer :: "u8 list"
  rx_buffer :: "u8 list"
  uart_lines :: "u8 list list"

definition uart_init :: uart where
  "uart_init = \<lparr>tx_buffer = [], rx_buffer = [], uart_lines = []\<rparr>"

definition c_str :: "u8 list \<Rightarrow> u8 list" where
  "c_str s = takeWhile (\<lambda>c. c \<noteq> 0) s"

definition uart_print :: "uart \<Rightarrow> uart" where
  "uart_print u = u\<lparr>uart_lines := uart_lines u @ [c_str (tx_buffer u)], tx_buffer := []\<rparr>"

definition uart_write_reg :: "u32 \<Rightarrow> u32 \<Rightarrow> uart \<Rightarrow> uart" where
  "uart_write_reg off v u =
     (if off = UART_TX then
        let u' = u\<lparr>tx_buffer := tx_buffer u @ [ucast (v AND 0xFF)]\<rparr> in
        if v AND 0xFF = 10 \<or> length (tx_buffer u') \<ge> 256 then uart_print u' else u'
      else u)"

definition uart_read_reg :: "u32 \<Rightarrow> uart \<Rightarrow> u32" where
  "uart_read_reg off u =
     (if off = UART_RX then (case rx_buffer u of [] \<Rightarrow> 0 | c # _ \<Rightarrow> scast c)
      else if off = UART_STATUS then 1
      else 0)"

definition uart_flush :: "uart \<Rightarrow> uart" where
  "uart_flush u = (if tx_buffer u \<noteq> [] then uart_print u else u)"

text \<open>\<open>UartDevice::State\<close> is the pair of the two buffers.\<close>

definition uart_save :: "uart \<Rightarrow> u8 list \<times> u8 list" where
  "uart_save u = (tx_buffer u, rx_buffer u)"

definition uart_restore :: "u8 list \<times> u8 list \<Rightarrow> uart \<Rightarrow> uart" where
  "uart_restore s u = u\<lparr>tx_buffer := fst s, rx_buffer := snd s\<rparr>"

section \<open>Timer lemmas\<close>

text \<open>
  Between ticks a running timer stays below its limit as long as one tick does not exceed the
  limit and the sum does not overflow 64 bits.
\<close>

definition timer_ok :: "timer \<Rightarrow> bool" where
  "timer_ok t \<longleftrightarrow> t_count t < t_limit t"

lemma timer_tick_ok:
  assumes "timer_ok t" and "cycles \<le> t_limit t" and "unat (t_count t) + unat cycles < 2 ^ 64"
  shows "timer_ok (timer_tick cycles t)"
proof -
  have sum: "unat (t_count t + cycles) = unat (t_count t) + unat cycles"
    using assms(3) by (simp add: unat_word_ariths)
  have "unat (t_count t + cycles - t_limit t) = unat (t_count t) + unat cycles - unat (t_limit t)"
    if "t_limit t \<le> t_count t + cycles"
    using that sum by (simp add: unat_sub)
  with assms sum show ?thesis
    by (auto simp: timer_ok_def timer_tick_def Let_def word_less_nat_alt word_le_nat_alt)
qed

lemma timer_tick_irq:
  "t_irq_pending (timer_tick cycles t) \<longleftrightarrow>
     t_irq_pending t \<or> (t_ctrl t \<and> t_limit t \<le> t_count t + cycles)"
  by (auto simp: timer_tick_def Let_def)

section \<open>UART lemmas\<close>

definition uart_ok :: "uart \<Rightarrow> bool" where
  "uart_ok u \<longleftrightarrow> length (tx_buffer u) < 256 \<and> 10 \<notin> set (tx_buffer u)"

lemma uart_init_ok: "uart_ok uart_init"
  by (simp add: uart_ok_def uart_init_def)

lemma low_byte_eq: "(ucast (v AND 0xFF :: u32) :: u8) = c \<longleftrightarrow> v AND 0xFF = ucast c"
proof
  have "ucast (ucast (v AND 0xFF) :: u8) = v AND 0xFF"
    by (rule bit_word_eqI) (auto simp: bit_simps mask_simps)
  then show "ucast (v AND 0xFF) = c \<Longrightarrow> v AND 0xFF = ucast c" by auto
  have "ucast (ucast c :: u32) = c"
    by (rule bit_word_eqI) (auto simp: bit_simps)
  then show "v AND 0xFF = ucast c \<Longrightarrow> ucast (v AND 0xFF) = c" by simp
qed

lemma uart_write_ok: "uart_ok u \<Longrightarrow> uart_ok (uart_write_reg off v u)"
  by (auto simp: uart_ok_def uart_write_reg_def uart_print_def Let_def low_byte_eq)

lemma uart_flush_empty [simp]: "tx_buffer (uart_flush u) = []"
  by (simp add: uart_flush_def uart_print_def)

text \<open>Everything transmitted so far: the lines printed, then what is still buffered.\<close>

definition uart_stream :: "uart \<Rightarrow> u8 list" where
  "uart_stream u = concat (uart_lines u) @ tx_buffer u"

lemma c_str_no_nul: "0 \<notin> set s \<Longrightarrow> c_str s = s"
  unfolding c_str_def by (induction s) auto

lemma uart_write_stream:
  assumes "0 \<notin> set (tx_buffer u)" and "v AND 0xFF \<noteq> 0"
  shows "uart_stream (uart_write_reg UART_TX v u) = uart_stream u @ [ucast (v AND 0xFF)]
       \<and> 0 \<notin> set (tx_buffer (uart_write_reg UART_TX v u))"
  using assms
  by (auto simp: uart_stream_def uart_write_reg_def uart_print_def Let_def c_str_no_nul low_byte_eq)

end
