(* ===== verification/Csr.thy ===== *)
theory Csr
  imports Config
begin

text \<open>
  The control and status registers of \<^verbatim>\<open>include/aiasm/csr.h\<close>. The array of 4096 slots is
  a function on CSR addresses; addresses outside the array read as zero and ignore writes.
  \<open>PrivilegeLevel\<close> can hold the value 2, which is not an enumerator, after a return from
  a trap: \<open>PrivReserved\<close>.
\<close>

datatype privilege = User | Supervisor | PrivReserved | Machine

fun priv_code :: "privilege \<Rightarrow> u64" where
  "priv_code User = 0"
| "priv_code Supervisor = 1"
| "priv_code PrivReserved = 2"
| "priv_code Machine = 3"

definition priv_of :: "u64 \<Rightarrow> privilege" where
  "priv_of w = (if w = 0 then User else if w = 1 then Supervisor
                else if w = 2 then PrivReserved else Machine)"

definition CSR_SEPC :: u16 where "CSR_SEPC = 0x141"
definition CSR_SATP :: u16 where "CSR_SATP = 0x180"
definition CSR_MSTATUS :: u16 where "CSR_MSTATUS = 0x300"
definition CSR_MISA :: u16 where "CSR_MISA = 0x301"
definition CSR_MIE :: u16 where "CSR_MIE = 0x304"
definition CSR_MTVEC :: u16 where "CSR_MTVEC = 0x305"
definition CSR_MEPC :: u16 where "CSR_MEPC = 0x341"
definition CSR_MCAUSE :: u16 where "CSR_MCAUSE = 0x342"
definition CSR_MTVAL :: u16 where "CSR_MTVAL = 0x343"

named_theorems csr_addrs \<open>the CSR addresses\<close>

lemmas [csr_addrs] = CSR_SEPC_def CSR_SATP_def CSR_MSTATUS_def CSR_MISA_def CSR_MIE_def
  CSR_MTVEC_def CSR_MEPC_def CSR_MCAUSE_def CSR_MTVAL_def

record csr_file =
  csr_regs :: "u16 \<Rightarrow> u64"
  priv :: privilege

definition csr_read :: "csr_file \<Rightarrow> u16 \<Rightarrow> u64" where
  "csr_read c addr = (if addr < 4096 then csr_regs c addr else 0)"

definition csr_write :: "u16 \<Rightarrow> u64 \<Rightarrow> csr_file \<Rightarrow> csr_file" where
  "csr_write addr v c =
     (if addr \<ge> 4096 then c
      else if addr = CSR_MISA then c
      else c\<lparr>csr_regs := (csr_regs c)(addr := v)\<rparr>)"

definition csr_mstatus :: "csr_file \<Rightarrow> u64" where "csr_mstatus c = csr_read c CSR_MSTATUS"
definition csr_mtvec :: "csr_file \<Rightarrow> u64" where "csr_mtvec c = csr_read c CSR_MTVEC"
definition csr_mepc :: "csr_file \<Rightarrow> u64" where "csr_mepc c = csr_read c CSR_MEPC"
definition csr_set_mepc :: "u64 \<Rightarrow> csr_file \<Rightarrow> csr_file" where
  "csr_set_mepc v c = csr_write CSR_MEPC v c"
definition csr_satp :: "csr_file \<Rightarrow> u64" where "csr_satp c = csr_read c CSR_SATP"

definition csr_mstatus_mie :: "csr_file \<Rightarrow> bool" where
  "csr_mstatus_mie c \<longleftrightarrow> csr_read c CSR_MSTATUS AND shl 1 3 \<noteq> 0"

definition csr_mie_enabled :: "csr_file \<Rightarrow> u8 \<Rightarrow> bool" where
  "csr_mie_enabled c irq \<longleftrightarrow> csr_read c CSR_MIE AND shl 1 (unat irq) \<noteq> 0"

definition csr_reset :: "csr_file \<Rightarrow> csr_file" where
  "csr_reset c = c\<lparr>csr_regs := (\<lambda>_. 0)(CSR_MISA := 0x40001100, CSR_MSTATUS := 0,
     CSR_MTVEC := 0, CSR_SATP := 0), priv := Machine\<rparr>"

text \<open>The value-initialised file, before the constructor of the emulator resets it.\<close>

definition csr_init :: csr_file where
  "csr_init = \<lparr>csr_regs = (\<lambda>_. 0), priv = Machine\<rparr>"

lemma priv_of_code [simp]: "priv_of (priv_code p) = p"
  by (cases p) (simp_all add: priv_of_def)

lemma csr_read_write:
  "csr_read (csr_write a v c) b =
     (if b = a \<and> a < 4096 \<and> a \<noteq> CSR_MISA then v else csr_read c b)"
  by (auto simp: csr_read_def csr_write_def not_less)

lemma priv_csr_write [simp]: "priv (csr_write a v c) = priv c"
  by (simp add: csr_write_def)

lemma csr_read_priv [simp]: "csr_read (c\<lparr>priv := p\<rparr>) a = csr_read c a"
  by (simp add: csr_read_def)

lemma csr_reset_const: "csr_reset c = csr_reset c'"
  by (simp add: csr_reset_def)

lemma csr_reset_reads:
  "csr_read (csr_reset c) CSR_MTVEC = 0" "csr_read (csr_reset c) CSR_SATP = 0"
  "csr_read (csr_reset c) CSR_MSTATUS = 0" "csr_read (csr_reset c) CSR_MISA = 0x40001100"
  by (simp_all add: csr_reset_def csr_read_def csr_addrs)

end
