(* ===== verification/Memo.thy ===== *)
theory Memo
  imports Prelude
begin

text \<open>
  The contract that the emulator's two caches of computed results share: the TLB of the MMU,
  which remembers page-table walks, and the block cache of the translator, which remembers
  decoded blocks. \<open>entries\<close> is what a cache holds. A lookup returns only what the cache
  holds, filling adds at most the new entry (it may evict others), clearing removes everything.

  A cache is coherent with a relation \<open>R\<close> when everything it holds satisfies \<open>R\<close>. The lemmas
  are what the clients need: lookups in a coherent cache are right, and filling with a right
  result keeps the cache coherent.
\<close>

definition coherent :: "('k \<Rightarrow> 'v \<Rightarrow> bool) \<Rightarrow> ('k \<times> 'v) set \<Rightarrow> bool" where
  "coherent R E \<longleftrightarrow> (\<forall>(k, v) \<in> E. R k v)"

locale memo_cache =
  fixes entries :: "'c \<Rightarrow> ('k \<times> 'v) set"
    and lookup :: "'c \<Rightarrow> 'k \<Rightarrow> 'v option"
    and fill :: "'k \<Rightarrow> 'v \<Rightarrow> 'c \<Rightarrow> 'c"
    and clear :: "'c \<Rightarrow> 'c"
  assumes lookup_entries: "lookup c k = Some v \<Longrightarrow> (k, v) \<in> entries c"
    and entries_fill: "entries (fill k v c) \<subseteq> insert (k, v) (entries c)"
    and entries_clear: "entries (clear c) = {}"
begin

lemma lookup_coherent:
  assumes "coherent R (entries c)" and "lookup c k = Some v"
  shows "R k v"
  using assms lookup_entries by (auto simp: coherent_def)

lemma fill_coherent:
  assumes "coherent R (entries c)" and "R k v"
  shows "coherent R (entries (fill k v c))"
  using assms entries_fill [of k v c] by (auto simp: coherent_def)

lemma clear_coherent: "coherent R (entries (clear c))"
  by (simp add: coherent_def entries_clear)

lemma coherent_weaken:
  assumes "coherent R (entries c)" and "\<And>k v. R k v \<Longrightarrow> S k v"
  shows "coherent S (entries c)"
  using assms by (auto simp: coherent_def)

end

end
