(* ===== verification/Mmu.thy ===== *)
theory Mmu
  imports Memory Csr Memo
begin

text \<open>
  The memory management unit of \<^verbatim>\<open>include/aiasm/mmu.h\<close> and \<^verbatim>\<open>src/mmu.cpp\<close>: a
  32-entry TLB in front of a three-level page-table walk through the scratchpad, and a bare
  mode with an optional linear map. The MMU's pointers to the scratchpad and to the CSR file
  are optional arguments (\<open>None\<close> is null), and so is the \<open>cause\<close> out-parameter: \<open>Some x\<close> is
  a pointer to a variable that holds \<open>x\<close>.
\<close>

definition PAGE_SHIFT :: nat where "PAGE_SHIFT = 12"
definition PAGE_SIZE :: u32 where "PAGE_SIZE = 4096"
definition TLB_SIZE :: nat where "TLB_SIZE = 32"

datatype page_fault_cause =
    PfNone | PfLoadAccessFault | PfStoreAccessFault | PfFetchAccessFault
  | PfLoadPageFault | PfStorePageFault | PfFetchPageFault

section \<open>Page-table entries\<close>

definition pte_valid :: "u64 \<Rightarrow> bool" where "pte_valid w \<longleftrightarrow> w AND 1 \<noteq> 0"
definition pte_read :: "u64 \<Rightarrow> bool" where "pte_read w \<longleftrightarrow> w AND shl 1 1 \<noteq> 0"
definition pte_write :: "u64 \<Rightarrow> bool" where "pte_write w \<longleftrightarrow> w AND shl 1 2 \<noteq> 0"
definition pte_execute :: "u64 \<Rightarrow> bool" where "pte_execute w \<longleftrightarrow> w AND shl 1 3 \<noteq> 0"
definition pte_user :: "u64 \<Rightarrow> bool" where "pte_user w \<longleftrightarrow> w AND shl 1 4 \<noteq> 0"
definition pte_accessed :: "u64 \<Rightarrow> bool" where "pte_accessed w \<longleftrightarrow> w AND shl 1 6 \<noteq> 0"
definition pte_dirty :: "u64 \<Rightarrow> bool" where "pte_dirty w \<longleftrightarrow> w AND shl 1 7 \<noteq> 0"
definition pte_ppn :: "u64 \<Rightarrow> u64" where "pte_ppn w = drop_bit 10 w AND (shl 1 44 - 1)"

section \<open>State\<close>

record tlb_entry =
  tlb_vpn :: u64
  tlb_ppn :: u64
  tlb_perms :: u8
  tlb_valid :: bool
  tlb_asid :: u64

record simple_map =
  sm_vpn :: u32
  sm_ppn :: u32
  sm_perms :: u8
  sm_valid :: bool

record mmu =
  mmu_enabled :: bool
  tlb :: "tlb_entry list"
  tlb_next :: size_t
  tlb_hits :: size_t
  tlb_misses :: size_t
  last_fault :: page_fault_cause
  last_fault_va :: u32
  simple_maps :: "simple_map list"

definition tlb_empty :: tlb_entry where
  "tlb_empty = \<lparr>tlb_vpn = 0, tlb_ppn = 0, tlb_perms = 0, tlb_valid = False, tlb_asid = 0\<rparr>"

definition mmu_init :: mmu where
  "mmu_init = \<lparr>mmu_enabled = False, tlb = replicate TLB_SIZE tlb_empty, tlb_next = 0,
     tlb_hits = 0, tlb_misses = 0, last_fault = PfNone, last_fault_va = 0, simple_maps = []\<rparr>"

definition set_enabled :: "bool \<Rightarrow> mmu \<Rightarrow> mmu" where
  "set_enabled en m = m\<lparr>mmu_enabled := en\<rparr>"

section \<open>TLB\<close>

definition page_of :: "u32 \<Rightarrow> u64" where
  "page_of va = ucast (drop_bit PAGE_SHIFT va)"

definition asid_of :: "csr_file option \<Rightarrow> u64" where
  "asid_of csr = (case csr of Some c \<Rightarrow> drop_bit 44 (csr_satp c) AND 0xFFFF | None \<Rightarrow> 0)"

definition phys_addr :: "u64 \<Rightarrow> u32 \<Rightarrow> u32" where
  "phys_addr ppn va = ucast (shl ppn PAGE_SHIFT OR ucast (va AND (PAGE_SIZE - 1)))"

definition tlb_match :: "u64 \<Rightarrow> u64 \<Rightarrow> tlb_entry \<Rightarrow> bool" where
  "tlb_match vpn asid e \<longleftrightarrow> tlb_valid e \<and> tlb_vpn e = vpn \<and> tlb_asid e = asid"

definition tlb_lookup :: "csr_file option \<Rightarrow> u32 \<Rightarrow> u8 \<Rightarrow> mmu \<Rightarrow> u32 option \<times> mmu" where
  "tlb_lookup csr va need m =
     (case find (tlb_match (page_of va) (asid_of csr)) (tlb m) of
        Some e \<Rightarrow>
          if tlb_perms e AND need = need
          then (Some (phys_addr (tlb_ppn e) va), m\<lparr>tlb_hits := tlb_hits m + 1\<rparr>)
          else (None, m)
      | None \<Rightarrow> (None, m\<lparr>tlb_misses := tlb_misses m + 1\<rparr>))"

definition tlb_insert :: "tlb_entry \<Rightarrow> mmu \<Rightarrow> mmu" where
  "tlb_insert e m = m\<lparr>tlb := (tlb m)[unat (tlb_next m mod of_nat TLB_SIZE) := e],
     tlb_next := tlb_next m + 1\<rparr>"

definition tlb_flush :: "mmu \<Rightarrow> mmu" where
  "tlb_flush m = m\<lparr>tlb := map (\<lambda>e. e\<lparr>tlb_valid := False\<rparr>) (tlb m), tlb_next := 0\<rparr>"

definition tlb_flush_va :: "u32 \<Rightarrow> mmu \<Rightarrow> mmu" where
  "tlb_flush_va va m = m\<lparr>tlb := map (\<lambda>e. if tlb_valid e \<and> tlb_vpn e = page_of va
     then e\<lparr>tlb_valid := False\<rparr> else e) (tlb m)\<rparr>"

section \<open>The page-table walk\<close>

text \<open>The result of the loop over the levels: the first leaf entry, or why there is none.\<close>

datatype pt_walk = PtLeaf u64 | PtBadAddr | PtInvalid | PtNoLeaf | PtUndef

definition vpn_index :: "u32 \<Rightarrow> nat \<Rightarrow> u64" where
  "vpn_index va level =
     [ucast (drop_bit 12 va AND 0x1FF), ucast (drop_bit 21 va AND 0x1FF),
      ucast (drop_bit 30 va AND 0x1FF)] ! level"

fun walk_levels :: "sram \<Rightarrow> u32 \<Rightarrow> nat list \<Rightarrow> u64 \<Rightarrow> pt_walk" where
  "walk_levels ram va [] cur_ppn = PtNoLeaf"
| "walk_levels ram va (level # rest) cur_ppn =
     (let pte_addr = cur_ppn * ucast PAGE_SIZE + vpn_index va level * 8 in
      if pte_addr + 8 > sram_size ram then PtBadAddr
      else (case mem_read (sram_data ram) (unat (ucast pte_addr :: u32)) 8 of
              Ok bs \<Rightarrow>
                let pte = le_word64 bs in
                if \<not> pte_valid pte then PtInvalid
                else if pte_read pte \<or> pte_write pte \<or> pte_execute pte then PtLeaf pte
                else walk_levels ram va rest (pte_ppn pte)
            | _ \<Rightarrow> PtUndef))"

definition root_ppn :: "csr_file \<Rightarrow> u64" where
  "root_ppn c = csr_satp c AND (shl 1 44 - 1)"

definition walk_leaf_of :: "sram \<Rightarrow> csr_file \<Rightarrow> u32 \<Rightarrow> pt_walk" where
  "walk_leaf_of ram c va = walk_levels ram va [2, 1, 0] (root_ppn c)"

type_synonym translation = "(u32 option \<times> page_fault_cause option \<times> mmu) res"

text \<open>
  \<open>if (cause) *cause = x; last_fault_ = *cause; last_fault_va_ = va; return nullopt;\<close>:
  with a null \<open>cause\<close> the second statement dereferences it.
\<close>

definition fault_via_cause ::
  "page_fault_cause \<Rightarrow> page_fault_cause option \<Rightarrow> u32 \<Rightarrow> mmu \<Rightarrow> translation" where
  "fault_via_cause x cause va m = (case cause of
     None \<Rightarrow> Undef
   | Some _ \<Rightarrow> Ok (None, Some x, m\<lparr>last_fault := x, last_fault_va := va\<rparr>))"

text \<open>The same with the cause assigned to \<open>last_fault_\<close> directly.\<close>

definition fault_direct ::
  "page_fault_cause \<Rightarrow> page_fault_cause option \<Rightarrow> u32 \<Rightarrow> mmu \<Rightarrow> translation" where
  "fault_direct x cause va m =
     Ok (None, map_option (\<lambda>_. x) cause, m\<lparr>last_fault := x, last_fault_va := va\<rparr>)"

definition pte_perms :: "u64 \<Rightarrow> u8" where
  "pte_perms w = (if pte_read w then 1 else 0) OR (if pte_write w then 2 else 0)
     OR (if pte_execute w then 4 else 0) OR (if pte_user w then 8 else 0)"

text \<open>The branch of the loop for a leaf entry: permission checks, TLB fill, result.\<close>

definition walk_leaf ::
  "csr_file \<Rightarrow> u64 \<Rightarrow> u32 \<Rightarrow> bool \<Rightarrow> bool \<Rightarrow> page_fault_cause option \<Rightarrow> mmu \<Rightarrow> translation" where
  "walk_leaf c pte va is_write is_fetch cause m =
     (if is_write \<and> \<not> pte_write pte then fault_via_cause PfStorePageFault cause va m
      else if is_fetch \<and> \<not> pte_execute pte then fault_via_cause PfFetchPageFault cause va m
      else if \<not> is_write \<and> \<not> is_fetch \<and> \<not> pte_read pte
        then fault_via_cause PfLoadPageFault cause va m
      else if priv c = User \<and> \<not> pte_user pte
        then Ok (None, map_option (\<lambda>_. PfLoadPageFault) cause, m)
      else
        let pa = shl (pte_ppn pte) PAGE_SHIFT OR ucast (va AND (PAGE_SIZE - 1));
            e = \<lparr>tlb_vpn = page_of va, tlb_ppn = pte_ppn pte, tlb_perms = pte_perms pte,
                 tlb_valid = True, tlb_asid = asid_of (Some c)\<rparr>
        in Ok (Some (ucast pa), cause, tlb_insert e m))"

definition mmu_walk ::
  "sram option \<Rightarrow> csr_file option \<Rightarrow> u32 \<Rightarrow> bool \<Rightarrow> bool \<Rightarrow> page_fault_cause option \<Rightarrow> mmu \<Rightarrow>
   translation" where
  "mmu_walk ram csr va is_write is_fetch cause m = (case (ram, csr) of
     (Some r, Some c) \<Rightarrow>
       (case walk_leaf_of r c va of
          PtLeaf pte \<Rightarrow> walk_leaf c pte va is_write is_fetch cause m
        | PtBadAddr \<Rightarrow> fault_direct PfLoadAccessFault cause va m
        | PtInvalid \<Rightarrow> fault_via_cause (if is_fetch then PfFetchPageFault
            else if is_write then PfStorePageFault else PfLoadPageFault) cause va m
        | PtNoLeaf \<Rightarrow> fault_via_cause PfLoadPageFault cause va m
        | PtUndef \<Rightarrow> Undef)
   | _ \<Rightarrow> Ok (None, map_option (\<lambda>_. PfLoadAccessFault) cause, m))"

section \<open>Translation\<close>

definition need_perms :: "bool \<Rightarrow> bool \<Rightarrow> u8" where
  "need_perms is_write is_fetch = (if is_fetch then 4 else if is_write then 2 else 1)"

definition mmu_bare ::
  "u32 \<Rightarrow> bool \<Rightarrow> bool \<Rightarrow> page_fault_cause option \<Rightarrow> mmu \<Rightarrow> translation" where
  "mmu_bare va is_write is_fetch cause m =
     (case find (\<lambda>s. sm_valid s \<and> sm_vpn s = drop_bit PAGE_SHIFT va) (simple_maps m) of
        Some s \<Rightarrow>
          if is_write \<and> sm_perms s AND 2 = 0 then fault_direct PfStorePageFault cause va m
          else if is_fetch \<and> sm_perms s AND 4 = 0 then fault_direct PfFetchPageFault cause va m
          else
            let e = \<lparr>tlb_vpn = page_of va, tlb_ppn = ucast (sm_ppn s), tlb_perms = sm_perms s,
                     tlb_valid = True, tlb_asid = 0\<rparr>
            in Ok (Some (shl (sm_ppn s) PAGE_SHIFT OR (va AND (PAGE_SIZE - 1))), cause, tlb_insert e m)
      | None \<Rightarrow> Ok (Some va, cause, m))"

definition mmu_translate ::
  "sram option \<Rightarrow> csr_file option \<Rightarrow> u32 \<Rightarrow> bool \<Rightarrow> bool \<Rightarrow> page_fault_cause option \<Rightarrow> mmu \<Rightarrow>
   translation" where
  "mmu_translate ram csr va is_write is_fetch cause m =
     (case tlb_lookup csr va (need_perms is_write is_fetch) m of
        (Some pa, m1) \<Rightarrow> Ok (Some pa, cause, m1)
      | (None, m1) \<Rightarrow>
          if \<not> mmu_enabled m1 \<or> csr = None \<or> csr_satp (the csr) = 0
          then mmu_bare va is_write is_fetch cause m1
          else mmu_walk ram csr va is_write is_fetch cause m1)"

definition identity_map :: "u32 \<Rightarrow> u32 \<Rightarrow> nat \<Rightarrow> u8 \<Rightarrow> mmu \<Rightarrow> mmu" where
  "identity_map va_base pa_base pages perms m =
     m\<lparr>simple_maps := simple_maps m @ map (\<lambda>i. \<lparr>sm_vpn = drop_bit PAGE_SHIFT va_base + of_nat i,
        sm_ppn = drop_bit PAGE_SHIFT pa_base + of_nat i, sm_perms = perms, sm_valid = True\<rparr>)
        [0..<pages]\<rparr>"

section \<open>The TLB as a cache of walks\<close>

text \<open>What the TLB holds: page and address space to frame and permissions.\<close>

definition tlb_contents :: "mmu \<Rightarrow> ((u64 \<times> u64) \<times> (u64 \<times> u8)) set" where
  "tlb_contents m = (\<lambda>e. ((tlb_vpn e, tlb_asid e), (tlb_ppn e, tlb_perms e))) `
     {e \<in> set (tlb m). tlb_valid e}"

definition tlb_get :: "mmu \<Rightarrow> u64 \<times> u64 \<Rightarrow> (u64 \<times> u8) option" where
  "tlb_get m k = map_option (\<lambda>e. (tlb_ppn e, tlb_perms e)) (find (tlb_match (fst k) (snd k)) (tlb m))"

definition tlb_put :: "u64 \<times> u64 \<Rightarrow> u64 \<times> u8 \<Rightarrow> mmu \<Rightarrow> mmu" where
  "tlb_put k v m = tlb_insert \<lparr>tlb_vpn = fst k, tlb_ppn = fst v, tlb_perms = snd v,
     tlb_valid = True, tlb_asid = snd k\<rparr> m"

interpretation tlb_memo: memo_cache tlb_contents tlb_get tlb_put tlb_flush
proof
  fix m :: mmu and k v
  assume "tlb_get m k = Some v"
  then obtain e where "find (tlb_match (fst k) (snd k)) (tlb m) = Some e"
    and "v = (tlb_ppn e, tlb_perms e)"
    by (auto simp: tlb_get_def)
  then show "(k, v) \<in> tlb_contents m"
    by (auto simp: tlb_contents_def find_Some_iff tlb_match_def intro!: image_eqI [of _ _ e])
next
  fix m :: mmu and k v
  let ?e = "\<lparr>tlb_vpn = fst k, tlb_ppn = fst v, tlb_perms = snd v, tlb_valid = True, tlb_asid = snd k\<rparr>"
  have "set (tlb (tlb_put k v m)) \<subseteq> insert ?e (set (tlb m))"
    by (simp add: tlb_put_def tlb_insert_def set_update_subset_insert)
  then show "tlb_contents (tlb_put k v m) \<subseteq> insert (k, v) (tlb_contents m)"
    by (auto simp: tlb_contents_def)
next
  fix m :: mmu
  show "tlb_contents (tlb_flush m) = {}"
    by (auto simp: tlb_contents_def tlb_flush_def)
qed

text \<open>
  The entries the walk would insert now: for the running address space, the leaf entry of every
  address of the page, admitted by the current privilege level. Other address spaces are free.
\<close>

definition walked :: "sram \<Rightarrow> csr_file \<Rightarrow> u64 \<times> u64 \<Rightarrow> u64 \<times> u8 \<Rightarrow> bool" where
  "walked ram c k v \<longleftrightarrow> (snd k = asid_of (Some c) \<longrightarrow>
     (\<forall>va. page_of va = fst k \<longrightarrow> (\<exists>pte. walk_leaf_of ram c va = PtLeaf pte \<and>
        v = (pte_ppn pte, pte_perms pte) \<and> (priv c = User \<longrightarrow> pte_user pte))))"

definition tlb_ok :: "sram \<Rightarrow> csr_file \<Rightarrow> mmu \<Rightarrow> bool" where
  "tlb_ok ram c m \<longleftrightarrow> coherent (walked ram c) (tlb_contents m)"

text \<open>What a translation answers, without the counters and the TLB it leaves behind.\<close>

definition answer :: "translation \<Rightarrow> (u32 option \<times> page_fault_cause option) res" where
  "answer t = map_res (\<lambda>(r, cause, _). (r, cause)) t"

lemma page_of_eq_iff: "page_of va = page_of va' \<longleftrightarrow> drop_bit 12 va = drop_bit 12 va'"
proof -
  have "ucast x = (ucast y :: u64) \<longleftrightarrow> x = y" for x y :: u32
    by (metis unat_ucast_u32_u64 word_unat_eq_iff)
  then show ?thesis by (simp add: page_of_def PAGE_SHIFT_def)
qed

lemma drop_bits_page:
  "drop_bit 12 va = drop_bit 12 va' \<Longrightarrow> n \<ge> 12 \<Longrightarrow> drop_bit n va = drop_bit n (va' :: u32)"
  by (metis drop_bit_drop_bit le_add_diff_inverse2)

lemma vpn_index_page: "page_of va = page_of va' \<Longrightarrow> vpn_index va = vpn_index va'"
  using drop_bits_page [of va va' 12] drop_bits_page [of va va' 21] drop_bits_page [of va va' 30]
  by (simp add: fun_eq_iff vpn_index_def page_of_eq_iff)

lemma walk_levels_page:
  assumes "page_of va = page_of va'"
  shows "walk_levels ram va ls ppn = walk_levels ram va' ls ppn"
proof (induction ls arbitrary: ppn)
  case (Cons l ls)
  then show ?case
    by (simp only: walk_levels.simps vpn_index_page [OF assms])
qed simp

lemma walk_leaf_of_page:
  "page_of va = page_of va' \<Longrightarrow> walk_leaf_of ram c va = walk_leaf_of ram c va'"
  unfolding walk_leaf_of_def by (rule walk_levels_page)

lemma perms_need_iff:
  "\<not> (w \<and> x) \<Longrightarrow> pte_perms pte AND need_perms w x = need_perms w x \<longleftrightarrow>
   (w \<longrightarrow> pte_write pte) \<and> (x \<longrightarrow> pte_execute pte) \<and> (\<not> w \<and> \<not> x \<longrightarrow> pte_read pte)"
  by (cases w; cases x; cases "pte_read pte"; cases "pte_write pte"; cases "pte_execute pte";
      cases "pte_user pte") (simp_all add: pte_perms_def need_perms_def)

lemma walk_leaf_answer:
  assumes "\<not> (w \<and> x)" and "pte_perms pte AND need_perms w x = need_perms w x"
    and "priv c = User \<longrightarrow> pte_user pte"
  shows "walk_leaf c pte va w x cause m =
     Ok (Some (phys_addr (pte_ppn pte) va), cause,
         tlb_put (page_of va, asid_of (Some c)) (pte_ppn pte, pte_perms pte) m)"
  using assms perms_need_iff [OF assms(1)]
  by (auto simp: walk_leaf_def Let_def phys_addr_def tlb_put_def)

lemma tlb_lookup_hit:
  assumes "tlb_ok ram c m" and "tlb_lookup (Some c) va need m = (Some pa, m1)"
  shows "\<exists>pte. walk_leaf_of ram c va = PtLeaf pte \<and> pte_perms pte AND need = need \<and>
     (priv c = User \<longrightarrow> pte_user pte) \<and> pa = phys_addr (pte_ppn pte) va"
proof -
  from assms(2) obtain e where e: "find (tlb_match (page_of va) (asid_of (Some c))) (tlb m) = Some e"
    "tlb_perms e AND need = need" "pa = phys_addr (tlb_ppn e) va"
    by (auto simp: tlb_lookup_def split: option.splits if_splits)
  then have "tlb_get m (page_of va, asid_of (Some c)) = Some (tlb_ppn e, tlb_perms e)"
    by (simp add: tlb_get_def)
  from tlb_memo.lookup_coherent [OF assms(1) [unfolded tlb_ok_def] this] e
  show ?thesis by (auto simp: walked_def)
qed

lemma tlb_lookup_frame:
  assumes "tlb_lookup csr va need m = (r, m1)"
  shows "tlb m1 = tlb m" and "tlb_next m1 = tlb_next m" and "mmu_enabled m1 = mmu_enabled m"
    and "simple_maps m1 = simple_maps m"
  using assms by (auto simp: tlb_lookup_def split: option.splits if_splits)

lemma tlb_ok_cong: "tlb m1 = tlb m \<Longrightarrow> tlb_ok ram c m1 \<longleftrightarrow> tlb_ok ram c m"
  by (simp add: tlb_ok_def tlb_contents_def)

lemma answer_simps [simp]:
  "answer (Ok (r, cause, m)) = Ok (r, cause)" "answer Undef = Undef"
  "answer (fault_direct f cause va m) = Ok (None, map_option (\<lambda>_. f) cause)"
  "answer (fault_via_cause f cause va m) = (if cause = None then Undef else Ok (None, Some f))"
  by (auto simp: answer_def fault_direct_def fault_via_cause_def split: option.split)

lemma walk_answer_frame:
  "answer (mmu_walk ram csr va w x cause m1) = answer (mmu_walk ram csr va w x cause m)"
  by (auto simp: mmu_walk_def walk_leaf_def Let_def split: option.split pt_walk.split)

lemma fault_keeps_tlb:
  "fault_direct f cause va m = Ok (r, cause', m') \<Longrightarrow> tlb m' = tlb m"
  "fault_via_cause f cause va m = Ok (r, cause', m') \<Longrightarrow> tlb m' = tlb m"
  by (auto simp: fault_direct_def fault_via_cause_def split: option.splits)

lemma walk_leaf_fills:
  assumes "walk_leaf c pte va w x cause m = Ok (r, cause', m')" and "tlb m' \<noteq> tlb m"
  shows "(priv c = User \<longrightarrow> pte_user pte) \<and>
     m' = tlb_put (page_of va, asid_of (Some c)) (pte_ppn pte, pte_perms pte) m"
  using assms
  by (auto simp: walk_leaf_def Let_def tlb_put_def dest: fault_keeps_tlb split: if_splits)

lemma walk_keeps_tlb_ok:
  assumes ok: "tlb_ok ram c m"
    and r: "mmu_walk (Some ram) (Some c) va w x cause m = Ok (r, cause', m')"
  shows "tlb_ok ram c m'"
proof (cases "tlb m' = tlb m")
  case True
  from tlb_ok_cong [OF this] ok show ?thesis by simp
next
  case False
  with r obtain pte where leaf: "walk_leaf_of ram c va = PtLeaf pte"
    and fill: "walk_leaf c pte va w x cause m = Ok (r, cause', m')"
    by (cases "walk_leaf_of ram c va") (auto simp: mmu_walk_def dest: fault_keeps_tlb)
  note put = walk_leaf_fills [OF fill False]
  have "walk_leaf_of ram c va' = PtLeaf pte" if "page_of va' = page_of va" for va'
    using walk_leaf_of_page [OF that] leaf by simp
  with put have "walked ram c (page_of va, asid_of (Some c)) (pte_ppn pte, pte_perms pte)"
    by (simp add: walked_def)
  with ok put show ?thesis
    by (simp add: tlb_ok_def tlb_memo.fill_coherent)
qed

lemma page_mask: "PAGE_SIZE - 1 = mask 12"
  by (simp add: PAGE_SIZE_def mask_eq_exp_minus_1)

lemma phys_addr_offset [simp]: "phys_addr ppn va AND (PAGE_SIZE - 1) = va AND (PAGE_SIZE - 1)"
  unfolding page_mask
  by (rule bit_word_eqI) (auto simp: phys_addr_def page_mask PAGE_SHIFT_def bit_simps)

lemma phys_addr_offset32:
  "(shl ppn PAGE_SHIFT OR va AND (PAGE_SIZE - 1)) AND (PAGE_SIZE - 1) = va AND (PAGE_SIZE - 1)"
  unfolding page_mask
  by (rule bit_word_eqI) (auto simp: PAGE_SHIFT_def bit_simps)

lemma fault_no_pa:
  "fault_direct f cause va m \<noteq> Ok (Some pa, cause', m')"
  "fault_via_cause f cause va m \<noteq> Ok (Some pa, cause', m')"
  by (auto simp: fault_direct_def fault_via_cause_def split: option.splits)

lemma walk_leaf_pa:
  "walk_leaf c pte va w x cause m = Ok (Some pa, cause', m') \<Longrightarrow>
   pa = phys_addr (pte_ppn pte) va \<and> (w \<longrightarrow> pte_write pte) \<and> (x \<longrightarrow> pte_execute pte) \<and>
   (\<not> w \<and> \<not> x \<longrightarrow> pte_read pte) \<and> (priv c = User \<longrightarrow> pte_user pte)"
  by (auto simp: walk_leaf_def Let_def phys_addr_def fault_no_pa split: if_splits)

section \<open>Properties\<close>

text \<open>
  C9. The TLB is transparent: while translation is on and the TLB agrees with the page
  tables for the running address space, a translation answers exactly what the page-table
  walk answers (address or fault, and the reported cause), and leaves a TLB that agrees again.
\<close>

theorem tlb_transparent:
  assumes "mmu_enabled m" and "csr_satp c \<noteq> 0" and "tlb_ok ram c m" and "\<not> (w \<and> x)"
  shows "answer (mmu_translate (Some ram) (Some c) va w x cause m) =
       answer (mmu_walk (Some ram) (Some c) va w x cause m)
     \<and> (\<forall>r cause' m'. mmu_translate (Some ram) (Some c) va w x cause m = Ok (r, cause', m') \<longrightarrow>
          tlb_ok ram c m')"
proof -
  obtain hit m1 where look: "tlb_lookup (Some c) va (need_perms w x) m = (hit, m1)" by force
  note frame = tlb_lookup_frame [OF look]
  have tr: "mmu_translate (Some ram) (Some c) va w x cause m =
      (case hit of Some pa \<Rightarrow> Ok (Some pa, cause, m1)
       | None \<Rightarrow> mmu_walk (Some ram) (Some c) va w x cause m1)"
    using assms frame by (simp add: mmu_translate_def look split: option.split)
  have "answer (mmu_translate (Some ram) (Some c) va w x cause m) =
       answer (mmu_walk (Some ram) (Some c) va w x cause m)"
  proof (cases hit)
    case None
    then show ?thesis by (simp add: tr walk_answer_frame [of _ _ _ _ _ _ m1 m])
  next
    case (Some pa)
    with look have "tlb_lookup (Some c) va (need_perms w x) m = (Some pa, m1)" by simp
    from tlb_lookup_hit [OF assms(3) this] assms(4) Some show ?thesis
      by (auto simp: tr mmu_walk_def walk_leaf_answer)
  qed
  moreover have "tlb_ok ram c m'"
    if "mmu_translate (Some ram) (Some c) va w x cause m = Ok (r, cause', m')" for r cause' m'
    using that assms(3) walk_keeps_tlb_ok [of ram c m1] tlb_ok_cong [OF frame(1), of ram c]
    by (cases hit) (auto simp: tr)
  ultimately show ?thesis by blast
qed

text \<open>
  Every translation keeps the offset within the page, in bare mode, through the linear
  map, through the TLB and through the page tables alike.
\<close>

theorem translate_keeps_offset:
  assumes "mmu_translate ram csr va w x cause m = Ok (Some pa, cause', m')"
  shows "pa AND (PAGE_SIZE - 1) = va AND (PAGE_SIZE - 1)"
proof -
  have "tlb_lookup csr va n m = (Some pa, m1) \<Longrightarrow> ?thesis" for n m1
    by (auto simp: tlb_lookup_def phys_addr_offset split: option.splits if_splits)
  moreover have "mmu_bare va w x cause m1 = Ok (Some pa, cause', m') \<Longrightarrow> ?thesis" for m1
    by (auto simp: mmu_bare_def Let_def fault_no_pa phys_addr_offset32 split: option.splits if_splits)
  moreover have "mmu_walk ram csr va w x cause m1 = Ok (Some pa, cause', m') \<Longrightarrow> ?thesis" for m1
    by (auto simp: mmu_walk_def fault_no_pa dest!: walk_leaf_pa split: option.splits pt_walk.splits)
  moreover obtain hit m1 where look: "tlb_lookup csr va (need_perms w x) m = (hit, m1)" by force
  ultimately show ?thesis
    using assms by (cases hit) (auto simp: mmu_translate_def split: if_splits)
qed

text \<open>
  C14. With a TLB that agrees with the page tables, an address is handed out only for a leaf
  entry that grants the access to the current privilege level, and it lies in that entry's frame.
\<close>

theorem translate_permitted:
  assumes "mmu_enabled m" and "csr_satp c \<noteq> 0" and "tlb_ok ram c m" and "\<not> (w \<and> x)"
    and "mmu_translate (Some ram) (Some c) va w x cause m = Ok (Some pa, cause', m')"
  shows "\<exists>pte. walk_leaf_of ram c va = PtLeaf pte \<and> pa = phys_addr (pte_ppn pte) va \<and>
     (w \<longrightarrow> pte_write pte) \<and> (x \<longrightarrow> pte_execute pte) \<and> (\<not> w \<and> \<not> x \<longrightarrow> pte_read pte) \<and>
     (priv c = User \<longrightarrow> pte_user pte)"
proof -
  obtain hit m1 where look: "tlb_lookup (Some c) va (need_perms w x) m = (hit, m1)" by force
  show ?thesis
  proof (cases hit)
    case (Some p)
    with assms(5) look have "tlb_lookup (Some c) va (need_perms w x) m = (Some pa, m1)"
      by (simp add: mmu_translate_def)
    from tlb_lookup_hit [OF assms(3) this] perms_need_iff [OF assms(4)] show ?thesis by auto
  next
    case None
    with assms(1,2,5) look tlb_lookup_frame(3) [OF look]
    have "mmu_walk (Some ram) (Some c) va w x cause m1 = Ok (Some pa, cause', m')"
      by (simp add: mmu_translate_def)
    then show ?thesis
      by (auto simp: mmu_walk_def fault_no_pa dest!: walk_leaf_pa split: pt_walk.splits)
  qed
qed

text \<open>
  C15. A flush is enough after the page tables, the address space or the privilege level
  change: whatever the TLB held, the next translation is the walk of the tables as they are now.
\<close>

theorem flush_resynchronises:
  assumes "mmu_enabled m" and "csr_satp c \<noteq> 0" and "\<not> (w \<and> x)"
  shows "answer (mmu_translate (Some ram) (Some c) va w x cause (tlb_flush m)) =
     answer (mmu_walk (Some ram) (Some c) va w x cause m)"
proof -
  have empty: "find (tlb_match v a) (tlb (tlb_flush m)) = None" for v a
    by (auto simp: find_None_iff tlb_flush_def tlb_match_def)
  have "mmu_enabled (tlb_flush m)"
    using assms(1) by (simp add: tlb_flush_def)
  then show ?thesis
    using assms(2) walk_answer_frame [of "Some ram" "Some c" va w x cause _ m]
    by (simp add: mmu_translate_def tlb_lookup_def empty)
qed

section \<open>Witnesses\<close>

text \<open>
  One page table in eight bytes of scratchpad: a single readable, writable and executable
  leaf at the root, without the user bit, and a supervisor that runs on it.
\<close>

definition one_pte_ram :: sram where
  "one_pte_ram = \<lparr>sram_data = [0x0F, 0, 0, 0, 0, 0, 0, 0]\<rparr>"

definition paging_csr :: "privilege \<Rightarrow> csr_file" where
  "paging_csr p = (csr_write CSR_SATP 0x8000000000000000 csr_init)\<lparr>priv := p\<rparr>"

lemma paging_csr_satp [simp]: "csr_satp (paging_csr p) = 0x8000000000000000"
  by (simp add: paging_csr_def csr_satp_def csr_read_def csr_write_def csr_addrs)

lemma paging_csr_priv [simp]: "priv (paging_csr p) = p"
  by (simp add: paging_csr_def)

lemma one_pte_walk: "walk_leaf_of one_pte_ram (paging_csr p) 0x123 = PtLeaf 0x0F"
  by (simp add: walk_leaf_of_def root_ppn_def one_pte_ram_def shl_def vpn_index_def sram_size_def
      mem_read_def slice_def le_word64_def pte_valid_def pte_read_def)

definition paged_mmu :: mmu where
  "paged_mmu = set_enabled True mmu_init"

lemma paged_mmu_ok: "tlb_ok ram c paged_mmu"
  by (auto simp: tlb_ok_def coherent_def tlb_contents_def paged_mmu_def set_enabled_def
      mmu_init_def tlb_empty_def)

lemma one_pte_translate:
  "mmu_walk (Some one_pte_ram) (Some (paging_csr Machine)) 0x123 True False None m =
   Ok (Some 0x123, None, tlb_put (0, 0) (0, 7) m)"
  by (simp add: mmu_walk_def one_pte_walk walk_leaf_def pte_write_def pte_ppn_def shl_def
      PAGE_SIZE_def PAGE_SHIFT_def tlb_put_def pte_perms_def pte_read_def pte_execute_def
      pte_user_def asid_of_def page_of_def)

theorem tlb_transparent_witness:
  "answer (mmu_translate (Some one_pte_ram) (Some (paging_csr Machine)) 0x123 True False None paged_mmu)
   = Ok (Some 0x123, None)"
proof -
  have "mmu_enabled paged_mmu" by (simp add: paged_mmu_def set_enabled_def)
  from tlb_transparent [OF this _ paged_mmu_ok, of "paging_csr Machine" True False one_pte_ram "0x123" None]
  show ?thesis by (simp add: one_pte_translate)
qed

lemma paged_mmu_enabled: "mmu_enabled paged_mmu"
  by (simp add: paged_mmu_def set_enabled_def)

lemma paged_mmu_tlb: "tlb paged_mmu = tlb_empty # replicate 31 tlb_empty"
  by (simp add: paged_mmu_def set_enabled_def mmu_init_def TLB_SIZE_def numeral_eq_Suc)

lemma paged_mmu_next: "tlb_next paged_mmu = 0"
  by (simp add: paged_mmu_def set_enabled_def mmu_init_def)

lemma paged_mmu_hits: "tlb_hits paged_mmu = 0"
  by (simp add: paged_mmu_def set_enabled_def mmu_init_def)

lemma paged_mmu_lookup: "tlb_lookup (Some c) va need paged_mmu = (None, paged_mmu\<lparr>tlb_misses := 1\<rparr>)"
  by (simp add: tlb_lookup_def paged_mmu_def set_enabled_def mmu_init_def TLB_SIZE_def
      numeral_eq_Suc tlb_match_def tlb_empty_def)

lemma one_pte_fill:
  "mmu_translate (Some one_pte_ram) (Some (paging_csr Machine)) 0x123 True False None paged_mmu =
   Ok (Some 0x123, None, tlb_put (0, 0) (0, 7) (paged_mmu\<lparr>tlb_misses := 1\<rparr>))"
  by (simp add: mmu_translate_def paged_mmu_lookup one_pte_translate paged_mmu_enabled)

theorem translate_keeps_offset_witness: "(0x123 :: u32) AND (PAGE_SIZE - 1) = 0x123 AND (PAGE_SIZE - 1)
   \<and> mmu_translate (Some one_pte_ram) (Some (paging_csr Machine)) 0x123 True False None paged_mmu =
     Ok (Some 0x123, None, tlb_put (0, 0) (0, 7) (paged_mmu\<lparr>tlb_misses := 1\<rparr>))"
  using translate_keeps_offset [OF one_pte_fill] one_pte_fill by simp

theorem translate_permitted_witness:
  "\<exists>pte. walk_leaf_of one_pte_ram (paging_csr Machine) 0x123 = PtLeaf pte \<and> pte_write pte \<and>
     0x123 = phys_addr (pte_ppn pte) 0x123"
  using translate_permitted [OF paged_mmu_enabled _ paged_mmu_ok _ one_pte_fill] by auto

theorem flush_resynchronises_witness:
  "answer (mmu_translate (Some one_pte_ram) (Some (paging_csr Machine)) 0x123 True False None
     (tlb_flush paged_mmu)) = Ok (Some 0x123, None)"
  using flush_resynchronises [OF paged_mmu_enabled, of "paging_csr Machine" True False one_pte_ram "0x123" None]
  by (simp add: one_pte_translate)

text \<open>
  The user bit is checked by the walk only: after a machine-mode access has filled the
  TLB, the same access from user mode is answered, although the walk refuses it.
\<close>

theorem tlb_ignores_user_bit:
  "let m = tlb_put (0, 0) (0, 7) (paged_mmu\<lparr>tlb_misses := 1\<rparr>);
       user = paging_csr User
   in mmu_translate (Some one_pte_ram) (Some (paging_csr Machine)) 0x123 True False None paged_mmu =
        Ok (Some 0x123, None, m) \<and>
      answer (mmu_walk (Some one_pte_ram) (Some user) 0x123 True False None m) = Ok (None, None) \<and>
      answer (mmu_translate (Some one_pte_ram) (Some user) 0x123 True False None m) =
        Ok (Some 0x123, None)"
proof -
  have "tlb_lookup (Some (paging_csr User)) 0x123 2 (tlb_put (0, 0) (0, 7) (paged_mmu\<lparr>tlb_misses := 1\<rparr>))
      = (Some 0x123, tlb_put (0, 0) (0, 7) (paged_mmu\<lparr>tlb_misses := 1, tlb_hits := 1\<rparr>))"
    by (simp add: tlb_lookup_def tlb_put_def tlb_insert_def paged_mmu_tlb paged_mmu_next paged_mmu_hits
        TLB_SIZE_def tlb_match_def phys_addr_def PAGE_SIZE_def asid_of_def page_of_def
        PAGE_SHIFT_def shl_def)
  moreover have "walk_leaf (paging_csr User) 0x0F 0x123 True False None m = Ok (None, None, m)" for m
    by (simp add: walk_leaf_def pte_write_def pte_user_def shl_def)
  ultimately show ?thesis
    using one_pte_fill
    by (simp add: Let_def mmu_translate_def [of _ "Some (paging_csr User)"] need_perms_def
        mmu_walk_def one_pte_walk)
qed

end
