(* ===== verification/Interrupt.thy ===== *)
theory Interrupt
  imports Csr
begin

text \<open>
  The interrupt and trap controller of \<^verbatim>\<open>include/aiasm/interrupt.h\<close> and
  \<^verbatim>\<open>src/interrupt.cpp\<close>. The controller's pointer to the CSR file is an optional
  CSR file (\<open>None\<close> is the null pointer); an operation that writes CSRs returns the new file.
\<close>

datatype trap_cause =
    InstAddrMisaligned | InstAccessFault | IllegalInst | Breakpoint
  | LoadAddrMisaligned | LoadAccessFault | StoreAddrMisaligned | StoreAccessFault
  | EnvCallU | EnvCallS | EnvCallM
  | InstPageFault | LoadPageFault | StorePageFault
  | SupervisorSoft | MachineSoft | SupervisorTimer | MachineTimer
  | SupervisorExternal | MachineExternal

fun cause_code :: "trap_cause \<Rightarrow> u16" where
  "cause_code InstAddrMisaligned = 0"
| "cause_code InstAccessFault = 1"
| "cause_code IllegalInst = 2"
| "cause_code Breakpoint = 3"
| "cause_code LoadAddrMisaligned = 4"
| "cause_code LoadAccessFault = 5"
| "cause_code StoreAddrMisaligned = 6"
| "cause_code StoreAccessFault = 7"
| "cause_code EnvCallU = 8"
| "cause_code EnvCallS = 9"
| "cause_code EnvCallM = 11"
| "cause_code InstPageFault = 12"
| "cause_code LoadPageFault = 13"
| "cause_code StorePageFault = 15"
| "cause_code SupervisorSoft = 0x8001"
| "cause_code MachineSoft = 0x8003"
| "cause_code SupervisorTimer = 0x8005"
| "cause_code MachineTimer = 0x8007"
| "cause_code SupervisorExternal = 0x8009"
| "cause_code MachineExternal = 0x800B"

record trap =
  trap_cause :: trap_cause
  tval :: u64
  trap_pc :: u64
  is_interrupt :: bool

record intc =
  mip :: u32
  external_id :: u32
  trap_count :: u64

definition intc_init :: intc where
  "intc_init = \<lparr>mip = 0, external_id = 0, trap_count = 0\<rparr>"

definition raise_timer :: "intc \<Rightarrow> intc" where
  "raise_timer i = i\<lparr>mip := mip i OR shl 1 7\<rparr>"
definition raise_external :: "u32 \<Rightarrow> intc \<Rightarrow> intc" where
  "raise_external n i = i\<lparr>mip := mip i OR shl 1 11, external_id := n\<rparr>"
definition raise_soft :: "intc \<Rightarrow> intc" where
  "raise_soft i = i\<lparr>mip := mip i OR shl 1 3\<rparr>"
definition clear_timer :: "intc \<Rightarrow> intc" where
  "clear_timer i = i\<lparr>mip := mip i AND NOT (shl 1 7)\<rparr>"
definition clear_external :: "intc \<Rightarrow> intc" where
  "clear_external i = i\<lparr>mip := mip i AND NOT (shl 1 11)\<rparr>"
definition clear_soft :: "intc \<Rightarrow> intc" where
  "clear_soft i = i\<lparr>mip := mip i AND NOT (shl 1 3)\<rparr>"

definition set_mip :: "u32 \<Rightarrow> intc \<Rightarrow> intc" where
  "set_mip v i = i\<lparr>mip := v\<rparr>"

definition intc_reset :: "intc \<Rightarrow> intc" where
  "intc_reset i = i\<lparr>mip := 0, external_id := 0, trap_count := 0\<rparr>"

definition interrupt_pending :: "csr_file option \<Rightarrow> intc \<Rightarrow> bool" where
  "interrupt_pending csr i = (case csr of
     None \<Rightarrow> mip i \<noteq> 0
   | Some c \<Rightarrow>
       let mie = csr_read c CSR_MIE; mstatus = csr_read c CSR_MSTATUS in
       if mstatus AND shl 1 3 = 0 then False
       else ucast (mip i) AND mie \<noteq> 0)"

definition interrupt_trap :: "trap_cause \<Rightarrow> trap" where
  "interrupt_trap c = \<lparr>trap_cause = c, tval = 0, trap_pc = 0, is_interrupt = True\<rparr>"

definition pending_interrupt :: "csr_file option \<Rightarrow> intc \<Rightarrow> trap option" where
  "pending_interrupt csr i =
     (if \<not> interrupt_pending csr i then None
      else
        let mie = (case csr of Some c \<Rightarrow> csr_read c CSR_MIE | None \<Rightarrow> 0xFFFFFFFF);
            pend = mip i AND ucast mie in
        if pend AND shl 1 11 \<noteq> 0 then Some (interrupt_trap MachineExternal)
        else if pend AND shl 1 7 \<noteq> 0 then Some (interrupt_trap MachineTimer)
        else if pend AND shl 1 3 \<noteq> 0 then Some (interrupt_trap MachineSoft)
        else if pend AND shl 1 9 \<noteq> 0 then Some (interrupt_trap SupervisorExternal)
        else if pend AND shl 1 5 \<noteq> 0 then Some (interrupt_trap SupervisorTimer)
        else None)"

text \<open>The new \<open>mstatus\<close> of \<open>take_trap\<close>: MPIE from MIE, MPP from the privilege, MIE cleared.\<close>

definition trap_mstatus :: "u64 \<Rightarrow> privilege \<Rightarrow> u64" where
  "trap_mstatus ms p =
     (let ms1 = ms AND NOT (shl 1 7 OR shl 1 3 OR shl 3 11);
          ms2 = (if ms AND shl 1 3 \<noteq> 0 then ms1 OR shl 1 7 else ms1)
      in ms2 OR shl (priv_code p) 11)"

definition take_trap_csr :: "trap \<Rightarrow> csr_file \<Rightarrow> csr_file" where
  "take_trap_csr t c =
     (let cause = ucast (cause_code (trap_cause t)) OR (if is_interrupt t then shl 1 63 else 0);
          c1 = csr_write CSR_MTVAL (tval t) (csr_write CSR_MCAUSE cause (csr_write CSR_MEPC (trap_pc t) c));
          c2 = csr_write CSR_MSTATUS (trap_mstatus (csr_read c1 CSR_MSTATUS) (priv c1)) c1
      in c2\<lparr>priv := Machine\<rparr>)"

definition take_trap :: "trap \<Rightarrow> csr_file option \<Rightarrow> intc \<Rightarrow> bool \<times> csr_file option \<times> intc" where
  "take_trap t csr i = (case csr of
     None \<Rightarrow> (False, None, i)
   | Some c \<Rightarrow> (True, Some (take_trap_csr t c), i\<lparr>trap_count := trap_count i + 1\<rparr>))"

definition ecall_trap :: "csr_file option \<Rightarrow> u64 \<Rightarrow> trap" where
  "ecall_trap csr pc = (case csr of
     None \<Rightarrow> \<lparr>trap_cause = EnvCallM, tval = 0, trap_pc = 0, is_interrupt = False\<rparr>
   | Some c \<Rightarrow> \<lparr>trap_cause = (if priv c = User then EnvCallU
        else if priv c = Supervisor then EnvCallS else EnvCallM),
        tval = 0, trap_pc = pc, is_interrupt = False\<rparr>)"

definition ebreak_trap :: "u64 \<Rightarrow> trap" where
  "ebreak_trap pc = \<lparr>trap_cause = Breakpoint, tval = 0, trap_pc = pc, is_interrupt = False\<rparr>"

definition page_fault_trap :: "u64 \<Rightarrow> u64 \<Rightarrow> bool \<Rightarrow> trap" where
  "page_fault_trap pc va is_store =
     \<lparr>trap_cause = (if is_store then StorePageFault else LoadPageFault),
      tval = va, trap_pc = pc, is_interrupt = False\<rparr>"

definition illegal_inst_trap :: "u64 \<Rightarrow> u32 \<Rightarrow> trap" where
  "illegal_inst_trap pc inst =
     \<lparr>trap_cause = IllegalInst, tval = ucast inst, trap_pc = pc, is_interrupt = False\<rparr>"

definition mret_mstatus :: "u64 \<Rightarrow> u64" where
  "mret_mstatus ms =
     (let ms1 = ms AND NOT (shl 1 3);
          ms2 = (if ms AND shl 1 7 \<noteq> 0 then ms1 OR shl 1 3 else ms1);
          ms3 = ms2 AND NOT (shl 1 7)
      in ms3 AND NOT (shl 3 11))"

definition mret :: "csr_file option \<Rightarrow> u64 \<times> csr_file option" where
  "mret csr = (case csr of
     None \<Rightarrow> (0, None)
   | Some c \<Rightarrow>
       let ms = csr_read c CSR_MSTATUS;
           mpp = drop_bit 11 ms AND 3;
           c1 = (csr_write CSR_MSTATUS (mret_mstatus ms) c)\<lparr>priv := priv_of (mpp AND 3)\<rparr>
       in (csr_read c1 CSR_MEPC, Some c1))"

definition sret_mstatus :: "u64 \<Rightarrow> u64" where
  "sret_mstatus ms =
     (let ms1 = ms AND NOT (shl 1 1);
          ms2 = (if ms AND shl 1 5 \<noteq> 0 then ms1 OR shl 1 1 else ms1);
          ms3 = ms2 AND NOT (shl 1 5)
      in ms3 AND NOT (shl 1 8))"

definition sret :: "csr_file option \<Rightarrow> u64 \<times> csr_file option" where
  "sret csr = (case csr of
     None \<Rightarrow> (0, None)
   | Some c \<Rightarrow>
       let ms = csr_read c CSR_MSTATUS;
           spp = drop_bit 8 ms AND 1;
           c1 = (csr_write CSR_MSTATUS (sret_mstatus ms) c)\<lparr>priv :=
             (if spp \<noteq> 0 then Supervisor else User)\<rparr>
       in (csr_read c1 CSR_SEPC, Some c1))"

section \<open>Bits of the status register\<close>

lemma bit_priv_code: "bit (priv_code p) n \<Longrightarrow> n < 2"
proof -
  assume "bit (priv_code p) n"
  moreover have "priv_code p = take_bit 2 (priv_code p)" by (cases p) simp_all
  ultimately show ?thesis by (metis bit_take_bit_iff)
qed

lemmas status_bits = bit_simps and_shl_one bit_three

lemma bit_trap_mstatus:
  "n < 64 \<Longrightarrow> bit (trap_mstatus ms p) n =
     (if n = 3 then False
      else if n = 7 then bit ms 3
      else if n = 11 \<or> n = 12 then bit (priv_code p) (n - 11)
      else bit ms n)"
  using bit_priv_code [of p "n - 11"]
  by (auto simp: trap_mstatus_def Let_def status_bits)

lemma bit_mret_mstatus:
  "n < 64 \<Longrightarrow> bit (mret_mstatus ms) n =
     (if n = 3 then bit ms 7
      else if n = 7 \<or> n = 11 \<or> n = 12 then False
      else bit ms n)"
  by (auto simp: mret_mstatus_def Let_def status_bits)

lemma mpp_trap_mstatus: "drop_bit 11 (trap_mstatus ms p) AND 3 = priv_code p"
proof (rule bit_word_eqI)
  fix n assume "n < LENGTH(64)"
  then show "bit (drop_bit 11 (trap_mstatus ms p) AND 3) n = bit (priv_code p) n"
    using bit_priv_code [of p n] bit_trap_mstatus [of "11 + n" ms p]
    by (cases "n < 2") (auto simp: status_bits)
qed

section \<open>Trap entry and return\<close>

lemma take_trap_csr_reads:
  "csr_read (take_trap_csr t c) CSR_MEPC = trap_pc t"
  "csr_read (take_trap_csr t c) CSR_MTVAL = tval t"
  "csr_read (take_trap_csr t c) CSR_MCAUSE =
     ucast (cause_code (trap_cause t)) OR (if is_interrupt t then shl 1 63 else 0)"
  "csr_read (take_trap_csr t c) CSR_MSTATUS = trap_mstatus (csr_read c CSR_MSTATUS) (priv c)"
  "csr_read (take_trap_csr t c) CSR_MTVEC = csr_read c CSR_MTVEC"
  "csr_read (take_trap_csr t c) CSR_SATP = csr_read c CSR_SATP"
  "csr_read (take_trap_csr t c) CSR_MIE = csr_read c CSR_MIE"
  "priv (take_trap_csr t c) = Machine"
  by (simp_all add: take_trap_csr_def Let_def csr_read_write csr_addrs)

lemma pending_needs_mie: "\<not> csr_mstatus_mie c \<Longrightarrow> pending_interrupt (Some c) i = None"
  by (simp add: pending_interrupt_def interrupt_pending_def csr_mstatus_mie_def Let_def)

lemma take_trap_masks: "\<not> csr_mstatus_mie (take_trap_csr t c)"
  by (simp add: csr_mstatus_mie_def take_trap_csr_reads and_shl_one bit_trap_mstatus)

lemma pending_interrupt_pc:
  "pending_interrupt csr i = Some t \<Longrightarrow> trap_pc t = 0 \<and> tval t = 0 \<and> is_interrupt t"
  by (auto simp: pending_interrupt_def interrupt_trap_def Let_def split: if_splits)

text \<open>
  C16. A trap followed by \<open>mret\<close> is transparent: \<open>mret\<close> returns the program counter the trap
  saved, restores the privilege level and the global interrupt enable, and changes no other
  bit of \<open>mstatus\<close> than the saved copies MPIE and MPP.
\<close>

theorem trap_mret_roundtrip:
  "case take_trap t (Some c) i of (taken, csr', i') \<Rightarrow>
     taken \<and> trap_count i' = trap_count i + 1 \<and>
     (case mret csr' of (pc, csr'') \<Rightarrow>
        pc = trap_pc t \<and>
        (\<exists>c''. csr'' = Some c'' \<and> priv c'' = priv c
           \<and> csr_mstatus_mie c'' = csr_mstatus_mie c
           \<and> {n. bit (csr_mstatus c'') n \<noteq> bit (csr_mstatus c) n} \<subseteq> {7, 11, 12}))"
proof -
  let ?ms = "csr_read c CSR_MSTATUS"
  have bits: "bit (mret_mstatus (trap_mstatus ?ms (priv c))) n = bit ?ms n"
    if "n \<notin> {7, 11, 12}" for n
  proof (cases "n < 64")
    case True
    with that show ?thesis by (simp add: bit_mret_mstatus bit_trap_mstatus)
  next
    case False
    then show ?thesis by (auto dest: bit_imp_le_length)
  qed
  then have "{n. bit (mret_mstatus (trap_mstatus ?ms (priv c))) n \<noteq> bit ?ms n} \<subseteq> {7, 11, 12}" by blast
  with bits show ?thesis
    by (simp add: take_trap_def mret_def Let_def take_trap_csr_reads csr_read_write csr_addrs
        mpp_trap_mstatus csr_mstatus_mie_def csr_mstatus_def and_shl_one
        take_trap_csr_reads [unfolded csr_addrs])
qed

end
