(* ===== verification/Interconnect.thy ===== *)
theory Interconnect
  imports Config
begin

text \<open>
  The synchronous fabrics of \<^verbatim>\<open>include/aiasm/interconnect.h\<close> and
  \<^verbatim>\<open>src/interconnect.cpp\<close>: a FIFO of in-flight transactions with backpressure. The
  burst computation divides by the burst size in 32-bit arithmetic; a configuration whose
  burst size is zero makes it undefined.
\<close>

datatype fabric_protocol = AXI4 | PCIe | CXI

record interconnect_config =
  protocol :: fabric_protocol
  data_width :: u32
  latency_cycles :: u32
  max_outstanding :: u32
  burst_len :: u32

record transaction =
  tx_id :: u32
  tx_addr :: u32
  tx_bytes :: u32
  tx_is_write :: bool
  issue_cycle :: u64
  complete_cycle :: u64
  tx_proto :: fabric_protocol

record interconnect =
  cfg :: interconnect_config
  in_flight :: "transaction list"
  cur_cycle :: u64
  completed :: u64
  stalled :: u64

definition fabric_new :: "interconnect_config \<Rightarrow> interconnect" where
  "fabric_new c = \<lparr>cfg = c, in_flight = [], cur_cycle = 0, completed = 0, stalled = 0\<rparr>"

definition fabric_configure :: "interconnect_config \<Rightarrow> interconnect \<Rightarrow> interconnect" where
  "fabric_configure c ic = ic\<lparr>cfg := c\<rparr>"

definition burst_bytes :: "interconnect_config \<Rightarrow> u32" where
  "burst_bytes c = data_width c * burst_len c"

definition bursts :: "interconnect_config \<Rightarrow> u32 \<Rightarrow> u32 res" where
  "bursts c bytes =
     (if burst_bytes c = 0 then Undef
      else Ok ((bytes + burst_bytes c - 1) div burst_bytes c))"

definition fabric_issue :: "transaction \<Rightarrow> u64 \<Rightarrow> interconnect \<Rightarrow> (bool \<times> interconnect) res" where
  "fabric_issue t cycle ic =
     (if of_nat (length (in_flight ic)) \<ge> (ucast (max_outstanding (cfg ic)) :: size_t)
      then Ok (False, ic\<lparr>stalled := stalled ic + 1\<rparr>)
      else bind_res (bursts (cfg ic) (tx_bytes t)) (\<lambda>b.
        let nt = t\<lparr>issue_cycle := cycle,
                   complete_cycle := cycle + ucast (latency_cycles (cfg ic)) + ucast b,
                   tx_proto := protocol (cfg ic)\<rparr>
        in Ok (True, ic\<lparr>in_flight := in_flight ic @ [nt], cur_cycle := cycle\<rparr>)))"

text \<open>The loop of \<open>tick\<close>: completed transactions leave from the front.\<close>

fun fabric_drain :: "u64 \<Rightarrow> transaction list \<Rightarrow> u64 \<Rightarrow> transaction list \<times> u64" where
  "fabric_drain now [] done = ([], done)"
| "fabric_drain now (t # ts) done =
     (if complete_cycle t \<le> now then fabric_drain now ts (done + 1) else (t # ts, done))"

definition fabric_tick :: "u64 \<Rightarrow> interconnect \<Rightarrow> interconnect" where
  "fabric_tick cycles ic =
     (let now = cur_cycle ic + cycles;
          (p, d) = fabric_drain now (in_flight ic) (completed ic)
      in ic\<lparr>cur_cycle := now, in_flight := p, completed := d\<rparr>)"

definition fabric_pending_bytes :: "interconnect \<Rightarrow> size_t" where
  "fabric_pending_bytes ic = sum_list (map (\<lambda>t. ucast (tx_bytes t)) (in_flight ic))"

definition fabric_reset :: "interconnect \<Rightarrow> interconnect" where
  "fabric_reset ic = ic\<lparr>in_flight := [], completed := 0, stalled := 0, cur_cycle := 0\<rparr>"

definition fabric_latency_for :: "interconnect \<Rightarrow> u32 \<Rightarrow> u32 res" where
  "fabric_latency_for ic bytes = map_res (\<lambda>b. latency_cycles (cfg ic) + b) (bursts (cfg ic) bytes)"

fun proto_name :: "interconnect \<Rightarrow> string" where
  "proto_name ic = (case protocol (cfg ic) of AXI4 \<Rightarrow> ''AXI4'' | PCIe \<Rightarrow> ''PCIe'' | CXI \<Rightarrow> ''CXI'')"

section \<open>Drain lemmas\<close>

lemma fabric_drain_split:
  "fabric_drain now ts done =
     (dropWhile (\<lambda>t. complete_cycle t \<le> now) ts,
      done + of_nat (length (takeWhile (\<lambda>t. complete_cycle t \<le> now) ts)))"
  by (induction ts arbitrary: "done") auto

lemma fabric_tick_eq:
  "fabric_tick cycles ic = ic\<lparr>
     cur_cycle := cur_cycle ic + cycles,
     in_flight := dropWhile (\<lambda>t. complete_cycle t \<le> cur_cycle ic + cycles) (in_flight ic),
     completed := completed ic + of_nat (length (takeWhile (\<lambda>t. complete_cycle t \<le> cur_cycle ic + cycles)
        (in_flight ic)))\<rparr>"
  by (simp add: fabric_tick_def Let_def fabric_drain_split)

section \<open>Conservation of transactions\<close>

text \<open>A history of calls on one fabric, and its run from a given state.\<close>

datatype fabric_op = Issue transaction u64 | Tick u64

fun fabric_step :: "fabric_op \<Rightarrow> interconnect \<Rightarrow> (bool option \<times> interconnect) res" where
  "fabric_step (Issue t c) ic = map_res (\<lambda>(ok, ic'). (Some ok, ic')) (fabric_issue t c ic)"
| "fabric_step (Tick n) ic = Ok (None, fabric_tick n ic)"

text \<open>Runs a history, counting the transactions accepted and rejected.\<close>

fun fabric_run :: "fabric_op list \<Rightarrow> nat \<Rightarrow> nat \<Rightarrow> interconnect \<Rightarrow> (nat \<times> nat \<times> interconnect) res" where
  "fabric_run [] acc rej ic = Ok (acc, rej, ic)"
| "fabric_run (x # xs) acc rej ic = bind_res (fabric_step x ic) (\<lambda>(ok, ic').
     fabric_run xs (if ok = Some True then Suc acc else acc)
       (if ok = Some False then Suc rej else rej) ic')"

text \<open>The queue never exceeds its limit, and the counters account for every transaction.\<close>

definition fabric_inv :: "nat \<Rightarrow> nat \<Rightarrow> interconnect \<Rightarrow> bool" where
  "fabric_inv acc rej ic \<longleftrightarrow>
     length (in_flight ic) \<le> unat (max_outstanding (cfg ic))
     \<and> of_nat acc = completed ic + of_nat (length (in_flight ic))
     \<and> of_nat rej = stalled ic"

lemma fabric_issue_cfg: "fabric_issue t c ic = Ok (ok, ic') \<Longrightarrow> cfg ic' = cfg ic"
  by (cases "bursts (cfg ic) (tx_bytes t)")
    (auto simp: fabric_issue_def Let_def split: if_splits)

lemma fabric_full_iff:
  assumes "length (in_flight ic) \<le> unat (max_outstanding (cfg ic))"
  shows "of_nat (length (in_flight ic)) \<ge> (ucast (max_outstanding (cfg ic)) :: size_t)
     \<longleftrightarrow> length (in_flight ic) = unat (max_outstanding (cfg ic))"
proof -
  have "length (in_flight ic) < 2 ^ 64"
    using assms unat_u32_less [of "max_outstanding (cfg ic)"] by (simp del: unat_u32_less)
  then have "unat (of_nat (length (in_flight ic)) :: size_t) = length (in_flight ic)"
    by (simp add: unat_of_nat take_bit_nat_eq_self)
  then show ?thesis using assms by (auto simp: word_le_nat_alt)
qed

lemma fabric_issue_inv:
  assumes "fabric_inv acc rej ic" and "fabric_issue t c ic = Ok (ok, ic')"
  shows "fabric_inv (if ok then Suc acc else acc) (if ok then rej else Suc rej) ic'"
proof (cases "length (in_flight ic) = unat (max_outstanding (cfg ic))")
  case True
  then have "of_nat (length (in_flight ic)) \<ge> (ucast (max_outstanding (cfg ic)) :: size_t)"
    using fabric_full_iff [of ic] assms(1) by (simp add: fabric_inv_def)
  with assms show ?thesis by (auto simp: fabric_issue_def fabric_inv_def)
next
  case False
  then have nf: "\<not> of_nat (length (in_flight ic)) \<ge> (ucast (max_outstanding (cfg ic)) :: size_t)"
    using fabric_full_iff [of ic] assms(1) by (simp add: fabric_inv_def)
  with False assms show ?thesis
    by (cases "bursts (cfg ic) (tx_bytes t)")
      (auto simp: fabric_issue_def fabric_inv_def Let_def)
qed

lemma fabric_tick_inv: "fabric_inv acc rej ic \<Longrightarrow> fabric_inv acc rej (fabric_tick n ic)"
proof -
  assume inv: "fabric_inv acc rej ic"
  let ?P = "\<lambda>t. complete_cycle t \<le> cur_cycle ic + n"
  have len: "length (takeWhile ?P (in_flight ic)) + length (dropWhile ?P (in_flight ic))
      = length (in_flight ic)"
    by (metis length_append takeWhile_dropWhile_id)
  then have sum: "of_nat (length (in_flight ic)) = (of_nat (length (takeWhile ?P (in_flight ic)))
      + of_nat (length (dropWhile ?P (in_flight ic))) :: u64)"
    by (simp only: of_nat_add [symmetric])
  from inv have "of_nat acc = completed ic + of_nat (length (in_flight ic))"
    by (simp add: fabric_inv_def)
  then have "of_nat acc = completed ic + of_nat (length (takeWhile ?P (in_flight ic)))
      + of_nat (length (dropWhile ?P (in_flight ic)))"
    by (simp only: sum add.assoc)
  with inv len show ?thesis by (simp add: fabric_inv_def fabric_tick_eq)
qed

lemma fabric_run_inv:
  "fabric_inv acc rej ic \<Longrightarrow> fabric_run xs acc rej ic = Ok (acc', rej', ic') \<Longrightarrow>
   fabric_inv acc' rej' ic'"
proof (induction xs arbitrary: acc rej ic)
  case Nil
  then show ?case by simp
next
  case (Cons x xs)
  show ?case
  proof (cases x)
    case (Tick n)
    with Cons show ?thesis by (auto intro: fabric_tick_inv)
  next
    case (Issue t c)
    with Cons.prems(2) obtain ok ic1 where i: "fabric_issue t c ic = Ok (ok, ic1)"
      by (cases "fabric_issue t c ic") auto
    from fabric_issue_inv [OF Cons.prems(1) i] Cons.prems(2) Issue i show ?thesis
      by (cases ok) (auto intro: Cons.IH)
  qed
qed

text \<open>
  C32. Conservation on a fabric: after any history of \<open>issue\<close> and \<open>tick\<close> calls on a fresh
  fabric, at most \<open>max_outstanding\<close> transactions are in flight, every accepted transaction is
  either completed or in flight, and every rejected one is counted as a stall (the counters
  are 64-bit and wrap). No history of calls is undefined when the burst size is not zero.
\<close>

theorem fabric_conservation:
  assumes "burst_bytes c \<noteq> 0"
  shows "\<exists>acc rej ic. fabric_run xs 0 0 (fabric_new c) = Ok (acc, rej, ic)
     \<and> length (in_flight ic) \<le> unat (max_outstanding c)
     \<and> of_nat acc = completed ic + of_nat (length (in_flight ic))
     \<and> of_nat rej = stalled ic"
proof -
  have step: "\<exists>r ic'. fabric_step x ic = Ok (r, ic') \<and> cfg ic' = c" if "cfg ic = c" for x ic
  proof (cases x)
    case (Issue t cy)
    with assms that show ?thesis
      by (auto simp: fabric_issue_def bursts_def Let_def)
  qed (use that in \<open>simp add: fabric_tick_eq\<close>)
  have "\<exists>acc' rej' ic'. fabric_run xs acc rej ic = Ok (acc', rej', ic') \<and> cfg ic' = c"
    if "cfg ic = c" for acc rej ic
    using that
  proof (induction xs arbitrary: acc rej ic)
    case (Cons x xs)
    from step [OF Cons.prems] obtain r ic1 where "fabric_step x ic = Ok (r, ic1)" "cfg ic1 = c"
      by blast
    with Cons.IH [of ic1] show ?case by auto
  qed simp
  then obtain acc rej ic where run: "fabric_run xs 0 0 (fabric_new c) = Ok (acc, rej, ic)"
    and c: "cfg ic = c"
    by (metis fabric_new_def interconnect.select_convs(1))
  have "fabric_inv 0 0 (fabric_new c)" by (simp add: fabric_inv_def fabric_new_def)
  from fabric_run_inv [OF this run] run c show ?thesis by (auto simp: fabric_inv_def)
qed

text \<open>
  A fabric with room for one transaction: the second is rejected, both bursts are accounted
  for after a tick.
\<close>

definition tiny_config :: interconnect_config where
  "tiny_config = \<lparr>protocol = AXI4, data_width = 64, latency_cycles = 2, max_outstanding = 1, burst_len = 16\<rparr>"

definition tiny_history :: "fabric_op list" where
  "tiny_history = (let t = \<lparr>tx_id = 0, tx_addr = 0, tx_bytes = 64, tx_is_write = False, issue_cycle = 0,
      complete_cycle = 0, tx_proto = AXI4\<rparr> in [Issue t 0, Issue t 0, Tick 1000])"

theorem fabric_conservation_witness:
  "\<exists>ic. fabric_run tiny_history 0 0 (fabric_new tiny_config) = Ok (1, 1, ic) \<and> in_flight ic = []
     \<and> 1 = completed ic + of_nat (length (in_flight ic)) \<and> 1 = stalled ic"
proof -
  have "burst_bytes tiny_config \<noteq> 0" by (simp add: burst_bytes_def tiny_config_def)
  from fabric_conservation [OF this, of tiny_history] obtain acc rej ic where
    r: "fabric_run tiny_history 0 0 (fabric_new tiny_config) = Ok (acc, rej, ic)"
    and c: "of_nat acc = completed ic + of_nat (length (in_flight ic))" "of_nat rej = stalled ic"
    by blast
  have "map_res (\<lambda>(a, b, ic). (a, b, length (in_flight ic))) (fabric_run tiny_history 0 0 (fabric_new tiny_config))
      = Ok (1, 1, 0)"
    by code_simp
  with r have "acc = 1" "rej = 1" "in_flight ic = []" by auto
  with r c show ?thesis by auto
qed

end
