(* ===== verification/Debugger.thy ===== *)
theory Debugger
  imports Prelude
begin

text \<open>
  The breakpoints and the single-step flag of \<^verbatim>\<open>include/aiasm/debugger.h\<close>. The dump
  helpers are in \<open>Console\<close>.
\<close>

record debugger =
  breakpoints :: "u32 set"
  single_step :: bool

definition debugger_init :: debugger where
  "debugger_init = \<lparr>breakpoints = {}, single_step = False\<rparr>"

definition dbg_add_breakpoint :: "u32 \<Rightarrow> debugger \<Rightarrow> debugger" where
  "dbg_add_breakpoint addr d = d\<lparr>breakpoints := insert addr (breakpoints d)\<rparr>"

definition dbg_remove_breakpoint :: "u32 \<Rightarrow> debugger \<Rightarrow> debugger" where
  "dbg_remove_breakpoint addr d = d\<lparr>breakpoints := breakpoints d - {addr}\<rparr>"

definition dbg_clear_breakpoints :: "debugger \<Rightarrow> debugger" where
  "dbg_clear_breakpoints d = d\<lparr>breakpoints := {}\<rparr>"

definition dbg_has_breakpoint :: "u32 \<Rightarrow> debugger \<Rightarrow> bool" where
  "dbg_has_breakpoint addr d \<longleftrightarrow> addr \<in> breakpoints d"

definition dbg_enable_single_step :: "debugger \<Rightarrow> debugger" where
  "dbg_enable_single_step d = d\<lparr>single_step := True\<rparr>"

definition dbg_disable_single_step :: "debugger \<Rightarrow> debugger" where
  "dbg_disable_single_step d = d\<lparr>single_step := False\<rparr>"

lemma dbg_breakpoint_laws [simp]:
  "dbg_has_breakpoint a (dbg_add_breakpoint b d) \<longleftrightarrow> a = b \<or> dbg_has_breakpoint a d"
  "dbg_has_breakpoint a (dbg_remove_breakpoint b d) \<longleftrightarrow> a \<noteq> b \<and> dbg_has_breakpoint a d"
  "\<not> dbg_has_breakpoint a (dbg_clear_breakpoints d)"
  by (auto simp: dbg_has_breakpoint_def dbg_add_breakpoint_def dbg_remove_breakpoint_def
      dbg_clear_breakpoints_def)

end
