(* ===== verification/Isa.thy ===== *)
theory Isa
  imports Config
begin

text \<open>
  The guest instruction set of \<^verbatim>\<open>include/aiasm/isa.h\<close>: opcodes, the fields of an
  instruction word, the \<open>enc\<close> constructors, the cycle weights and the bit-field views. The lemmas
  show that encoding and decoding are inverse to each other on every instruction format, and that
  the bit-field views do not agree with either.
\<close>

section \<open>Opcodes\<close>

text \<open>
  \<open>enum class Opcode : uint8_t\<close> can hold any byte: the named enumerators, and
  \<open>OtherOp\<close> for the values the enumeration does not name.
\<close>

datatype opcode =
    NOP | HALT | JMP | BEQ | BNE
  | ADD | SUB | MUL | LOAD | STORE | MOV | MOVI | LOAD_VR | STORE_VR
  | VEC_ADD | MATMUL_TILE | DMA_LOAD | DMA_STORE
  | OtherOp u8

fun opcode_code :: "opcode \<Rightarrow> u8" where
  "opcode_code NOP = 0x00"
| "opcode_code HALT = 0x01"
| "opcode_code JMP = 0x02"
| "opcode_code BEQ = 0x03"
| "opcode_code BNE = 0x04"
| "opcode_code ADD = 0x05"
| "opcode_code SUB = 0x06"
| "opcode_code MUL = 0x07"
| "opcode_code LOAD = 0x08"
| "opcode_code STORE = 0x09"
| "opcode_code MOV = 0x0A"
| "opcode_code MOVI = 0x0B"
| "opcode_code LOAD_VR = 0x0C"
| "opcode_code STORE_VR = 0x0D"
| "opcode_code VEC_ADD = 0x10"
| "opcode_code MATMUL_TILE = 0x11"
| "opcode_code DMA_LOAD = 0x12"
| "opcode_code DMA_STORE = 0x13"
| "opcode_code (OtherOp c) = c"

definition named_opcodes :: "opcode list" where
  "named_opcodes = [NOP, HALT, JMP, BEQ, BNE, ADD, SUB, MUL, LOAD, STORE, MOV, MOVI,
     LOAD_VR, STORE_VR, VEC_ADD, MATMUL_TILE, DMA_LOAD, DMA_STORE]"

definition opcode_of :: "u8 \<Rightarrow> opcode" where
  "opcode_of c = (case find (\<lambda>op. opcode_code op = c) named_opcodes of
     Some op \<Rightarrow> op | None \<Rightarrow> OtherOp c)"

text \<open>An enumeration value as the cast from a byte produces it.\<close>

definition canonical_op :: "opcode \<Rightarrow> bool" where
  "canonical_op op \<longleftrightarrow> opcode_of (opcode_code op) = op"

definition opcode_bit :: "opcode \<Rightarrow> u32" where
  "opcode_bit op = push_bit (unat (opcode_code op)) 1"

section \<open>Instruction words\<close>

record instruction =
  raw :: u32

definition instr_opcode :: "instruction \<Rightarrow> opcode" where
  "instr_opcode i = opcode_of (ucast (drop_bit OPCODE_SHIFT (raw i) AND OPCODE_MASK))"

definition instr_rd :: "instruction \<Rightarrow> u8" where
  "instr_rd i = ucast (drop_bit RD_SHIFT (raw i) AND RD_MASK)"

definition instr_ra :: "instruction \<Rightarrow> u8" where
  "instr_ra i = ucast (drop_bit RA_SHIFT (raw i) AND RA_MASK)"

definition instr_rb :: "instruction \<Rightarrow> u8" where
  "instr_rb i = ucast (drop_bit RB_SHIFT (raw i) AND RB_MASK)"

definition instr_func :: "instruction \<Rightarrow> u16" where
  "instr_func i = ucast (raw i AND FUNC_MASK)"

definition instr_imm16 :: "instruction \<Rightarrow> u16" where
  "instr_imm16 i = ucast (raw i AND IMM_MASK)"

text \<open>\<open>int32_t simm16()\<close> and \<open>int32_t offset()\<close>, as two's complement words.\<close>

definition instr_simm16 :: "instruction \<Rightarrow> u32" where
  "instr_simm16 i = scast (ucast (raw i AND IMM_MASK) :: u16)"

definition instr_target :: "instruction \<Rightarrow> u32" where
  "instr_target i = raw i AND TARGET_MASK"

definition instr_offset :: "instruction \<Rightarrow> u32" where
  "instr_offset i = scast (ucast (raw i AND IMM_MASK) :: u16)"

section \<open>The encoders\<close>

definition enc_rtype :: "opcode \<Rightarrow> u8 \<Rightarrow> u8 \<Rightarrow> u8 \<Rightarrow> u16 \<Rightarrow> u32" where
  "enc_rtype op rd ra rb fn =
     push_bit OPCODE_SHIFT (ucast (opcode_code op))
     OR push_bit RD_SHIFT (ucast rd AND RD_MASK)
     OR push_bit RA_SHIFT (ucast ra AND RA_MASK)
     OR push_bit RB_SHIFT (ucast rb AND RB_MASK)
     OR (ucast fn AND FUNC_MASK)"

definition enc_itype :: "opcode \<Rightarrow> u8 \<Rightarrow> u8 \<Rightarrow> u16 \<Rightarrow> u32" where
  "enc_itype op rd ra imm =
     push_bit OPCODE_SHIFT (ucast (opcode_code op))
     OR push_bit RD_SHIFT (ucast rd AND RD_MASK)
     OR push_bit RA_SHIFT (ucast ra AND RA_MASK)
     OR (ucast imm AND IMM_MASK)"

definition enc_jtype :: "opcode \<Rightarrow> u32 \<Rightarrow> u32" where
  "enc_jtype op addr = push_bit OPCODE_SHIFT (ucast (opcode_code op)) OR (addr AND TARGET_MASK)"

text \<open>The offset is an \<open>int16_t\<close>: the cast to \<open>uint32_t\<close> sign-extends before the mask.\<close>

definition enc_btype :: "opcode \<Rightarrow> u8 \<Rightarrow> u8 \<Rightarrow> u16 \<Rightarrow> u32" where
  "enc_btype op rs rt off =
     push_bit OPCODE_SHIFT (ucast (opcode_code op))
     OR push_bit RD_SHIFT (ucast rs AND RA_MASK)
     OR push_bit RA_SHIFT (ucast rt AND RA_MASK)
     OR (scast off AND IMM_MASK)"

definition enc_make :: "opcode \<Rightarrow> u32" where
  "enc_make op = push_bit OPCODE_SHIFT (ucast (opcode_code op))"

definition enc_nop :: u32 where "enc_nop = enc_make NOP"
definition enc_halt :: u32 where "enc_halt = enc_make HALT"
definition enc_jmp :: "u32 \<Rightarrow> u32" where "enc_jmp addr = enc_jtype JMP addr"
definition enc_beq :: "u8 \<Rightarrow> u8 \<Rightarrow> u16 \<Rightarrow> u32" where "enc_beq ra rb off = enc_btype BEQ ra rb off"
definition enc_bne :: "u8 \<Rightarrow> u8 \<Rightarrow> u16 \<Rightarrow> u32" where "enc_bne ra rb off = enc_btype BNE ra rb off"
definition enc_add :: "u8 \<Rightarrow> u8 \<Rightarrow> u8 \<Rightarrow> u32" where "enc_add rd ra rb = enc_rtype ADD rd ra rb 0"
definition enc_sub :: "u8 \<Rightarrow> u8 \<Rightarrow> u8 \<Rightarrow> u32" where "enc_sub rd ra rb = enc_rtype SUB rd ra rb 0"
definition enc_mul :: "u8 \<Rightarrow> u8 \<Rightarrow> u8 \<Rightarrow> u32" where "enc_mul rd ra rb = enc_rtype MUL rd ra rb 0"
definition enc_mov :: "u8 \<Rightarrow> u8 \<Rightarrow> u32" where "enc_mov rd ra = enc_rtype MOV rd ra 0 0"
definition enc_movi :: "u8 \<Rightarrow> u16 \<Rightarrow> u32" where "enc_movi rd imm = enc_itype MOVI rd 0 imm"
definition enc_load :: "u8 \<Rightarrow> u8 \<Rightarrow> u16 \<Rightarrow> u32" where "enc_load rd ra imm = enc_itype LOAD rd ra imm"
definition enc_store :: "u8 \<Rightarrow> u8 \<Rightarrow> u16 \<Rightarrow> u32" where "enc_store rs ra imm = enc_itype STORE rs ra imm"
definition enc_load_vr :: "u8 \<Rightarrow> u8 \<Rightarrow> u16 \<Rightarrow> u32" where
  "enc_load_vr vr ra imm = enc_itype LOAD_VR vr ra imm"
definition enc_store_vr :: "u8 \<Rightarrow> u8 \<Rightarrow> u16 \<Rightarrow> u32" where
  "enc_store_vr vr ra imm = enc_itype STORE_VR vr ra imm"
definition enc_vec_add :: "u8 \<Rightarrow> u8 \<Rightarrow> u8 \<Rightarrow> u32" where
  "enc_vec_add vd va vb = enc_rtype VEC_ADD vd va vb 0"
definition enc_matmul_tile :: "u8 \<Rightarrow> u8 \<Rightarrow> u8 \<Rightarrow> u8 \<Rightarrow> u32" where
  "enc_matmul_tile vd va vb n = enc_rtype MATMUL_TILE vd va vb (ucast n)"
definition enc_dma_load :: "u8 \<Rightarrow> u8 \<Rightarrow> u16 \<Rightarrow> u32" where
  "enc_dma_load rd ra bytes = enc_rtype DMA_LOAD rd ra 0 bytes"
definition enc_dma_store :: "u8 \<Rightarrow> u8 \<Rightarrow> u16 \<Rightarrow> u32" where
  "enc_dma_store rd ra bytes = enc_rtype DMA_STORE rd ra 0 bytes"

section \<open>Cycle weights\<close>

fun cycle_weight :: "opcode \<Rightarrow> u16 \<Rightarrow> u32" where
  "cycle_weight NOP _ = 1"
| "cycle_weight HALT _ = 0"
| "cycle_weight JMP _ = 2"
| "cycle_weight BEQ _ = 2"
| "cycle_weight BNE _ = 2"
| "cycle_weight ADD _ = 1"
| "cycle_weight SUB _ = 1"
| "cycle_weight MUL _ = 3"
| "cycle_weight LOAD _ = 3"
| "cycle_weight STORE _ = 3"
| "cycle_weight MOV _ = 1"
| "cycle_weight MOVI _ = 1"
| "cycle_weight LOAD_VR _ = 5"
| "cycle_weight STORE_VR _ = 5"
| "cycle_weight VEC_ADD _ = 4"
| "cycle_weight MATMUL_TILE _ = 16"
| "cycle_weight DMA_LOAD fn =
     ucast (((ucast fn :: size_t) + DMA_LINE_SIZE - 1) div DMA_LINE_SIZE) + 2"
| "cycle_weight DMA_STORE fn =
     ucast (((ucast fn :: size_t) + DMA_LINE_SIZE - 1) div DMA_LINE_SIZE) + 2"
| "cycle_weight (OtherOp _) _ = 1"

named_theorems instr_defs \<open>the field accessors of an instruction word\<close>
named_theorems enc_defs \<open>the encoders\<close>

lemmas [instr_defs] = instr_opcode_def instr_rd_def instr_ra_def instr_rb_def instr_func_def
  instr_imm16_def instr_simm16_def instr_target_def instr_offset_def

lemmas [enc_defs] = enc_make_def enc_nop_def enc_halt_def enc_jmp_def enc_beq_def enc_bne_def
  enc_add_def enc_sub_def enc_mul_def enc_mov_def enc_movi_def enc_load_def enc_store_def
  enc_load_vr_def enc_store_vr_def enc_vec_add_def enc_matmul_tile_def enc_dma_load_def
  enc_dma_store_def enc_rtype_def enc_itype_def enc_jtype_def enc_btype_def

section \<open>Opcode lemmas\<close>

lemma opcode_code_of [simp]: "opcode_code (opcode_of c) = c"
  by (auto simp: opcode_of_def find_Some_iff split: option.split)

lemma named_canonical: "op \<in> set named_opcodes \<Longrightarrow> canonical_op op"
  by (cases op) (simp_all add: named_opcodes_def canonical_op_def opcode_of_def)

lemma canonical_opcode_of [simp]: "canonical_op (opcode_of c)"
  by (simp add: canonical_op_def)

lemma canonical_opcodeD: "canonical_op op \<Longrightarrow> opcode_of (opcode_code op) = op"
  by (simp add: canonical_op_def)

lemma named_opcode_code_less: "op \<in> set named_opcodes \<Longrightarrow> opcode_code op < 64"
  by (cases op) (simp_all add: named_opcodes_def)

lemma small_bits:
  fixes c :: u8
  assumes "c < 64" and "bit c n"
  shows "n < 6"
proof -
  from assms(1) have "unat c < 2 ^ 6" by (simp add: word_less_nat_alt)
  then have "take_bit 6 (unat c) = unat c" by (simp add: take_bit_nat_eq_self)
  then have "take_bit 6 c = c" by (metis unsigned_take_bit_eq word_unat_eq_iff)
  with assms(2) show ?thesis by (metis bit_take_bit_iff)
qed

lemma opcode_field:
  fixes w :: u32
  assumes "opcode_code op < 64" and "canonical_op op"
    and "\<And>n. 26 \<le> n \<Longrightarrow> n < 32 \<Longrightarrow> bit w n = bit (opcode_code op) (n - 26)"
  shows "instr_opcode \<lparr>raw = w\<rparr> = op"
proof -
  have "ucast (drop_bit 26 w AND mask 6) = opcode_code op"
  proof (rule bit_word_eqI)
    fix n assume "n < LENGTH(8)"
    show "bit (ucast (drop_bit 26 w AND mask 6) :: u8) n = bit (opcode_code op) n"
      using assms(3) [of "26 + n"] small_bits [OF assms(1), of n] \<open>n < LENGTH(8)\<close>
      by (auto simp: bit_simps)
  qed
  with assms(2) show ?thesis
    by (simp add: instr_opcode_def field_defs mask_simps canonical_opcodeD)
qed

section \<open>Encoding and decoding\<close>

lemmas enc_bits = bit_simps mask_simps field_defs

lemma rtype_fields:
  assumes "canonical_op op" and "opcode_code op < 64"
  shows "instr_opcode \<lparr>raw = enc_rtype op rd ra rb fn\<rparr> = op"
    and "instr_rd \<lparr>raw = enc_rtype op rd ra rb fn\<rparr> = rd AND 0x1F"
    and "instr_ra \<lparr>raw = enc_rtype op rd ra rb fn\<rparr> = ra AND 0x1F"
    and "instr_rb \<lparr>raw = enc_rtype op rd ra rb fn\<rparr> = rb AND 0x1F"
    and "instr_func \<lparr>raw = enc_rtype op rd ra rb fn\<rparr> = fn AND 0x7FF"
proof -
  show "instr_opcode \<lparr>raw = enc_rtype op rd ra rb fn\<rparr> = op"
    by (rule opcode_field [OF assms(2,1)]) (auto simp: enc_rtype_def enc_bits)
  show "instr_rd \<lparr>raw = enc_rtype op rd ra rb fn\<rparr> = rd AND 0x1F"
    by (rule bit_word_eqI) (auto simp: instr_rd_def enc_rtype_def enc_bits)
  show "instr_ra \<lparr>raw = enc_rtype op rd ra rb fn\<rparr> = ra AND 0x1F"
    by (rule bit_word_eqI) (auto simp: instr_ra_def enc_rtype_def enc_bits)
  show "instr_rb \<lparr>raw = enc_rtype op rd ra rb fn\<rparr> = rb AND 0x1F"
    by (rule bit_word_eqI) (auto simp: instr_rb_def enc_rtype_def enc_bits)
  show "instr_func \<lparr>raw = enc_rtype op rd ra rb fn\<rparr> = fn AND 0x7FF"
    by (rule bit_word_eqI) (auto simp: instr_func_def enc_rtype_def enc_bits)
qed

lemma itype_fields:
  assumes "canonical_op op" and "opcode_code op < 64"
  shows "instr_opcode \<lparr>raw = enc_itype op rd ra imm\<rparr> = op"
    and "instr_rd \<lparr>raw = enc_itype op rd ra imm\<rparr> = rd AND 0x1F"
    and "instr_ra \<lparr>raw = enc_itype op rd ra imm\<rparr> = ra AND 0x1F"
    and "instr_imm16 \<lparr>raw = enc_itype op rd ra imm\<rparr> = imm"
    and "instr_simm16 \<lparr>raw = enc_itype op rd ra imm\<rparr> = scast imm"
proof -
  have imm: "ucast (enc_itype op rd ra imm AND 0xFFFF) = imm"
    by (rule bit_word_eqI) (auto simp: enc_itype_def enc_bits)
  show "instr_opcode \<lparr>raw = enc_itype op rd ra imm\<rparr> = op"
    by (rule opcode_field [OF assms(2,1)]) (auto simp: enc_itype_def enc_bits dest: bit_imp_le_length)
  show "instr_rd \<lparr>raw = enc_itype op rd ra imm\<rparr> = rd AND 0x1F"
    by (rule bit_word_eqI) (auto simp: instr_rd_def enc_itype_def enc_bits dest: bit_imp_le_length)
  show "instr_ra \<lparr>raw = enc_itype op rd ra imm\<rparr> = ra AND 0x1F"
    by (rule bit_word_eqI) (auto simp: instr_ra_def enc_itype_def enc_bits dest: bit_imp_le_length)
  show "instr_imm16 \<lparr>raw = enc_itype op rd ra imm\<rparr> = imm"
    and "instr_simm16 \<lparr>raw = enc_itype op rd ra imm\<rparr> = scast imm"
    using imm by (simp_all add: instr_imm16_def instr_simm16_def IMM_MASK_def)
qed

lemma jtype_fields:
  assumes "canonical_op op" and "opcode_code op < 64"
  shows "instr_opcode \<lparr>raw = enc_jtype op addr\<rparr> = op"
    and "instr_target \<lparr>raw = enc_jtype op addr\<rparr> = addr AND 0x3FFFFFF"
proof -
  show "instr_opcode \<lparr>raw = enc_jtype op addr\<rparr> = op"
    by (rule opcode_field [OF assms(2,1)]) (auto simp: enc_jtype_def enc_bits)
  show "instr_target \<lparr>raw = enc_jtype op addr\<rparr> = addr AND 0x3FFFFFF"
    by (rule bit_word_eqI) (auto simp: instr_target_def enc_jtype_def enc_bits)
qed

lemma btype_fields:
  assumes "canonical_op op" and "opcode_code op < 64"
  shows "instr_opcode \<lparr>raw = enc_btype op rs rt off\<rparr> = op"
    and "instr_rd \<lparr>raw = enc_btype op rs rt off\<rparr> = rs AND 0x1F"
    and "instr_ra \<lparr>raw = enc_btype op rs rt off\<rparr> = rt AND 0x1F"
    and "instr_offset \<lparr>raw = enc_btype op rs rt off\<rparr> = scast off"
proof -
  have off: "ucast (enc_btype op rs rt off AND 0xFFFF) = off"
  proof (rule bit_word_eqI)
    fix n assume "n < LENGTH(16)"
    then show "bit (ucast (enc_btype op rs rt off AND 0xFFFF) :: u16) n = bit off n"
      by (cases "n = 15") (auto simp: enc_btype_def enc_bits min_def)
  qed
  show "instr_opcode \<lparr>raw = enc_btype op rs rt off\<rparr> = op"
    by (rule opcode_field [OF assms(2,1)]) (auto simp: enc_btype_def enc_bits)
  show "instr_rd \<lparr>raw = enc_btype op rs rt off\<rparr> = rs AND 0x1F"
    by (rule bit_word_eqI) (auto simp: instr_rd_def enc_btype_def enc_bits)
  show "instr_ra \<lparr>raw = enc_btype op rs rt off\<rparr> = rt AND 0x1F"
    by (rule bit_word_eqI) (auto simp: instr_ra_def enc_btype_def enc_bits)
  show "instr_offset \<lparr>raw = enc_btype op rs rt off\<rparr> = scast off"
    using off by (simp add: instr_offset_def IMM_MASK_def)
qed

lemma instr_opcode_less: "opcode_code (instr_opcode i) < 64"
proof -
  have "unat (drop_bit 26 (raw i) AND mask 6) < 2 ^ 6" by (rule unat_and_mask_less)
  then have "unat (ucast (drop_bit 26 (raw i) AND mask 6) :: u8) < 64"
    by (simp add: unsigned_ucast_eq take_bit_nat_eq_self)
  then show ?thesis
    by (simp add: instr_opcode_def field_defs mask_simps word_less_nat_alt)
qed

lemma rtype_reencode:
  "enc_rtype (instr_opcode i) (instr_rd i) (instr_ra i) (instr_rb i) (instr_func i) = raw i"
proof (rule bit_word_eqI)
  fix n assume "n < LENGTH(32)"
  then consider "n < 11" | "11 \<le> n \<and> n < 16" | "16 \<le> n \<and> n < 21" | "21 \<le> n \<and> n < 26"
    | "26 \<le> n \<and> n < 32" by fastforce
  then show "bit (enc_rtype (instr_opcode i) (instr_rd i) (instr_ra i) (instr_rb i)
      (instr_func i)) n = bit (raw i) n"
    by cases (auto simp: enc_rtype_def instr_defs enc_bits)
qed

section \<open>The bit-field views\<close>

text \<open>
  \<open>union Format\<close> overlays four structures of bit-fields on the word. Which bits a field gets is
  up to the implementation; on the little-endian hosts that the sources support (x86-64 and
  AArch64) fields are allocated from the least significant bit up.
\<close>

record rtype_view =
  rv_opcode :: u32
  rv_rd :: u32
  rv_ra :: u32
  rv_rb :: u32
  rv_func :: u32

record itype_view =
  iv_opcode :: u32
  iv_rd :: u32
  iv_ra :: u32
  iv_imm :: u32

record jtype_view =
  jv_opcode :: u32
  jv_target :: u32

record btype_view =
  bv_opcode :: u32
  bv_rs :: u32
  bv_rt :: u32
  bv_offset :: u32

definition bit_field :: "nat \<Rightarrow> nat \<Rightarrow> u32 \<Rightarrow> u32" where
  "bit_field lo width w = take_bit width (drop_bit lo w)"

definition format_rtype :: "instruction \<Rightarrow> rtype_view" where
  "format_rtype i = \<lparr>rv_opcode = bit_field 0 6 (raw i), rv_rd = bit_field 6 5 (raw i), rv_ra = bit_field 11 5 (raw i),
     rv_rb = bit_field 16 5 (raw i), rv_func = bit_field 21 11 (raw i)\<rparr>"

definition format_itype :: "instruction \<Rightarrow> itype_view" where
  "format_itype i = \<lparr>iv_opcode = bit_field 0 6 (raw i), iv_rd = bit_field 6 5 (raw i), iv_ra = bit_field 11 5 (raw i),
     iv_imm = bit_field 16 16 (raw i)\<rparr>"

definition format_jtype :: "instruction \<Rightarrow> jtype_view" where
  "format_jtype i = \<lparr>jv_opcode = bit_field 0 6 (raw i), jv_target = bit_field 6 26 (raw i)\<rparr>"

definition format_btype :: "instruction \<Rightarrow> btype_view" where
  "format_btype i = \<lparr>bv_opcode = bit_field 0 6 (raw i), bv_rs = bit_field 6 5 (raw i), bv_rt = bit_field 11 5 (raw i),
     bv_offset = bit_field 16 16 (raw i)\<rparr>"

text \<open>
  The views do not show the fields of the encoding, which puts the opcode into the most significant
  bits: what the R-type view calls the opcode is the low end of the function field, and what it calls
  the function is the opcode and the destination. Every instruction with function code zero looks
  like a \<open>NOP\<close>.
\<close>

theorem format_misplaced:
  "rv_opcode (format_rtype i) = ucast (instr_func i) AND 0x3F
   \<and> rv_func (format_rtype i) = push_bit 5 (ucast (opcode_code (instr_opcode i))) OR ucast (instr_rd i)"
proof
  have m: "(0x3F :: u32) = mask 6" "FUNC_MASK = mask 11" "OPCODE_MASK = mask 6" "RD_MASK = mask 5" by code_simp+
  show "rv_opcode (format_rtype i) = ucast (instr_func i) AND 0x3F"
    unfolding m by (rule bit_word_eqI) (auto simp: format_rtype_def bit_field_def instr_func_def m bit_simps)
  have "opcode_code (instr_opcode i) = ucast (drop_bit OPCODE_SHIFT (raw i) AND OPCODE_MASK)"
    by (simp add: instr_opcode_def)
  then show "rv_func (format_rtype i) = push_bit 5 (ucast (opcode_code (instr_opcode i))) OR ucast (instr_rd i)"
    by (intro bit_word_eqI) (auto simp: format_rtype_def bit_field_def instr_rd_def m bit_simps OPCODE_SHIFT_def RD_SHIFT_def)
qed

end
