(* ===== verification/Registers.thy ===== *)
theory Registers
  imports Config
begin

text \<open>
  The register file of \<^verbatim>\<open>include/aiasm/registers.h\<close>: sixteen general-purpose
  registers of which \<open>r0\<close> is hardwired to zero, eight vector registers of sixteen
  floats, the program counter, the halt flag and the status flags.

  A \<open>float\<close> is its 32-bit pattern. The register indices are bytes and the sources do
  not check them: an index outside the array is undefined behaviour.
\<close>

type_synonym f32 = u32

record status_flags =
  sf_zero :: bool
  sf_negative :: bool
  sf_overflow :: bool

record register_file =
  gpr :: "u32 list"
  vr :: "f32 list list"
  pc :: u32
  halt :: bool
  status :: status_flags

definition status_init :: status_flags where
  "status_init = \<lparr>sf_zero = False, sf_negative = False, sf_overflow = False\<rparr>"

definition regs_init :: register_file where
  "regs_init = \<lparr>gpr = replicate NUM_GPR 0, vr = replicate NUM_VR (replicate VEC_WIDTH 0),
     pc = 0, halt = False, status = status_init\<rparr>"

definition read_gpr :: "register_file \<Rightarrow> u8 \<Rightarrow> u32 res" where
  "read_gpr r idx = (if idx = 0 then Ok 0 else arr_get (gpr r) (unat idx))"

definition write_gpr :: "register_file \<Rightarrow> u8 \<Rightarrow> u32 \<Rightarrow> register_file res" where
  "write_gpr r idx v =
     bind_res (if idx \<noteq> 0 then arr_set (gpr r) (unat idx) v else Ok (gpr r))
       (\<lambda>g. Ok (r\<lparr>gpr := g[0 := 0]\<rparr>))"

definition read_vr :: "register_file \<Rightarrow> u8 \<Rightarrow> f32 list res" where
  "read_vr r idx = arr_get (vr r) (unat idx)"

definition write_vr :: "register_file \<Rightarrow> u8 \<Rightarrow> f32 list \<Rightarrow> register_file res" where
  "write_vr r idx v = map_res (\<lambda>x. r\<lparr>vr := x\<rparr>) (arr_set (vr r) (unat idx) v)"

definition update_flags_u32 :: "register_file \<Rightarrow> u32 \<Rightarrow> register_file" where
  "update_flags_u32 r result =
     r\<lparr>status := \<lparr>sf_zero = (result = 0), sf_negative = (drop_bit 31 result AND 1 = 1),
                  sf_overflow = False\<rparr>\<rparr>"

definition update_flags_s32 :: "register_file \<Rightarrow> u32 \<Rightarrow> register_file" where
  "update_flags_s32 r result =
     r\<lparr>status := \<lparr>sf_zero = (result = 0), sf_negative = (sint result < 0),
                  sf_overflow = False\<rparr>\<rparr>"

definition regs_reset :: "register_file \<Rightarrow> register_file" where
  "regs_reset r = r\<lparr>gpr := replicate (length (gpr r)) 0,
     vr := replicate (length (vr r)) (replicate VEC_WIDTH 0),
     pc := 0, halt := False, status := status_init\<rparr>"

text \<open>
  The shape the C++ arrays fix at compile time, and the hardwired zero register.
\<close>

definition wf_regs :: "register_file \<Rightarrow> bool" where
  "wf_regs r \<longleftrightarrow> length (gpr r) = NUM_GPR \<and> length (vr r) = NUM_VR
     \<and> list_all (\<lambda>v. length v = VEC_WIDTH) (vr r) \<and> gpr r ! 0 = 0"

lemma wf_regs_init [simp]: "wf_regs regs_init"
  by (simp add: wf_regs_def regs_init_def list_all_length)

lemma wf_regs_reset [simp]: "wf_regs r \<Longrightarrow> wf_regs (regs_reset r)"
  by (simp add: wf_regs_def regs_reset_def list_all_length)

lemma regs_reset_eq: "wf_regs r \<Longrightarrow> regs_reset r = regs_init"
  by (simp add: wf_regs_def regs_reset_def regs_init_def)

lemma read_gpr_Ok: "wf_regs r \<Longrightarrow> idx < 16 \<Longrightarrow> read_gpr r idx = Ok (gpr r ! unat idx)"
  by (auto simp: read_gpr_def arr_get_def wf_regs_def word_less_nat_alt)

lemma read_gpr_Undef_iff: "wf_regs r \<Longrightarrow> read_gpr r idx = Undef \<longleftrightarrow> 16 \<le> idx"
  by (auto simp: read_gpr_def arr_get_def wf_regs_def word_less_nat_alt word_le_nat_alt)

lemma read_gpr_not_Err [simp]: "read_gpr r idx \<noteq> Err e"
  by (simp add: read_gpr_def arr_get_def)

lemma write_gpr_Ok:
  "wf_regs r \<Longrightarrow> idx < 16 \<Longrightarrow>
   write_gpr r idx v = Ok (r\<lparr>gpr := (gpr r)[unat idx := (if idx = 0 then 0 else v)]\<rparr>)"
  by (auto simp: write_gpr_def arr_set_def wf_regs_def word_less_nat_alt list_eq_iff_nth_eq
      nth_list_update unat_eq_zero)

lemma write_gpr_Undef_iff: "wf_regs r \<Longrightarrow> write_gpr r idx v = Undef \<longleftrightarrow> 16 \<le> idx"
  by (auto simp: write_gpr_def arr_set_def wf_regs_def word_le_nat_alt)

lemma write_gpr_not_Err [simp]: "write_gpr r idx v \<noteq> Err e"
  by (simp add: write_gpr_def arr_set_def)

lemma wf_write_gpr:
  assumes "wf_regs r" and "write_gpr r idx v = Ok r'"
  shows "wf_regs r'"
  using assms by (auto simp: write_gpr_def arr_set_def wf_regs_def split: if_splits)

lemma write_gpr_frame:
  assumes "write_gpr r idx v = Ok r'"
  shows "vr r' = vr r" "pc r' = pc r" "halt r' = halt r" "status r' = status r"
  using assms by (auto simp: write_gpr_def arr_set_def split: if_splits)

lemma wf_write_vr:
  assumes "wf_regs r" and "length v = VEC_WIDTH" and "write_vr r idx v = Ok r'"
  shows "wf_regs r'"
  using assms
  by (auto simp: write_vr_def arr_set_def wf_regs_def list_all_length nth_list_update
      split: if_splits)

lemma read_vr_length: "wf_regs r \<Longrightarrow> read_vr r idx = Ok v \<Longrightarrow> length v = VEC_WIDTH"
  by (auto simp: read_vr_def arr_get_def wf_regs_def list_all_length split: if_splits)

lemma wf_regs_frame [simp]:
  "wf_regs (r\<lparr>pc := x\<rparr>) = wf_regs r" "wf_regs (r\<lparr>halt := b\<rparr>) = wf_regs r"
  "wf_regs (r\<lparr>status := f\<rparr>) = wf_regs r" "wf_regs (update_flags_u32 r w) = wf_regs r"
  by (simp_all add: wf_regs_def update_flags_u32_def)

text \<open>The sign bit that \<open>update_flags_u32\<close> extracts is the sign \<open>update_flags_s32\<close> tests.\<close>

lemma sign_bit_eq: "drop_bit 31 (w :: u32) AND 1 = 1 \<longleftrightarrow> sint w < 0"
proof -
  have "drop_bit 31 w AND 1 = 1 \<longleftrightarrow> bit w 31"
    by (simp add: and_one_eq odd_iff_mod_2_eq_one [symmetric] bit_iff_odd_drop_bit)
  also have "\<dots> \<longleftrightarrow> sint w < 0"
    using bit_last_iff [of w] by simp
  finally show ?thesis .
qed

end
