(* ===== verification/Host.thy ===== *)
theory Host
  imports Registers
begin

text \<open>
  The host kernels of \<^verbatim>\<open>include/aiasm/host.h\<close>: vector addition in its AVX2, AVX-512,
  NEON and scalar builds, the tile product, and the DMA copy. They work on the vector
  registers in place, so that the destination may be one of the sources.

  Floating-point addition and multiplication are those of the host processor. They are an
  argument \<open>fp\<close> of the model, functions on 32-bit patterns about which nothing is assumed;
  a SIMD instruction applies the same addition to each lane. The constant \<open>0.0f\<close> is the
  zero pattern. Contraction of a multiplication and an addition into one fused operation,
  which a compiler may be told to do, is not modelled.
\<close>

record fpu =
  fadd :: "f32 \<Rightarrow> f32 \<Rightarrow> f32"
  fmul :: "f32 \<Rightarrow> f32 \<Rightarrow> f32"

datatype simd = AVX2 | AVX512F | NEON | Scalar

section \<open>Vector addition\<close>

text \<open>Load \<open>w\<close> lanes of both sources from lane \<open>off\<close>, add, store to the destination.\<close>

definition simd_add ::
  "fpu \<Rightarrow> nat \<Rightarrow> nat \<Rightarrow> nat \<Rightarrow> nat \<Rightarrow> nat \<Rightarrow> f32 list list \<Rightarrow> f32 list list" where
  "simd_add fp off w d a b V =
     V[d := splice_at off (map2 (fadd fp) (slice off w (V ! a)) (slice off w (V ! b))) (V ! d)]"

definition scalar_vec_add :: "fpu \<Rightarrow> nat \<Rightarrow> nat \<Rightarrow> nat \<Rightarrow> f32 list list \<Rightarrow> f32 list list" where
  "scalar_vec_add fp d a b V =
     foldl (\<lambda>V i. V[d := (V ! d)[i := fadd fp (V ! a ! i) (V ! b ! i)]]) V [0..<VEC_WIDTH]"

fun vec_add_host :: "simd \<Rightarrow> fpu \<Rightarrow> nat \<Rightarrow> nat \<Rightarrow> nat \<Rightarrow> f32 list list \<Rightarrow> f32 list list" where
  "vec_add_host AVX2 fp d a b V = simd_add fp 8 8 d a b (simd_add fp 0 8 d a b V)"
| "vec_add_host AVX512F fp d a b V = simd_add fp 0 16 d a b V"
| "vec_add_host NEON fp d a b V =
     simd_add fp 12 4 d a b (simd_add fp 8 4 d a b (simd_add fp 4 4 d a b (simd_add fp 0 4 d a b V)))"
| "vec_add_host Scalar fp d a b V = scalar_vec_add fp d a b V"

section \<open>Tile product\<close>

definition dot :: "fpu \<Rightarrow> f32 list \<Rightarrow> f32 list \<Rightarrow> nat \<Rightarrow> nat \<Rightarrow> nat \<Rightarrow> f32" where
  "dot fp x y n i j =
     foldl (\<lambda>acc k. fadd fp acc (fmul fp (x ! (i * n + k)) (y ! (k * n + j)))) 0 [0..<n]"

definition matmul_loop ::
  "fpu \<Rightarrow> nat \<Rightarrow> nat \<Rightarrow> nat \<Rightarrow> nat \<Rightarrow> f32 list list \<Rightarrow> f32 list list" where
  "matmul_loop fp d a b n V =
     fold (\<lambda>i. fold (\<lambda>j V. V[d := (V ! d)[i * n + j := dot fp (V ! a) (V ! b) n i j]]) [0..<n])
       [0..<n] V"

text \<open>The fast path for \<open>n = 4\<close> is the same loop as the generic one.\<close>

definition matmul_tile_host ::
  "fpu \<Rightarrow> nat \<Rightarrow> nat \<Rightarrow> nat \<Rightarrow> u8 \<Rightarrow> f32 list list \<Rightarrow> f32 list list" where
  "matmul_tile_host fp d a b n V =
     (if n = 4 then matmul_loop fp d a b 4 V else matmul_loop fp d a b (unat n) V)"

text \<open>\<open>dma_copy_host\<close> is \<open>memcpy\<close> from one buffer to another.\<close>

definition dma_copy_host :: "u8 list \<Rightarrow> nat \<Rightarrow> u8 list \<Rightarrow> nat \<Rightarrow> nat \<Rightarrow> u8 list res" where
  "dma_copy_host dst doff src soff n = bind_res (mem_read src soff n) (mem_write dst doff)"

section \<open>Every build of the vector addition is the lane-wise sum\<close>

text \<open>The destination when the first \<open>k\<close> lanes are done.\<close>

definition added_upto :: "fpu \<Rightarrow> nat \<Rightarrow> nat \<Rightarrow> nat \<Rightarrow> f32 list list \<Rightarrow> nat \<Rightarrow> f32 list list" where
  "added_upto fp d a b V k =
     V[d := take k (map2 (fadd fp) (V ! a) (V ! b)) @ drop k (V ! d)]"

definition wf_vrs :: "f32 list list \<Rightarrow> bool" where
  "wf_vrs V \<longleftrightarrow> length V = NUM_VR \<and> list_all (\<lambda>v. length v = VEC_WIDTH) V"

lemma wf_vrs_nth [simp]: "wf_vrs V \<Longrightarrow> i < 8 \<Longrightarrow> length (V ! i) = 16"
  by (simp add: wf_vrs_def list_all_length)

lemma wf_vrs_length [simp]: "wf_vrs V \<Longrightarrow> length V = 8"
  by (simp add: wf_vrs_def)

lemma added_upto_0 [simp]: "added_upto fp d a b V 0 = V"
  by (simp add: added_upto_def)

lemma added_upto_all:
  "wf_vrs V \<Longrightarrow> d < 8 \<Longrightarrow> a < 8 \<Longrightarrow> b < 8 \<Longrightarrow>
   added_upto fp d a b V 16 = V[d := map2 (fadd fp) (V ! a) (V ! b)]"
  by (simp add: added_upto_def)

lemma added_upto_lane:
  assumes "wf_vrs V" "d < 8" "a < 8" "b < 8" "x < 8" "k \<le> i" "i < 16"
  shows "added_upto fp d a b V k ! x ! i = V ! x ! i"
  using assms by (auto simp: added_upto_def nth_list_update nth_append)

lemma simd_add_step:
  assumes "wf_vrs V" "d < 8" "a < 8" "b < 8" "k + w \<le> 16"
  shows "simd_add fp k w d a b (added_upto fp d a b V k) = added_upto fp d a b V (k + w)"
proof -
  let ?W = "added_upto fp d a b V k"
  let ?r = "map2 (fadd fp) (V ! a) (V ! b)"
  have len: "length (?W ! x) = 16" if "x < 8" for x
    using assms that by (auto simp: added_upto_def nth_list_update)
  have sl: "slice k w (?W ! x) = slice k w (V ! x)" if "x < 8" for x
    using assms that len by (intro nth_equalityI) (auto simp: nth_slice added_upto_lane)
  have "map2 (fadd fp) (slice k w (V ! a)) (slice k w (V ! b)) = slice k w ?r"
    using assms by (intro nth_equalityI) (auto simp: nth_slice)
  then have "splice_at k (map2 (fadd fp) (slice k w (?W ! a)) (slice k w (?W ! b))) (?W ! d)
      = splice_at k (slice k w ?r) (take k ?r @ drop k (V ! d))"
    using assms sl by (simp add: added_upto_def)
  also have "\<dots> = take (k + w) ?r @ drop (k + w) (V ! d)"
    using assms by (auto simp: splice_at_def slice_def take_add add.commute)
  finally show ?thesis
    using assms by (simp add: simd_add_def) (simp add: added_upto_def)
qed

lemma scalar_step:
  assumes "wf_vrs V" "d < 8" "a < 8" "b < 8" "k < 16"
  shows "(added_upto fp d a b V k)[d := (added_upto fp d a b V k ! d)
      [k := fadd fp (added_upto fp d a b V k ! a ! k) (added_upto fp d a b V k ! b ! k)]]
    = added_upto fp d a b V (Suc k)"
proof -
  let ?r = "map2 (fadd fp) (V ! a) (V ! b)"
  have "(take k ?r @ drop k (V ! d))[k := fadd fp (V ! a ! k) (V ! b ! k)]
      = take (Suc k) ?r @ drop (Suc k) (V ! d)"
    using assms
    by (intro nth_equalityI) (auto simp: nth_list_update nth_append less_Suc_eq min_def)
  with assms show ?thesis
    by (simp add: added_upto_lane) (simp add: added_upto_def)
qed

lemma scalar_vec_add_upto:
  assumes "wf_vrs V" "d < 8" "a < 8" "b < 8" "k \<le> 16"
  shows "foldl (\<lambda>V i. V[d := (V ! d)[i := fadd fp (V ! a ! i) (V ! b ! i)]]) V [0..<k]
    = added_upto fp d a b V k"
  using assms(5)
proof (induction k)
  case (Suc k)
  with assms(1-4) show ?case by (simp add: scalar_step)
qed simp

lemma vec_add_host_eq:
  assumes "wf_vrs V" "d < 8" "a < 8" "b < 8"
  shows "vec_add_host simd fp d a b V = V[d := map2 (fadd fp) (V ! a) (V ! b)]"
proof -
  note step = simd_add_step [OF assms]
  have "vec_add_host simd fp d a b V = added_upto fp d a b V 16"
    using step [of 0 8] step [of 8 8] step [of 0 16] step [of 0 4] step [of 4 4] step [of 8 4]
      step [of 12 4] scalar_vec_add_upto [OF assms, of 16]
    by (cases simd) (simp_all add: scalar_vec_add_def)
  with assms show ?thesis by (simp add: added_upto_all)
qed

text \<open>
  C33. Host acceleration of VEC_ADD is bit-identical to the scalar loop: for every SIMD build,
  whatever the floating-point addition and also when the destination is one of the sources,
  the kernel leaves the lane-wise sum in the destination and changes no other register.
\<close>

theorem vec_add_host_scalar:
  assumes "wf_vrs V" and "d < 8" and "a < 8" and "b < 8"
  shows "vec_add_host simd fp d a b V = scalar_vec_add fp d a b V
     \<and> vec_add_host simd fp d a b V = V[d := map2 (fadd fp) (V ! a) (V ! b)]"
proof -
  have "scalar_vec_add fp d a b V = V[d := map2 (fadd fp) (V ! a) (V ! b)]"
    using vec_add_host_eq [OF assms, of Scalar fp] by simp
  with vec_add_host_eq [OF assms] show ?thesis by simp
qed

section \<open>The tile product\<close>

text \<open>Updating disjoint places of a list, row by row.\<close>

lemma fold_row:
  "fold (\<lambda>j xs. xs[r + j := f j]) [0..<m] xs =
     map (\<lambda>k. if r \<le> k \<and> k < r + m then f (k - r) else xs ! k) [0..<length xs]"
proof (induction m)
  case 0
  show ?case by (rule nth_equalityI) auto
next
  case (Suc m)
  show ?case
  proof (cases "r + m < length xs")
    case True
    then show ?thesis
      by (intro nth_equalityI) (auto simp: Suc nth_list_update less_Suc_eq)
  next
    case False
    then show ?thesis
      by (intro nth_equalityI) (auto simp: Suc list_update_beyond)
  qed
qed

lemma row_index:
  fixes n :: nat
  assumes "n * i \<le> k" "k < n * i + n"
  shows "k div n = i" and "k mod n = k - n * i"
proof -
  from assms obtain j where j: "k = n * i + j" "j < n" by (metis le_Suc_ex add_less_cancel_left)
  then show "k div n = i" "k mod n = k - n * i" by simp_all
qed

lemma fold_rows:
  "fold (\<lambda>i. fold (\<lambda>j xs. xs[i * n + j := f i j]) [0..<n]) [0..<m] xs =
     map (\<lambda>k. if k < m * n then f (k div n) (k mod n) else xs ! k) [0..<length xs]"
proof (induction m)
  case 0
  show ?case by (simp add: map_nth)
next
  case (Suc m)
  have key: "(if m * n \<le> k \<and> k < m * n + n then f m (k - m * n)
         else if k < m * n then f (k div n) (k mod n) else xs ! k)
      = (if k < Suc m * n then f (k div n) (k mod n) else xs ! k)" for k
    using row_index [of n m k] by (auto simp: mult.commute)
  have "fold (\<lambda>i. fold (\<lambda>j xs. xs[i * n + j := f i j]) [0..<n]) [0..<Suc m] xs
      = map (\<lambda>k. if m * n \<le> k \<and> k < m * n + n then f m (k - m * n)
         else if k < m * n then f (k div n) (k mod n) else xs ! k) [0..<length xs]"
    by (simp add: Suc fold_row)
  then show ?case by (simp only: key)
qed

lemma fold_in_register:
  assumes "d < length V"
  shows "fold (\<lambda>x V. V[d := g x (V ! d)]) xs V = V[d := fold g xs (V ! d)]"
  using assms by (induction xs arbitrary: V) simp_all

text \<open>With a destination apart from the sources, every element is computed from the inputs.\<close>

lemma matmul_row:
  assumes "d < length V" and "d \<noteq> a" and "d \<noteq> b"
  shows "fold (\<lambda>j V. V[d := (V ! d)[i * n + j := dot fp (V ! a) (V ! b) n i j]]) js V
    = V[d := fold (\<lambda>j xs. xs[i * n + j := dot fp (V ! a) (V ! b) n i j]) js (V ! d)]"
  using assms by (induction js arbitrary: V) simp_all

lemma matmul_rows:
  assumes "d < length V" and "d \<noteq> a" and "d \<noteq> b"
  shows "fold (\<lambda>i. fold (\<lambda>j V. V[d := (V ! d)[i * n + j := dot fp (V ! a) (V ! b) n i j]]) js) is V
    = V[d := fold (\<lambda>i. fold (\<lambda>j xs. xs[i * n + j := dot fp (V ! a) (V ! b) n i j]) js) is (V ! d)]"
  using assms by (induction "is" arbitrary: V) (simp_all add: matmul_row)

definition matmul_ref :: "fpu \<Rightarrow> nat \<Rightarrow> f32 list \<Rightarrow> f32 list \<Rightarrow> f32 list \<Rightarrow> f32 list" where
  "matmul_ref fp n x y old =
     map (\<lambda>k. if k < n * n then dot fp x y n (k div n) (k mod n) else old ! k) [0..<length old]"

lemma matmul_loop_eq:
  "d < length V \<Longrightarrow> d \<noteq> a \<Longrightarrow> d \<noteq> b \<Longrightarrow>
   matmul_loop fp d a b n V = V[d := matmul_ref fp n (V ! a) (V ! b) (V ! d)]"
  by (simp add: matmul_loop_def matmul_rows fold_rows matmul_ref_def)

text \<open>
  C34. MATMUL_TILE computes the row-major matrix product: with a destination register apart
  from the sources, element \<open>(i, j)\<close> of the destination is the left-to-right sum of the
  products of row \<open>i\<close> and column \<open>j\<close> of the inputs, the elements beyond the \<open>n\<close>-by-\<open>n\<close> tile
  and all other registers keep their values, on the fast path and on the generic one.
\<close>

theorem matmul_tile_product:
  assumes "wf_vrs V" and "d < 8" and "d \<noteq> a" and "d \<noteq> b" and "unat n \<le> TILE_SIZE"
  shows "matmul_tile_host fp d a b n V = V[d := matmul_ref fp (unat n) (V ! a) (V ! b) (V ! d)]
    \<and> (\<forall>i < unat n. \<forall>j < unat n. matmul_tile_host fp d a b n V ! d ! (i * unat n + j)
         = dot fp (V ! a) (V ! b) (unat n) i j)"
proof -
  let ?n = "unat n"
  have eq: "matmul_tile_host fp d a b n V = V[d := matmul_ref fp ?n (V ! a) (V ! b) (V ! d)]"
    using assms by (simp add: matmul_tile_host_def matmul_loop_eq)
  have "matmul_ref fp ?n (V ! a) (V ! b) (V ! d) ! (i * ?n + j) = dot fp (V ! a) (V ! b) ?n i j"
    if "i < ?n" "j < ?n" for i j
  proof -
    have "Suc i * ?n \<le> ?n * ?n" using that by (intro mult_le_mono1) simp
    with that have lt: "i * ?n + j < ?n * ?n" by simp
    moreover have "?n * ?n \<le> 4 * 4" using assms(5) by (intro mult_le_mono) simp_all
    ultimately have "i * ?n + j < 16" by simp
    with lt that assms(1,2) show ?thesis by (simp add: matmul_ref_def)
  qed
  then have "\<forall>i < ?n. \<forall>j < ?n. V[d := matmul_ref fp ?n (V ! a) (V ! b) (V ! d)] ! d ! (i * ?n + j)
      = dot fp (V ! a) (V ! b) ?n i j"
    using assms(1,2) by simp
  then show ?thesis unfolding eq by blast
qed

lemma wf_vrs_update: "wf_vrs V \<Longrightarrow> d < 8 \<Longrightarrow> length v = 16 \<Longrightarrow> wf_vrs (V[d := v])"
  using set_update_subset_insert [of V d v] by (auto simp: wf_vrs_def list_all_iff)

lemma wf_matmul_loop:
  assumes "wf_vrs V" and "d < 8"
  shows "wf_vrs (matmul_loop fp d a b n V)"
proof -
  have row: "wf_vrs (fold (\<lambda>j V. V[d := (V ! d)[i * n + j := dot fp (V ! a) (V ! b) n i j]]) js V)"
    if "wf_vrs V" for i js V
    using that assms(2) by (induction js arbitrary: V) (simp_all add: wf_vrs_update)
  have "wf_vrs (fold (\<lambda>i. fold (\<lambda>j V. V[d := (V ! d)[i * n + j :=
      dot fp (V ! a) (V ! b) n i j]]) [0..<n]) is V)" if "wf_vrs V" for "is" V
    using that by (induction "is" arbitrary: V) (simp_all add: row)
  then show ?thesis using assms by (simp add: matmul_loop_def)
qed

lemma wf_matmul_tile_host: "wf_vrs V \<Longrightarrow> d < 8 \<Longrightarrow> wf_vrs (matmul_tile_host fp d a b n V)"
  by (simp add: matmul_tile_host_def wf_matmul_loop)

lemma wf_vec_add_host:
  "wf_vrs V \<Longrightarrow> d < 8 \<Longrightarrow> a < 8 \<Longrightarrow> b < 8 \<Longrightarrow> wf_vrs (vec_add_host simd fp d a b V)"
  by (simp add: vec_add_host_eq wf_vrs_update)

section \<open>Witnesses\<close>

text \<open>Integer arithmetic on the patterns stands for the floating-point unit.\<close>

definition int_fpu :: fpu where
  "int_fpu = \<lparr>fadd = (+), fmul = (*)\<rparr>"

definition ramp_vrs :: "f32 list list" where
  "ramp_vrs = map (\<lambda>i. map (\<lambda>j. of_nat (i + j)) [0..<16]) [0..<8]"

lemma wf_ramp_vrs: "wf_vrs ramp_vrs"
  by (simp add: wf_vrs_def ramp_vrs_def list_all_length)

theorem vec_add_host_scalar_witness:
  "vec_add_host NEON int_fpu 1 1 2 ramp_vrs = scalar_vec_add int_fpu 1 1 2 ramp_vrs
   \<and> scalar_vec_add int_fpu 1 1 2 ramp_vrs ! 1 ! 5 = 13"
proof -
  have "scalar_vec_add int_fpu 1 1 2 ramp_vrs ! 1 ! 5 = 13" by code_simp
  then show ?thesis
    using vec_add_host_scalar [OF wf_ramp_vrs, of 1 1 2 NEON int_fpu] by simp
qed

theorem matmul_tile_product_witness:
  "matmul_tile_host int_fpu 0 1 2 2 ramp_vrs ! 0 ! 3 = dot int_fpu (ramp_vrs ! 1) (ramp_vrs ! 2) 2 1 1
   \<and> dot int_fpu (ramp_vrs ! 1) (ramp_vrs ! 2) 2 1 1 = 29"
proof -
  have "dot int_fpu (ramp_vrs ! 1) (ramp_vrs ! 2) 2 1 1 = 29" by code_simp
  moreover have "matmul_tile_host int_fpu 0 1 2 2 ramp_vrs ! 0 ! (1 * unat (2 :: u8) + 1)
      = dot int_fpu (ramp_vrs ! 1) (ramp_vrs ! 2) (unat (2 :: u8)) 1 1"
    by (rule conjunct2 [OF matmul_tile_product [OF wf_ramp_vrs], rule_format]) simp_all
  ultimately show ?thesis by simp
qed

end
