(* ===== verification/Target.thy ===== *)
theory Target
  imports Isa
begin

text \<open>
  The simulation targets of \<^verbatim>\<open>include/aiasm/target.h\<close>: CPU, GPU and ASIC profiles, which
  differ in their cycle overrides and throughput hints only.
\<close>

datatype target_kind = CPU | GPU | ASIC

record target_profile =
  target_kind :: target_kind
  target_name :: string
  cycle_overrides :: "u32 list"
  vector_lanes :: u32
  tensor_cores :: u32
  dma_bandwidth :: u32
  out_of_order :: bool
  warp_scheduling :: bool

definition target_default :: target_profile where
  "target_default = \<lparr>target_kind = ASIC, target_name = '''', cycle_overrides = replicate NUM_OPCODES 0,
     vector_lanes = 4, tensor_cores = 1, dma_bandwidth = 64, out_of_order = False,
     warp_scheduling = False\<rparr>"

definition set_override :: "opcode \<Rightarrow> u32 \<Rightarrow> target_profile \<Rightarrow> target_profile" where
  "set_override op c p =
     p\<lparr>cycle_overrides := (cycle_overrides p)[unat (opcode_code op) := c]\<rparr>"

definition make_cpu_profile :: target_profile where
  "make_cpu_profile =
     set_override MATMUL_TILE 24 (set_override VEC_ADD 2
       (target_default\<lparr>target_kind := CPU, target_name := ''cpu-x86-arm'', vector_lanes := 8,
          tensor_cores := 1, dma_bandwidth := 32, out_of_order := True\<rparr>))"

definition make_gpu_profile :: target_profile where
  "make_gpu_profile =
     set_override DMA_STORE 1 (set_override DMA_LOAD 1 (set_override MATMUL_TILE 4
       (set_override VEC_ADD 1
         (target_default\<lparr>target_kind := GPU, target_name := ''gpu-warp32'', vector_lanes := 32,
            tensor_cores := 4, dma_bandwidth := 256, warp_scheduling := True\<rparr>))))"

definition make_asic_profile :: target_profile where
  "make_asic_profile =
     target_default\<lparr>target_kind := ASIC, target_name := ''asic-npu-4x4'', vector_lanes := 16,
       tensor_cores := 1, dma_bandwidth := 64\<rparr>"

definition make_custom_profile :: "string \<Rightarrow> u32 \<Rightarrow> u32 \<Rightarrow> u32 \<Rightarrow> target_profile" where
  "make_custom_profile nm lanes cores bw =
     make_asic_profile\<lparr>target_name := nm, vector_lanes := lanes, tensor_cores := cores,
       dma_bandwidth := bw\<rparr>"

definition profile_cycle_weight :: "target_profile \<Rightarrow> opcode \<Rightarrow> u16 \<Rightarrow> u32 res" where
  "profile_cycle_weight prof op fn =
     bind_res (arr_get (cycle_overrides prof) (unat (opcode_code op))) (\<lambda>ov.
       Ok (if ov \<noteq> 0 then ov else cycle_weight op fn))"

definition wf_target :: "target_profile \<Rightarrow> bool" where
  "wf_target p \<longleftrightarrow> length (cycle_overrides p) = NUM_OPCODES"

lemma wf_target_profiles [simp]:
  "wf_target make_cpu_profile" "wf_target make_gpu_profile" "wf_target make_asic_profile"
  "wf_target (make_custom_profile nm l c b)"
  by (simp_all add: wf_target_def make_cpu_profile_def make_gpu_profile_def make_asic_profile_def
      make_custom_profile_def set_override_def target_default_def)

lemma profile_cycle_weight_defined:
  "wf_target p \<Longrightarrow> opcode_code op < 64 \<Longrightarrow> \<exists>w. profile_cycle_weight p op fn = Ok w"
  by (simp add: profile_cycle_weight_def arr_get_def wf_target_def word_less_nat_alt)

lemma asic_is_reference:
  "opcode_code op < 64 \<Longrightarrow> profile_cycle_weight make_asic_profile op fn = Ok (cycle_weight op fn)"
  by (simp add: profile_cycle_weight_def arr_get_def make_asic_profile_def target_default_def
      word_less_nat_alt)

end
