(* ===== verification/Profiler.thy ===== *)
theory Profiler
  imports Isa
begin

text \<open>
  The performance counters of \<^verbatim>\<open>include/aiasm/profiler.h\<close> and
  \<^verbatim>\<open>src/emulator.cpp\<close>. All counters are 64-bit and wrap. The ratios reported as
  \<open>double\<close> and the text report are in \<open>Stats\<close>.
\<close>

record profiler =
  instr_count :: u64
  cycle_count :: u64
  dma_bytes :: u64
  dma_cycle_count :: u64
  opcode_hist :: "u64 list"

definition profiler_init :: profiler where
  "profiler_init = \<lparr>instr_count = 0, cycle_count = 0, dma_bytes = 0, dma_cycle_count = 0,
     opcode_hist = replicate NUM_OPCODES 0\<rparr>"

definition profiler_reset :: "profiler \<Rightarrow> profiler" where
  "profiler_reset p = p\<lparr>instr_count := 0, cycle_count := 0, dma_bytes := 0,
     dma_cycle_count := 0, opcode_hist := replicate (length (opcode_hist p)) 0\<rparr>"

definition profiler_record :: "opcode \<Rightarrow> u32 \<Rightarrow> u64 \<Rightarrow> profiler \<Rightarrow> profiler res" where
  "profiler_record op cycles dma p =
     bind_res (arr_get (opcode_hist p) (unat (opcode_code op))) (\<lambda>h.
     bind_res (arr_set (opcode_hist p) (unat (opcode_code op)) (h + 1)) (\<lambda>hist.
     let p1 = p\<lparr>instr_count := instr_count p + 1, cycle_count := cycle_count p + ucast cycles,
                opcode_hist := hist\<rparr>
     in Ok (if dma > 0
            then p1\<lparr>dma_bytes := dma_bytes p1 + dma,
                    dma_cycle_count := dma_cycle_count p1 + ucast cycles\<rparr>
            else p1)))"

text \<open>\<open>Profiler::State\<close>.\<close>

record profiler_state =
  ps_instr_count :: u64
  ps_cycle_count :: u64
  ps_dma_bytes :: u64
  ps_dma_cycles :: u64
  ps_opcode_hist :: "u64 list"

definition profiler_save :: "profiler \<Rightarrow> profiler_state" where
  "profiler_save p = \<lparr>ps_instr_count = instr_count p, ps_cycle_count = cycle_count p,
     ps_dma_bytes = dma_bytes p, ps_dma_cycles = dma_cycle_count p,
     ps_opcode_hist = opcode_hist p\<rparr>"

definition profiler_restore :: "profiler_state \<Rightarrow> profiler \<Rightarrow> profiler" where
  "profiler_restore s p = p\<lparr>instr_count := ps_instr_count s, cycle_count := ps_cycle_count s,
     dma_bytes := ps_dma_bytes s, dma_cycle_count := ps_dma_cycles s,
     opcode_hist := ps_opcode_hist s\<rparr>"

text \<open>Shape and consistency: the histogram adds up to the instruction count.\<close>

definition wf_profiler :: "profiler \<Rightarrow> bool" where
  "wf_profiler p \<longleftrightarrow> length (opcode_hist p) = NUM_OPCODES
     \<and> sum_list (opcode_hist p) = instr_count p"

lemma wf_profiler_init [simp]: "wf_profiler profiler_init"
  by (simp add: wf_profiler_def profiler_init_def sum_list_replicate)

lemma profiler_reset_eq: "wf_profiler p \<Longrightarrow> profiler_reset p = profiler_init"
  by (simp add: wf_profiler_def profiler_reset_def profiler_init_def)

lemma sum_list_update_word:
  "i < length xs \<Longrightarrow> sum_list (xs[i := xs ! i + d]) = sum_list xs + (d :: 'a::len word)"
  by (induction xs arbitrary: i) (auto split: nat.split simp: algebra_simps)

lemma wf_profiler_record:
  assumes "wf_profiler p" and "profiler_record op c d p = Ok p'"
  shows "wf_profiler p'"
  using assms
  by (auto simp: wf_profiler_def profiler_record_def arr_get_def arr_set_def Let_def
      sum_list_update_word split: if_splits)

lemma profiler_record_length:
  "profiler_record op c d p = Ok p' \<Longrightarrow> length (opcode_hist p') = length (opcode_hist p)"
  by (auto simp: profiler_record_def arr_get_def arr_set_def Let_def split: if_splits)

lemma profiler_record_defined:
  assumes "wf_profiler p"
  shows "\<exists>p'. profiler_record (instr_opcode i) c d p = Ok p'"
proof -
  have "unat (opcode_code (instr_opcode i)) < 64"
    using instr_opcode_less [of i] by (simp add: word_less_nat_alt)
  with assms show ?thesis
    by (simp add: profiler_record_def arr_get_def arr_set_def wf_profiler_def Let_def)
qed

lemma profiler_record_counts:
  "profiler_record op c d p = Ok p' \<Longrightarrow>
   instr_count p' = instr_count p + 1 \<and> cycle_count p' = cycle_count p + ucast c"
  by (auto simp: profiler_record_def arr_get_def arr_set_def Let_def split: if_splits)

lemma profiler_restore_save: "profiler_restore (profiler_save p) q = p"
  by (simp add: profiler_restore_def profiler_save_def)

lemma profiler_save_restore: "profiler_save (profiler_restore s p) = s"
  by (simp add: profiler_restore_def profiler_save_def)

end
