(* ===== verification/Translate.thy ===== *)
theory Translate
  imports Isa Memo Host Target Profiler
begin

text \<open>
  The translation layer of \<^verbatim>\<open>include/aiasm/translate.h\<close>: the block cache, which decodes a
  linear run of instructions once and replays it, and the two host execution helpers. The
  memory a block is decoded from is a template parameter of the sources; here it is the
  function \<open>rd\<close> that reads a word and may throw.
\<close>

section \<open>Decoded blocks\<close>

record decoded_block =
  start_pc :: u32
  end_pc :: u32
  ops :: "instruction list"
  ends_with_branch :: bool
  ends_with_halt :: bool

record block_cache =
  blocks :: "u32 \<rightharpoonup> decoded_block"
  bc_hits :: u64
  bc_misses :: u64

definition block_cache_init :: block_cache where
  "block_cache_init = \<lparr>blocks = Map.empty, bc_hits = 0, bc_misses = 0\<rparr>"

definition bc_clear :: "block_cache \<Rightarrow> block_cache" where
  "bc_clear c = c\<lparr>blocks := Map.empty, bc_hits := 0, bc_misses := 0\<rparr>"

definition bc_find :: "block_cache \<Rightarrow> u32 \<Rightarrow> decoded_block option" where
  "bc_find c addr = blocks c addr"

definition is_control :: "opcode \<Rightarrow> bool" where
  "is_control op \<longleftrightarrow> op = HALT \<or> op = JMP \<or> op = BEQ \<or> op = BNE"

text \<open>The decoding loop, with the number of iterations left.\<close>

fun decode_loop :: "(u32 \<Rightarrow> u32 res) \<Rightarrow> nat \<Rightarrow> u32 \<Rightarrow> decoded_block \<Rightarrow> decoded_block res" where
  "decode_loop rd 0 cur blk = Ok (blk\<lparr>end_pc := cur\<rparr>)"
| "decode_loop rd (Suc n) cur blk = bind_res (rd cur) (\<lambda>w.
     let ins = \<lparr>raw = w\<rparr>;
         blk1 = blk\<lparr>ops := ops blk @ [ins]\<rparr>;
         cur1 = cur + 4;
         op = instr_opcode ins
     in if is_control op
        then Ok (blk1\<lparr>ends_with_branch := (op \<noteq> HALT), ends_with_halt := (op = HALT), end_pc := cur1\<rparr>)
        else if cur1 AND 0x3F = 0 then Ok (blk1\<lparr>end_pc := cur1\<rparr>)
        else decode_loop rd n cur1 blk1)"

definition decode_block :: "(u32 \<Rightarrow> u32 res) \<Rightarrow> u32 \<Rightarrow> nat \<Rightarrow> decoded_block res" where
  "decode_block rd addr max_len = decode_loop rd max_len addr
     \<lparr>start_pc = addr, end_pc = 0, ops = [], ends_with_branch = False, ends_with_halt = False\<rparr>"

definition block_put :: "u32 \<Rightarrow> decoded_block \<Rightarrow> block_cache \<Rightarrow> block_cache" where
  "block_put addr blk c = c\<lparr>blocks := (blocks c)(addr \<mapsto> blk)\<rparr>"

definition block_translate :: "(u32 \<Rightarrow> u32 res) \<Rightarrow> u32 \<Rightarrow> nat \<Rightarrow> (block_cache, decoded_block) st" where
  "block_translate rd addr max_len =
     bind (gets (\<lambda>c. blocks c addr)) (\<lambda>found. case found of
        Some blk \<Rightarrow> bind (modify (\<lambda>c. c\<lparr>bc_hits := bc_hits c + 1\<rparr>)) (\<lambda>_. ret blk)
      | None \<Rightarrow>
          bind (modify (\<lambda>c. c\<lparr>bc_misses := bc_misses c + 1\<rparr>)) (\<lambda>_.
          bind (lift_res (\<lambda>_. decode_block rd addr max_len)) (\<lambda>blk.
          bind (modify (block_put addr blk)) (\<lambda>_. ret blk))))"

section \<open>Host execution helpers\<close>

text \<open>The vector registers the pointers lead into are \<open>V\<close>; a null profiler is \<open>None\<close>.\<close>

definition record_opt :: "opcode \<Rightarrow> u32 \<Rightarrow> profiler option \<Rightarrow> profiler option res" where
  "record_opt op cyc p = (case p of None \<Rightarrow> Ok None | Some q \<Rightarrow> map_res Some (profiler_record op cyc 0 q))"

definition exec_vec_add ::
  "simd \<Rightarrow> fpu \<Rightarrow> nat \<Rightarrow> nat \<Rightarrow> nat \<Rightarrow> target_profile \<Rightarrow> f32 list list \<Rightarrow> profiler option \<Rightarrow>
   (u32 \<times> f32 list list \<times> profiler option) res" where
  "exec_vec_add simd fp d a b prof V p =
     bind_res (profile_cycle_weight prof VEC_ADD 0) (\<lambda>cyc.
     bind_res (record_opt VEC_ADD cyc p) (\<lambda>p'. Ok (cyc, vec_add_host simd fp d a b V, p')))"

definition exec_matmul_tile ::
  "fpu \<Rightarrow> nat \<Rightarrow> nat \<Rightarrow> nat \<Rightarrow> u8 \<Rightarrow> target_profile \<Rightarrow> f32 list list \<Rightarrow> profiler option \<Rightarrow>
   (u32 \<times> f32 list list \<times> profiler option) res" where
  "exec_matmul_tile fp d a b n prof V p =
     bind_res (profile_cycle_weight prof MATMUL_TILE (ucast n)) (\<lambda>cyc.
     bind_res (record_opt MATMUL_TILE cyc p) (\<lambda>p'. Ok (cyc, matmul_tile_host fp d a b n V, p')))"

section \<open>What a block is\<close>

text \<open>
  A block agrees with the memory: its instructions are the words from its start on, one after
  the other, none but the last transfers control or stands before a line boundary, and the
  last one does, or the block has the \<open>n\<close> instructions that are the limit. There is at most
  one such block for an address (\<open>block_ok_unique\<close>).
\<close>

definition pc_at :: "u32 \<Rightarrow> nat \<Rightarrow> u32" where
  "pc_at addr i = addr + of_nat (4 * i)"

definition run_of :: "(u32 \<Rightarrow> u32 res) \<Rightarrow> u32 \<Rightarrow> instruction list \<Rightarrow> bool" where
  "run_of rd addr is \<longleftrightarrow> (\<forall>i < length is. rd (pc_at addr i) = Ok (raw (is ! i)))
     \<and> (\<forall>i. Suc i < length is \<longrightarrow>
          \<not> is_control (instr_opcode (is ! i)) \<and> pc_at addr (Suc i) AND 0x3F \<noteq> 0)"

definition block_ok :: "(u32 \<Rightarrow> u32 res) \<Rightarrow> nat \<Rightarrow> u32 \<Rightarrow> decoded_block \<Rightarrow> bool" where
  "block_ok rd n addr blk \<longleftrightarrow> start_pc blk = addr \<and> ops blk \<noteq> [] \<and> run_of rd addr (ops blk)
     \<and> end_pc blk = pc_at addr (length (ops blk)) \<and> length (ops blk) \<le> n
     \<and> (is_control (instr_opcode (last (ops blk))) \<or> end_pc blk AND 0x3F = 0 \<or> length (ops blk) = n)
     \<and> (ends_with_halt blk \<longleftrightarrow> instr_opcode (last (ops blk)) = HALT)
     \<and> (ends_with_branch blk \<longleftrightarrow> is_control (instr_opcode (last (ops blk))) \<and> \<not> ends_with_halt blk)"

lemma pc_at_0 [simp]: "pc_at addr 0 = addr"
  by (simp add: pc_at_def)

lemma pc_at_Suc: "pc_at addr (Suc i) = pc_at addr i + 4"
  by (simp add: pc_at_def algebra_simps)

lemma pc_at_shift: "pc_at (addr + 4) i = pc_at addr (Suc i)"
  by (simp add: pc_at_def algebra_simps)

lemma run_of_Nil [simp]: "run_of rd addr []"
  by (simp add: run_of_def)

lemma run_of_snoc:
  assumes "run_of rd addr is" and "rd (pc_at addr (length is)) = Ok w"
    and "is \<noteq> [] \<Longrightarrow> \<not> is_control (instr_opcode (last is)) \<and> pc_at addr (length is) AND 0x3F \<noteq> 0"
  shows "run_of rd addr (is @ [\<lparr>raw = w\<rparr>])"
proof -
  have "\<not> is_control (instr_opcode (is ! i)) \<and> pc_at addr (Suc i) AND 0x3F \<noteq> 0"
    if i: "Suc i < Suc (length is)" for i
  proof (cases "Suc i = length is")
    case True
    then have "is \<noteq> []" and "i = length is - 1" by auto
    with True assms(3) show ?thesis by (simp add: last_conv_nth)
  next
    case False
    with i assms(1) show ?thesis by (simp add: run_of_def)
  qed
  with assms(1,2) show ?thesis
    by (simp add: run_of_def nth_append less_Suc_eq all_conj_distrib)
qed

lemma block_ok_length:
  assumes "block_ok rd n addr b" and "block_ok rd n addr b'"
  shows "length (ops b') \<le> length (ops b)"
proof (rule ccontr)
  assume "\<not> length (ops b') \<le> length (ops b)"
  then have less: "length (ops b) < length (ops b')" by simp
  let ?k = "length (ops b) - 1"
  have k: "Suc ?k = length (ops b)" using assms(1) by (simp add: block_ok_def)
  have "raw (ops b ! ?k) = raw (ops b' ! ?k)"
    using assms less k by (simp add: block_ok_def run_of_def)
  then have same: "ops b ! ?k = ops b' ! ?k" by simp
  have "\<not> is_control (instr_opcode (ops b' ! ?k)) \<and> pc_at addr (Suc ?k) AND 0x3F \<noteq> 0"
    using assms(2) less k unfolding block_ok_def run_of_def by metis
  with same k less assms show False
    by (auto simp: block_ok_def last_conv_nth)
qed

lemma block_ok_unique:
  assumes b: "block_ok rd n addr b" and b': "block_ok rd n addr b'"
  shows "b = b'"
proof -
  have len: "length (ops b) = length (ops b')"
    using block_ok_length [OF b b'] block_ok_length [OF b' b] by simp
  have "ops b = ops b'"
  proof (rule nth_equalityI [OF len])
    fix i assume "i < length (ops b)"
    with len have "rd (pc_at addr i) = Ok (raw (ops b ! i))" "rd (pc_at addr i) = Ok (raw (ops b' ! i))"
      using b b' by (simp_all add: block_ok_def run_of_def)
    then show "ops b ! i = ops b' ! i" by simp
  qed
  with b b' show ?thesis by (auto simp: block_ok_def)
qed

text \<open>The invariant of the decoding loop: a run so far that nothing has ended.\<close>

definition open_block :: "(u32 \<Rightarrow> u32 res) \<Rightarrow> u32 \<Rightarrow> decoded_block \<Rightarrow> bool" where
  "open_block rd addr blk \<longleftrightarrow> start_pc blk = addr \<and> run_of rd addr (ops blk)
     \<and> \<not> ends_with_branch blk \<and> \<not> ends_with_halt blk
     \<and> (ops blk \<noteq> [] \<longrightarrow> \<not> is_control (instr_opcode (last (ops blk)))
          \<and> pc_at addr (length (ops blk)) AND 0x3F \<noteq> 0)"

lemma decode_loop_ok:
  assumes "open_block rd addr blk" and "ops blk \<noteq> [] \<or> n \<noteq> 0"
    and "decode_loop rd n (pc_at addr (length (ops blk))) blk = Ok b"
  shows "block_ok rd (length (ops blk) + n) addr b"
  using assms
proof (induction n arbitrary: blk)
  case 0
  then show ?case by (auto simp: open_block_def block_ok_def is_control_def)
next
  case (Suc n)
  then obtain w where w: "rd (pc_at addr (length (ops blk))) = Ok w"
    by (cases "rd (pc_at addr (length (ops blk)))") auto
  let ?blk = "blk\<lparr>ops := ops blk @ [\<lparr>raw = w\<rparr>]\<rparr>"
  have run: "run_of rd addr (ops ?blk)"
    using Suc.prems(1) w by (auto simp: open_block_def intro: run_of_snoc)
  show ?case
  proof (cases "is_control (instr_opcode \<lparr>raw = w\<rparr>) \<or> pc_at addr (Suc (length (ops blk))) AND 0x3F = 0")
    case True
    define c where "c \<longleftrightarrow> is_control (instr_opcode \<lparr>raw = w\<rparr>)"
    define h where "h \<longleftrightarrow> instr_opcode \<lparr>raw = w\<rparr> = HALT"
    have "h \<longrightarrow> c" by (simp add: c_def h_def is_control_def)
    moreover have "b = (if c then ?blk\<lparr>ends_with_branch := \<not> h, ends_with_halt := h,
        end_pc := pc_at addr (length (ops ?blk))\<rparr> else ?blk\<lparr>end_pc := pc_at addr (length (ops ?blk))\<rparr>)"
      using Suc.prems(3) w True by (simp add: Let_def pc_at_Suc c_def h_def split: if_splits)
    ultimately show ?thesis
      using Suc.prems(1) run True by (cases c) (auto simp: block_ok_def open_block_def c_def h_def)
  next
    case False
    with Suc.prems(1) run have "open_block rd addr ?blk"
      by (simp add: open_block_def)
    moreover have "decode_loop rd n (pc_at addr (length (ops ?blk))) ?blk = Ok b"
      using Suc.prems(3) w False by (simp add: Let_def pc_at_Suc split: if_splits)
    ultimately show ?thesis
      using Suc.IH [of ?blk] by simp
  qed
qed

lemma decode_block_ok:
  "0 < n \<Longrightarrow> decode_block rd addr n = Ok b \<Longrightarrow> block_ok rd n addr b"
  using decode_loop_ok [of rd addr "\<lparr>start_pc = addr, end_pc = 0, ops = [], ends_with_branch = False, ends_with_halt = False\<rparr>" n b]
  by (simp add: open_block_def decode_block_def)

text \<open>Decoding fails where a word cannot be read, and only when nothing has ended the block before.\<close>

definition fails_at :: "(u32 \<Rightarrow> u32 res) \<Rightarrow> u32 \<Rightarrow> nat \<Rightarrow> decoded_block res \<Rightarrow> bool" where
  "fails_at rd addr i r \<longleftrightarrow>
     (case rd (pc_at addr i) of Ok w \<Rightarrow> False | Err e \<Rightarrow> r = Err e | Undef \<Rightarrow> r = Undef)
     \<and> (\<forall>j < i. \<exists>w. rd (pc_at addr j) = Ok w \<and> \<not> is_control (instr_opcode \<lparr>raw = w\<rparr>)
          \<and> pc_at addr (Suc j) AND 0x3F \<noteq> 0)"

lemma fails_at_Suc:
  assumes "fails_at rd (addr + 4) i r" and "rd addr = Ok w"
    and "\<not> is_control (instr_opcode \<lparr>raw = w\<rparr>)" and "(addr + 4) AND 0x3F \<noteq> 0"
  shows "fails_at rd addr (Suc i) r"
  using assms by (auto simp: fails_at_def pc_at_shift less_Suc_eq_0_disj pc_at_Suc [of addr 0, simplified])

lemma decode_loop_fails:
  assumes "decode_loop rd n cur blk = r" and "\<not> (\<exists>b. r = Ok b)"
  shows "\<exists>i < n. fails_at rd cur i r"
  using assms
proof (induction n arbitrary: cur blk)
  case (Suc n)
  show ?case
  proof (cases "rd cur")
    case (Ok w)
    with Suc.prems obtain blk' where rest: "decode_loop rd n (cur + 4) blk' = r"
      and go: "\<not> is_control (instr_opcode \<lparr>raw = w\<rparr>)" "(cur + 4) AND 0x3F \<noteq> 0"
      by (auto simp: Let_def split: if_splits)
    from Suc.IH [OF rest Suc.prems(2)] obtain i where "i < n" "fails_at rd (cur + 4) i r" by blast
    then show ?thesis using fails_at_Suc [of rd cur i r w] Ok go by (intro exI [of _ "Suc i"]) simp
  qed (use Suc.prems in \<open>auto simp: fails_at_def intro!: exI [of _ "0 :: nat"]\<close>)
qed auto

section \<open>The cache holds blocks that agree with the memory\<close>

definition cached :: "block_cache \<Rightarrow> (u32 \<times> decoded_block) set" where
  "cached c = {(addr, blk). bc_find c addr = Some blk}"

interpretation block_memo: memo_cache cached bc_find block_put bc_clear
  by unfold_locales (auto simp: cached_def bc_find_def block_put_def bc_clear_def split: if_splits)

text \<open>
  C12. Translation is semantics-preserving: from a cache whose blocks agree with the memory,
  \<open>translate\<close> returns the block that agrees with the memory, and there is only one: the words
  from the program counter on, up to and with the first one that is a control transfer
  (\<open>HALT\<close>, \<open>JMP\<close>, \<open>BEQ\<close>, \<open>BNE\<close>), that is the last before a 64-byte line boundary or that
  is the \<open>max_len\<close>-th. The block is in the cache afterwards, and the cache agrees with the memory again.
  When decoding fails, it fails with the first word that cannot be read, no word before it
  ends the block, and no block is added. (All calls with the same \<open>max_len\<close>, as in the sources.)
\<close>

theorem block_translate_agrees:
  assumes "coherent (block_ok rd max_len) (cached c)" and "0 < max_len"
  shows "case block_translate rd addr max_len c of
     (r, c') \<Rightarrow> coherent (block_ok rd max_len) (cached c') \<and>
       (case r of
          Ok blk \<Rightarrow> (\<forall>b. block_ok rd max_len addr b \<longleftrightarrow> b = blk) \<and> bc_find c' addr = Some blk
        | _ \<Rightarrow> blocks c' = blocks c \<and> (\<exists>i < max_len. fails_at rd addr i r))"
proof (cases "bc_find c addr")
  case (Some blk)
  then have "block_ok rd max_len addr blk"
    by (rule block_memo.lookup_coherent [OF assms(1)])
  with Some assms(1) show ?thesis
    by (auto simp: block_translate_def bc_find_def cached_def intro: block_ok_unique)
next
  case None
  let ?c = "c\<lparr>bc_misses := bc_misses c + 1\<rparr>"
  have coh: "coherent (block_ok rd max_len) (cached ?c)"
    using assms(1) by (simp add: cached_def bc_find_def)
  have eq: "block_translate rd addr max_len c = (case decode_block rd addr max_len of
      Ok blk \<Rightarrow> (Ok blk, block_put addr blk ?c) | Err e \<Rightarrow> (Err e, ?c) | Undef \<Rightarrow> (Undef, ?c))"
    using None by (simp add: block_translate_def bc_find_def bind_def split: res.split)
  show ?thesis
  proof (cases "decode_block rd addr max_len")
    case (Ok blk)
    with assms(2) have ok: "block_ok rd max_len addr blk" by (rule decode_block_ok)
    then have "\<forall>b. block_ok rd max_len addr b \<longleftrightarrow> b = blk" by (blast intro: block_ok_unique)
    with Ok ok coh show ?thesis
      by (simp add: eq block_memo.fill_coherent) (simp add: bc_find_def block_put_def)
  next
    case (Err e)
    with decode_loop_fails [of rd max_len addr _ "Err e"]
    have "\<exists>i < max_len. fails_at rd addr i (Err e)" by (simp add: decode_block_def)
    with Err coh show ?thesis by (simp add: eq)
  next
    case Undef
    with decode_loop_fails [of rd max_len addr _ "Undef"]
    have "\<exists>i < max_len. fails_at rd addr i Undef" by (simp add: decode_block_def)
    with Undef coh show ?thesis by (simp add: eq)
  qed
qed

text \<open>
  A memory with four words, the third a branch: the block is the first three, and it is the
  only one that agrees with the memory.
\<close>

definition small_text :: "u32 list" where
  "small_text = [enc_movi 1 5, enc_add 2 2 1, enc_bne 2 1 0, enc_halt]"

definition small_read :: "u32 \<Rightarrow> u32 res" where
  "small_read a = (if unat a < 16 then Ok (small_text ! (unat a div 4)) else Undef)"

theorem block_translate_agrees_witness:
  "\<exists>blk c'. block_translate small_read 0 32 block_cache_init = (Ok blk, c')
     \<and> (\<forall>b. block_ok small_read 32 0 b \<longleftrightarrow> b = blk) \<and> bc_find c' 0 = Some blk
     \<and> map raw (ops blk) = take 3 small_text \<and> ends_with_branch blk"
proof -
  have r: "map_res (\<lambda>b. (map raw (ops b), ends_with_branch b)) (fst (block_translate small_read 0 32 block_cache_init))
      = Ok (take 3 small_text, True)"
    by code_simp
  then obtain blk c' where b: "block_translate small_read 0 32 block_cache_init = (Ok blk, c')"
    "map raw (ops blk) = take 3 small_text" "ends_with_branch blk"
    by (cases "block_translate small_read 0 32 block_cache_init"; cases "fst (block_translate small_read 0 32 block_cache_init)") auto
  have "coherent (block_ok small_read 32) (cached block_cache_init)"
    by (simp add: coherent_def cached_def bc_find_def block_cache_init_def)
  from block_translate_agrees [OF this, of 0] b show ?thesis by simp
qed

end
