(* ===== verification/Format.thy ===== *)
theory Format
  imports Prelude
begin

text \<open>
  The conversions of \<open>snprintf\<close> that the sources use to build strings: \<open>%d\<close> and \<open>%u\<close>
  (decimal), \<open>%08X\<close> (eight upper-case hexadecimal digits) and \<open>%-32s\<close> (padding on the
  right). The length bounds are what shows that the fixed buffers of the sources are large
  enough.
\<close>

definition digit_char :: "nat \<Rightarrow> char" where
  "digit_char d = (if d < 10 then char_of (48 + d) else char_of (55 + d))"

fun show_base :: "nat \<Rightarrow> nat \<Rightarrow> string" where
  "show_base b n = (if b < 2 \<or> n < b then [digit_char n]
                    else show_base b (n div b) @ [digit_char (n mod b)])"

declare show_base.simps [simp del]

definition fmt_u :: "nat \<Rightarrow> string" where
  "fmt_u n = show_base 10 n"

definition fmt_d :: "int \<Rightarrow> string" where
  "fmt_d i = (if i < 0 then CHR ''-'' # fmt_u (nat (- i)) else fmt_u (nat i))"

definition pad_left :: "nat \<Rightarrow> char \<Rightarrow> string \<Rightarrow> string" where
  "pad_left w c s = replicate (w - length s) c @ s"

definition pad_right :: "nat \<Rightarrow> char \<Rightarrow> string \<Rightarrow> string" where
  "pad_right w c s = s @ replicate (w - length s) c"

definition fmt_08X :: "u32 \<Rightarrow> string" where
  "fmt_08X w = pad_left 8 (CHR ''0'') (show_base 16 (unat w))"

abbreviation u32_text :: "u32 \<Rightarrow> string" where "u32_text w \<equiv> fmt_u (unat w)"
abbreviation u64_text :: "u64 \<Rightarrow> string" where "u64_text w \<equiv> fmt_u (unat w)"

text \<open>What \<open>snprintf\<close> leaves in a buffer of the given size: at most \<open>sz - 1\<close> characters.\<close>

definition snprintf :: "nat \<Rightarrow> string \<Rightarrow> string" where
  "snprintf sz s = take (sz - 1) s"

lemma length_show_base: "2 \<le> b \<Longrightarrow> n < b ^ Suc k \<Longrightarrow> length (show_base b n) \<le> Suc k"
proof (induction k arbitrary: n)
  case 0
  then show ?case by (simp add: show_base.simps)
next
  case (Suc k)
  from Suc.prems have "n div b < b ^ Suc k"
    by (simp add: less_mult_imp_div_less mult.commute)
  with Suc have "length (show_base b (n div b)) \<le> Suc k" by simp
  then show ?case by (subst show_base.simps) simp
qed

lemma length_fmt_u: "n < 10 ^ Suc k \<Longrightarrow> length (fmt_u n) \<le> Suc k"
  unfolding fmt_u_def by (rule length_show_base) simp_all

lemma length_fmt_d: "\<bar>i\<bar> < 10 ^ Suc k \<Longrightarrow> length (fmt_d i) \<le> Suc (Suc k)"
proof -
  assume "\<bar>i\<bar> < 10 ^ Suc k"
  then have "int (nat \<bar>i\<bar>) < int (10 ^ Suc k)" by simp
  then have "nat \<bar>i\<bar> < 10 ^ Suc k" by (simp only: of_nat_less_iff)
  then have "length (fmt_u (nat \<bar>i\<bar>)) \<le> Suc k" by (rule length_fmt_u)
  then show ?thesis by (cases "i < 0") (auto simp: fmt_d_def)
qed

lemma length_fmt_08X [simp]: "length (fmt_08X w) = 8"
proof -
  have "unat w < 16 ^ Suc 7" using unat_u32_less [of w] by (simp del: unat_u32_less)
  then have "length (show_base 16 (unat w)) \<le> 8"
    using length_show_base [of 16 "unat w" 7] by simp
  then show ?thesis by (simp add: fmt_08X_def pad_left_def)
qed

lemma length_u32_text: "length (u32_text w) \<le> 10"
  using length_fmt_u [of "unat w" 9] unat_u32_less [of w] by (simp del: unat_u32_less)

lemma length_u64_text: "length (u64_text w) \<le> 20"
proof -
  have "unat w < 10 ^ Suc 19" using unsigned_less [of w, where 'a = nat] by simp
  then show ?thesis using length_fmt_u [of "unat w" 19] by simp
qed

lemma snprintf_fits: "length s < n \<Longrightarrow> snprintf n s = s"
  by (simp add: snprintf_def)

end
