(* ===== verification/Disasm.thy ===== *)
theory Disasm
  imports Isa Format
begin

text \<open>
  The disassembler of \<^verbatim>\<open>include/aiasm/isa.h\<close>, character for character. Its results
  are built in a buffer of 128 bytes; \<open>disassemble_fits\<close> shows that no instruction word
  makes \<open>snprintf\<close> truncate.
\<close>

section \<open>The disassembler\<close>

definition reg_s :: "u8 \<Rightarrow> string" where "reg_s r = ''r'' @ fmt_d (uint r)"
definition vreg_s :: "u8 \<Rightarrow> string" where "vreg_s r = ''v'' @ fmt_d (uint r)"

text \<open>The text of each \<open>snprintf\<close> call, before it is stored in the 128-byte buffer.\<close>

definition disasm_text :: "instruction \<Rightarrow> string" where
  "disasm_text i = (case instr_opcode i of
     NOP \<Rightarrow> ''NOP''
   | HALT \<Rightarrow> ''HALT''
   | JMP \<Rightarrow> ''JMP  0x'' @ fmt_08X (instr_target i)
   | BEQ \<Rightarrow> ''BEQ  '' @ reg_s (instr_rd i) @ '', '' @ reg_s (instr_ra i) @ '', ''
            @ fmt_d (sint (instr_offset i))
   | BNE \<Rightarrow> ''BNE  '' @ reg_s (instr_rd i) @ '', '' @ reg_s (instr_ra i) @ '', ''
            @ fmt_d (sint (instr_offset i))
   | ADD \<Rightarrow> ''ADD  '' @ reg_s (instr_rd i) @ '', '' @ reg_s (instr_ra i) @ '', ''
            @ reg_s (instr_rb i)
   | SUB \<Rightarrow> ''SUB  '' @ reg_s (instr_rd i) @ '', '' @ reg_s (instr_ra i) @ '', ''
            @ reg_s (instr_rb i)
   | MUL \<Rightarrow> ''MUL  '' @ reg_s (instr_rd i) @ '', '' @ reg_s (instr_ra i) @ '', ''
            @ reg_s (instr_rb i)
   | LOAD \<Rightarrow> ''LOAD '' @ reg_s (instr_rd i) @ '', '' @ reg_s (instr_ra i) @ '', ''
            @ fmt_d (sint (instr_simm16 i))
   | STORE \<Rightarrow> ''STORE '' @ reg_s (instr_rd i) @ '', '' @ reg_s (instr_ra i) @ '', ''
            @ fmt_d (sint (instr_simm16 i))
   | MOV \<Rightarrow> ''MOV  '' @ reg_s (instr_rd i) @ '', '' @ reg_s (instr_ra i)
   | MOVI \<Rightarrow> ''MOVI '' @ reg_s (instr_rd i) @ '', #'' @ fmt_d (uint (instr_imm16 i))
   | LOAD_VR \<Rightarrow> ''LOAD_VR  '' @ vreg_s (instr_rd i) @ '', '' @ reg_s (instr_ra i) @ '', ''
            @ fmt_d (sint (instr_simm16 i))
   | STORE_VR \<Rightarrow> ''STORE_VR '' @ vreg_s (instr_rd i) @ '', '' @ reg_s (instr_ra i) @ '', ''
            @ fmt_d (sint (instr_simm16 i))
   | VEC_ADD \<Rightarrow> ''VEC_ADD  '' @ vreg_s (instr_rd i) @ '', '' @ vreg_s (instr_ra i) @ '', ''
            @ vreg_s (instr_rb i)
   | MATMUL_TILE \<Rightarrow> ''MATMUL_TILE '' @ vreg_s (instr_rd i) @ '', '' @ vreg_s (instr_ra i) @ '', ''
            @ vreg_s (instr_rb i) @ '', N='' @ fmt_d (uint (instr_func i))
   | DMA_LOAD \<Rightarrow> ''DMA_LOAD  '' @ reg_s (instr_rd i) @ '', '' @ reg_s (instr_ra i) @ '', ''
            @ fmt_d (uint (instr_func i)) @ '' bytes''
   | DMA_STORE \<Rightarrow> ''DMA_STORE '' @ reg_s (instr_rd i) @ '', '' @ reg_s (instr_ra i) @ '', ''
            @ fmt_d (uint (instr_func i)) @ '' bytes''
   | OtherOp _ \<Rightarrow> ''???'')"

definition disassemble :: "instruction \<Rightarrow> string" where
  "disassemble i = snprintf 128 (disasm_text i)"

lemma length_reg_s: "length (reg_s r) \<le> 5" "length (vreg_s r) \<le> 5"
proof -
  have "\<bar>uint r\<bar> < 10 ^ Suc 2"
    using uint_lt2p [of r] by simp
  from length_fmt_d [OF this] show "length (reg_s r) \<le> 5" "length (vreg_s r) \<le> 5"
    by (simp_all add: reg_s_def vreg_s_def)
qed

lemma length_fmt_fields:
  "length (fmt_d (sint (instr_simm16 i))) \<le> 11" "length (fmt_d (sint (instr_offset i))) \<le> 11"
  "length (fmt_d (uint (instr_imm16 i))) \<le> 11" "length (fmt_d (uint (instr_func i))) \<le> 11"
proof -
  have s32: "\<bar>sint (w :: u32)\<bar> < 10 ^ Suc 9" for w
    using sint_ge [of w] sint_lt [of w] by (simp add: abs_less_iff)
  have u16: "\<bar>uint (w :: u16)\<bar> < 10 ^ Suc 9" for w
    using uint_lt2p [of w] by simp
  show "length (fmt_d (sint (instr_simm16 i))) \<le> 11"
    "length (fmt_d (sint (instr_offset i))) \<le> 11"
    using length_fmt_d [OF s32, of "instr_simm16 i"] length_fmt_d [OF s32, of "instr_offset i"]
    by simp_all
  show "length (fmt_d (uint (instr_imm16 i))) \<le> 11" "length (fmt_d (uint (instr_func i))) \<le> 11"
    using length_fmt_d [OF u16, of "instr_imm16 i"] length_fmt_d [OF u16, of "instr_func i"]
    by simp_all
qed

lemma disasm_text_short: "length (disasm_text i) \<le> 60"
  using length_fmt_fields [of i] length_reg_s [of "instr_rd i"] length_reg_s [of "instr_ra i"]
    length_reg_s [of "instr_rb i"]
  by (cases "instr_opcode i") (simp_all add: disasm_text_def)

text \<open>
  The disassembler returns the complete text for every 32-bit word: no instruction makes
  \<open>snprintf\<close> truncate at its 128-byte buffer.
\<close>

theorem disassemble_fits: "disassemble i = disasm_text i \<and> length (disassemble i) < 128"
  using disasm_text_short [of i] by (simp add: disassemble_def snprintf_def)

end
