(* ===== verification/Asm.thy ===== *)
theory Asm
  imports Isa
begin

text \<open>
  The assembly language that the \<open>enc\<close> constructors of \<^verbatim>\<open>include/aiasm/isa.h\<close> encode,
  as a datatype: \<open>assemble\<close> is the constructor call for each instruction, \<open>decode\<close> reads the
  instruction back through the field accessors that the handlers and the disassembler use.
\<close>

datatype asm =
    Nop | Halt | Jmp u32 | Beq u8 u8 u16 | Bne u8 u8 u16
  | Add u8 u8 u8 | Sub u8 u8 u8 | Mul u8 u8 u8
  | Load u8 u8 u16 | Store u8 u8 u16 | Mov u8 u8 | Movi u8 u16
  | LoadVr u8 u8 u16 | StoreVr u8 u8 u16
  | VecAdd u8 u8 u8 | MatmulTile u8 u8 u8 u8 | DmaLoad u8 u8 u16 | DmaStore u8 u8 u16

fun assemble :: "asm \<Rightarrow> u32" where
  "assemble Nop = enc_nop"
| "assemble Halt = enc_halt"
| "assemble (Jmp addr) = enc_jmp addr"
| "assemble (Beq ra rb off) = enc_beq ra rb off"
| "assemble (Bne ra rb off) = enc_bne ra rb off"
| "assemble (Add rd ra rb) = enc_add rd ra rb"
| "assemble (Sub rd ra rb) = enc_sub rd ra rb"
| "assemble (Mul rd ra rb) = enc_mul rd ra rb"
| "assemble (Load rd ra imm) = enc_load rd ra imm"
| "assemble (Store rs ra imm) = enc_store rs ra imm"
| "assemble (Mov rd ra) = enc_mov rd ra"
| "assemble (Movi rd imm) = enc_movi rd imm"
| "assemble (LoadVr vr ra imm) = enc_load_vr vr ra imm"
| "assemble (StoreVr vr ra imm) = enc_store_vr vr ra imm"
| "assemble (VecAdd vd va vb) = enc_vec_add vd va vb"
| "assemble (MatmulTile vd va vb n) = enc_matmul_tile vd va vb n"
| "assemble (DmaLoad rd ra bytes) = enc_dma_load rd ra bytes"
| "assemble (DmaStore rd ra bytes) = enc_dma_store rd ra bytes"

fun decode_op :: "opcode \<Rightarrow> instruction \<Rightarrow> asm option" where
  "decode_op NOP i = Some Nop"
| "decode_op HALT i = Some Halt"
| "decode_op JMP i = Some (Jmp (instr_target i))"
| "decode_op BEQ i = Some (Beq (instr_rd i) (instr_ra i) (ucast (instr_offset i)))"
| "decode_op BNE i = Some (Bne (instr_rd i) (instr_ra i) (ucast (instr_offset i)))"
| "decode_op ADD i = Some (Add (instr_rd i) (instr_ra i) (instr_rb i))"
| "decode_op SUB i = Some (Sub (instr_rd i) (instr_ra i) (instr_rb i))"
| "decode_op MUL i = Some (Mul (instr_rd i) (instr_ra i) (instr_rb i))"
| "decode_op LOAD i = Some (Load (instr_rd i) (instr_ra i) (ucast (instr_simm16 i)))"
| "decode_op STORE i = Some (Store (instr_rd i) (instr_ra i) (ucast (instr_simm16 i)))"
| "decode_op MOV i = Some (Mov (instr_rd i) (instr_ra i))"
| "decode_op MOVI i = Some (Movi (instr_rd i) (instr_imm16 i))"
| "decode_op LOAD_VR i = Some (LoadVr (instr_rd i) (instr_ra i) (ucast (instr_simm16 i)))"
| "decode_op STORE_VR i = Some (StoreVr (instr_rd i) (instr_ra i) (ucast (instr_simm16 i)))"
| "decode_op VEC_ADD i = Some (VecAdd (instr_rd i) (instr_ra i) (instr_rb i))"
| "decode_op MATMUL_TILE i = Some (MatmulTile (instr_rd i) (instr_ra i) (instr_rb i) (ucast (instr_func i)))"
| "decode_op DMA_LOAD i = Some (DmaLoad (instr_rd i) (instr_ra i) (instr_func i))"
| "decode_op DMA_STORE i = Some (DmaStore (instr_rd i) (instr_ra i) (instr_func i))"
| "decode_op (OtherOp c) i = None"

definition decode :: "u32 \<Rightarrow> asm option" where
  "decode w = decode_op (instr_opcode \<lparr>raw = w\<rparr>) \<lparr>raw = w\<rparr>"

text \<open>The operands fit their fields: five bits for a register, eleven for a byte count.\<close>

definition reg5 :: "u8 \<Rightarrow> bool" where "reg5 r \<longleftrightarrow> r < 32"

fun asm_fits :: "asm \<Rightarrow> bool" where
  "asm_fits Nop \<longleftrightarrow> True"
| "asm_fits Halt \<longleftrightarrow> True"
| "asm_fits (Jmp addr) \<longleftrightarrow> addr < 0x4000000"
| "asm_fits (Beq ra rb off) \<longleftrightarrow> reg5 ra \<and> reg5 rb"
| "asm_fits (Bne ra rb off) \<longleftrightarrow> reg5 ra \<and> reg5 rb"
| "asm_fits (Add rd ra rb) \<longleftrightarrow> reg5 rd \<and> reg5 ra \<and> reg5 rb"
| "asm_fits (Sub rd ra rb) \<longleftrightarrow> reg5 rd \<and> reg5 ra \<and> reg5 rb"
| "asm_fits (Mul rd ra rb) \<longleftrightarrow> reg5 rd \<and> reg5 ra \<and> reg5 rb"
| "asm_fits (Load rd ra imm) \<longleftrightarrow> reg5 rd \<and> reg5 ra"
| "asm_fits (Store rs ra imm) \<longleftrightarrow> reg5 rs \<and> reg5 ra"
| "asm_fits (Mov rd ra) \<longleftrightarrow> reg5 rd \<and> reg5 ra"
| "asm_fits (Movi rd imm) \<longleftrightarrow> reg5 rd"
| "asm_fits (LoadVr vr ra imm) \<longleftrightarrow> reg5 vr \<and> reg5 ra"
| "asm_fits (StoreVr vr ra imm) \<longleftrightarrow> reg5 vr \<and> reg5 ra"
| "asm_fits (VecAdd vd va vb) \<longleftrightarrow> reg5 vd \<and> reg5 va \<and> reg5 vb"
| "asm_fits (MatmulTile vd va vb n) \<longleftrightarrow> reg5 vd \<and> reg5 va \<and> reg5 vb"
| "asm_fits (DmaLoad rd ra bytes) \<longleftrightarrow> reg5 rd \<and> reg5 ra \<and> bytes < 0x800"
| "asm_fits (DmaStore rd ra bytes) \<longleftrightarrow> reg5 rd \<and> reg5 ra \<and> bytes < 0x800"

section \<open>Lemmas\<close>

lemma and_mask_less: "unat (w :: 'a::len word) < 2 ^ n \<Longrightarrow> w AND mask n = w"
  by (metis take_bit_eq_mask take_bit_nat_eq_self unsigned_take_bit_eq word_unat_eq_iff)

lemma reg5_mask: "reg5 r \<Longrightarrow> r AND 0x1F = r"
  by (simp add: reg5_def mask_simps and_mask_less word_less_nat_alt)

lemma target_mask: "(a :: u32) < 0x4000000 \<Longrightarrow> a AND 0x3FFFFFF = a"
  by (simp add: mask_simps and_mask_less word_less_nat_alt)

lemma func_mask: "(b :: u16) < 0x800 \<Longrightarrow> b AND 0x7FF = b"
  by (simp add: mask_simps and_mask_less word_less_nat_alt)

lemma tile_mask: "(ucast (ucast (n :: u8) AND (0x7FF :: u16)) :: u8) = n"
  by (rule bit_word_eqI) (auto simp: bit_simps mask_simps)

lemma ucast_scast_imm [simp]: "(ucast (scast (w :: u16) :: u32) :: u16) = w"
proof (rule bit_word_eqI)
  fix n assume "n < LENGTH(16)"
  then show "bit (ucast (scast w :: u32) :: u16) n = bit w n"
    by (cases "n = 15") (auto simp: bit_simps min_def)
qed

lemma named_ok: "op \<in> set named_opcodes \<Longrightarrow> canonical_op op \<and> opcode_code op < 64"
  by (simp add: named_canonical named_opcode_code_less)

lemma make_field: "op \<in> set named_opcodes \<Longrightarrow> instr_opcode \<lparr>raw = enc_make op\<rparr> = op"
  using rtype_fields(1) [of op 0 0 0 0] named_ok [of op]
  by (simp add: enc_make_def enc_rtype_def)

lemmas field_lemmas = rtype_fields itype_fields jtype_fields btype_fields make_field
  named_ok reg5_mask target_mask func_mask tile_mask

lemmas enc_unfold = enc_nop_def enc_halt_def enc_jmp_def enc_beq_def enc_bne_def
  enc_add_def enc_sub_def enc_mul_def enc_mov_def enc_movi_def enc_load_def enc_store_def
  enc_load_vr_def enc_store_vr_def enc_vec_add_def enc_matmul_tile_def enc_dma_load_def
  enc_dma_store_def

lemma decode_assemble: "asm_fits a \<Longrightarrow> decode (assemble a) = Some a"
  by (cases a) (simp_all add: decode_def enc_unfold field_lemmas named_opcodes_def)

text \<open>
  C13. Encoding loses nothing: every instruction whose operands fit their fields is decoded
  back from the word the encoder produces, opcode, registers, immediates (with their sign),
  jump target, tile size and byte count alike.
\<close>

theorem asm_roundtrip: "asm_fits a \<Longrightarrow> decode (assemble a) = Some a"
  by (rule decode_assemble)

theorem asm_roundtrip_witness:
  "decode (assemble (Beq 3 31 0xFFFC)) = Some (Beq 3 31 0xFFFC) \<and> assemble (Beq 3 31 0xFFFC) = 0x0C7FFFFC"
proof -
  have "assemble (Beq 3 31 0xFFFC) = 0x0C7FFFFC" by code_simp
  then show ?thesis using asm_roundtrip [of "Beq 3 31 0xFFFC"] by (simp add: reg5_def)
qed

text \<open>
  Conversely the fields determine the word: re-encoding the decoded opcode, registers and
  function field of any 32-bit word in R-type format gives the word back.
\<close>

theorem decode_encode: "enc_rtype (instr_opcode i) (instr_rd i) (instr_ra i) (instr_rb i) (instr_func i) = raw i"
  by (rule rtype_reencode)

end
