(* ===== verification/Decoder.thy ===== *)
theory Decoder
  imports Asm "HOL-Library.Signed_Division" "HOL-Library.Sublist"
begin

text \<open>
  The translation engine of \<^verbatim>\<open>include/aiasm/decoder.h\<close> and \<^verbatim>\<open>src/decoder.cpp\<close>:
  guest code of another instruction set is turned into Novium words before it is loaded. The
  single-instruction decoders return the words they push, or \<open>None\<close> where the code returns
  \<open>false\<close> (it pushes nothing then). \<open>int32_t\<close> values are two's complement words.

  The theorems say what a caller relies on: every word emitted for a foreign instruction set
  names registers that exist, register-register arithmetic is translated to the same operation
  on the same registers, native code passes through unchanged, a PTX program always ends in
  \<open>HALT\<close>, and the statistics count what was emitted.
\<close>

section \<open>Data\<close>

datatype guest_isa = Native | ARM64 | RISCV64 | PTX | AsicUcode

fun guest_isa_name :: "guest_isa \<Rightarrow> string" where
  "guest_isa_name Native = ''novium-native''"
| "guest_isa_name ARM64 = ''arm64''"
| "guest_isa_name RISCV64 = ''riscv64''"
| "guest_isa_name PTX = ''ptx''"
| "guest_isa_name AsicUcode = ''asic-ucode''"

record translation_stats =
  decoded :: u64
  emitted :: u64
  folded :: u64

definition stats_init :: translation_stats where
  "stats_init = \<lparr>decoded = 0, emitted = 0, folded = 0\<rparr>"

section \<open>RISC-V\<close>

text \<open>\<open>uint8_t(r & 0xF)\<close>: a guest register number reduced to a Novium one.\<close>

definition lo4 :: "u32 \<Rightarrow> u8" where
  "lo4 r = ucast (r AND 0xF)"

text \<open>\<open>int16_t((imm - 4) / 4)\<close>: signed division truncates towards zero.\<close>

definition branch_words :: "u32 \<Rightarrow> u16" where
  "branch_words imm = word_of_int (sint (imm - 4) sdiv 4)"

definition rv_i_imm :: "u32 \<Rightarrow> u16" where
  "rv_i_imm w = ucast (signed_drop_bit 20 w AND 0xFFFF)"

definition rv_s_imm :: "u32 \<Rightarrow> u32" where
  "rv_s_imm w = (let imm = push_bit 5 (drop_bit 25 w) OR (drop_bit 7 w AND 0x1F)
     in if w AND 0x80000000 \<noteq> 0 then imm OR 0xFFFFF000 else imm)"

definition rv_b_imm :: "u32 \<Rightarrow> u32" where
  "rv_b_imm w = (let imm = push_bit 12 (drop_bit 31 w AND 1) OR push_bit 11 (drop_bit 7 w AND 1)
       OR push_bit 5 (drop_bit 25 w AND 0x3F) OR push_bit 1 (drop_bit 8 w AND 0xF)
     in if imm AND 0x1000 \<noteq> 0 then imm OR 0xFFFFE000 else imm)"

definition rv_j_imm :: "u32 \<Rightarrow> u32" where
  "rv_j_imm w = (let imm = push_bit 20 (drop_bit 31 w AND 1) OR push_bit 12 (drop_bit 12 w AND 0xFF)
       OR push_bit 11 (drop_bit 20 w AND 1) OR push_bit 1 (drop_bit 21 w AND 0x3FF)
     in if imm AND 0x100000 \<noteq> 0 then imm OR 0xFFE00000 else imm)"

text \<open>
  An R-type word of another function, and a branch other than \<open>BEQ\<close> and \<open>BNE\<close>, falls through
  all the later tests, which look at other opcodes, to \<open>return false\<close>.
\<close>

definition translate_one_riscv :: "u32 \<Rightarrow> u32 list option" where
  "translate_one_riscv w =
    (let opc = w AND 0x7F;
         rd = drop_bit 7 w AND 0x1F;
         rs1 = drop_bit 15 w AND 0x1F;
         rs2 = drop_bit 20 w AND 0x1F;
         funct3 = drop_bit 12 w AND 0x7;
         funct7 = drop_bit 25 w AND 0x7F
     in if opc = 0x33 \<and> funct3 = 0 \<and> funct7 = 0x00 then Some [enc_add (lo4 rd) (lo4 rs1) (lo4 rs2)]
        else if opc = 0x33 \<and> funct3 = 0 \<and> funct7 = 0x20 then Some [enc_sub (lo4 rd) (lo4 rs1) (lo4 rs2)]
        else if opc = 0x33 \<and> funct3 = 0 \<and> funct7 = 0x01 then Some [enc_mul (lo4 rd) (lo4 rs1) (lo4 rs2)]
        else if opc = 0x13 then Some [enc_movi 15 (rv_i_imm w), enc_add (lo4 rd) (lo4 rs1) 15]
        else if opc = 0x03 then Some [enc_load (lo4 rd) (lo4 rs1) (rv_i_imm w)]
        else if opc = 0x23 then Some [enc_store (lo4 rs2) (lo4 rs1) (ucast (rv_s_imm w AND 0xFFFF))]
        else if opc = 0x63 \<and> funct3 = 0 then Some [enc_beq (lo4 rs1) (lo4 rs2) (branch_words (rv_b_imm w))]
        else if opc = 0x63 \<and> funct3 = 1 then Some [enc_bne (lo4 rs1) (lo4 rs2) (branch_words (rv_b_imm w))]
        else if opc = 0x6F then Some [enc_jmp (rv_j_imm w AND TARGET_MASK)]
        else None)"

section \<open>ARM64\<close>

definition arm_b_imm :: "u32 \<Rightarrow> u32" where
  "arm_b_imm w = (let imm = push_bit 2 (w AND 0x3FFFFFF)
     in if imm AND 0x08000000 \<noteq> 0 then imm OR 0xF0000000 else imm)"

definition translate_one_arm64 :: "u32 \<Rightarrow> u32 list option" where
  "translate_one_arm64 w =
    (let top = drop_bit 24 w AND 0xFF;
         rd = w AND 0x1F;
         rn = drop_bit 5 w AND 0x1F;
         rm = drop_bit 16 w AND 0x1F
     in if top AND 0xFE = 0x8A then Some [enc_add (lo4 rd) (lo4 rn) (lo4 rm)]
        else if top AND 0xFE = 0xCA then Some [enc_sub (lo4 rd) (lo4 rn) (lo4 rm)]
        else if w AND 0xFF800000 = 0x52800000
          then Some [enc_movi (lo4 rd) (ucast (drop_bit 5 w AND 0xFFFF))]
        else if w AND 0xFC000000 = 0x14000000 then Some [enc_jmp (arm_b_imm w AND TARGET_MASK)]
        else if w AND 0xFFC00000 = 0xF9400000
          then Some [enc_load (lo4 rd) (lo4 rn) (ucast ((drop_bit 10 w AND 0xFFF) * 8 AND 0xFFFF))]
        else if w AND 0xFFE0FC00 = 0x4E20D400
          then Some [enc_vec_add (ucast (rd mod 8)) (ucast (rn mod 8)) (ucast (rm mod 8))]
        else None)"

section \<open>PTX\<close>

text \<open>\<open>s.find("//")\<close> and \<open>substr(0, c)\<close>.\<close>

fun strip_comment :: "string \<Rightarrow> string" where
  "strip_comment (a # b # s) = (if a = CHR ''/'' \<and> b = CHR ''/'' then [] else a # strip_comment (b # s))"
| "strip_comment s = s"

definition ptx_space :: "char \<Rightarrow> bool" where
  "ptx_space c \<longleftrightarrow> c \<in> {CHR '' '', CHR 0x09, CHR 0x0D, CHR 0x0A}"

definition trim_ws :: "string \<Rightarrow> string" where
  "trim_ws s = rev (dropWhile ptx_space (rev (dropWhile ptx_space s)))"

text \<open>\<open>std::tolower\<close> in the \<open>"C"\<close> locale changes the twenty-six capital letters only.\<close>

definition tolower :: "char \<Rightarrow> char" where
  "tolower c = (let n = of_char c :: nat in if 65 \<le> n \<and> n \<le> 90 then char_of (n + 32) else c)"

definition translate_one_ptx :: "string \<Rightarrow> u32 list option" where
  "translate_one_ptx line =
    (let s = trim_ws (strip_comment line);
         low = map tolower s
     in if s = [] then None
        else if prefix ''add.'' low then Some [enc_vec_add 2 0 1]
        else if prefix ''fma'' low \<or> prefix ''mma'' low then Some [enc_matmul_tile 3 0 1 4]
        else if prefix ''ld.'' low then Some [enc_load_vr 0 5 0]
        else if prefix ''st.'' low then Some [enc_store_vr 3 5 0]
        else if prefix ''mov'' low then Some [enc_movi 1 1]
        else if prefix ''ret'' low \<or> prefix ''exit'' low then Some [enc_halt]
        else None)"

lemma rest_shorter: "s \<noteq> [] \<Longrightarrow> length (dropWhile P s) - Suc 0 < length s"
  using length_dropWhile_le [of P s] by (cases s) simp_all

text \<open>The lines that repeated \<open>std::getline\<close> delivers.\<close>

function getlines :: "string \<Rightarrow> string list" where
  "getlines s = (if s = [] then [] else
     takeWhile (\<lambda>c. c \<noteq> CHR 0x0A) s # getlines (drop 1 (dropWhile (\<lambda>c. c \<noteq> CHR 0x0A) s)))"
  by pat_completeness auto
termination
  by (relation "measure length") (simp_all add: rest_shorter)

declare getlines.simps [simp del]

section \<open>Whole programs\<close>

type_synonym translation = "u32 list \<times> translation_stats"

text \<open>The loop body for fixed-width guests: an unknown word becomes \<open>NOP\<close>.\<close>

fun emit_word :: "(u32 \<Rightarrow> u32 list option) \<Rightarrow> u32 \<Rightarrow> translation \<Rightarrow> translation" where
  "emit_word f w (out, st) = (case f w of
     Some tmp \<Rightarrow> (out @ tmp, st\<lparr>decoded := decoded st + 1, emitted := emitted st + of_nat (length tmp)\<rparr>)
   | None \<Rightarrow> (out @ [enc_nop], st))"

text \<open>The loop body for PTX: an unknown line is skipped.\<close>

fun emit_line :: "string \<Rightarrow> translation \<Rightarrow> translation" where
  "emit_line l (out, st) = (case translate_one_ptx l of
     Some tmp \<Rightarrow> (out @ tmp, st\<lparr>decoded := decoded st + 1, emitted := emitted st + of_nat (length tmp)\<rparr>)
   | None \<Rightarrow> (out, st))"

definition emit_all :: "(u32 \<Rightarrow> u32 list option) \<Rightarrow> u32 list \<Rightarrow> translation" where
  "emit_all f ws = fold (emit_word f) ws ([], stats_init)"

definition pass_through :: "u32 list \<Rightarrow> translation" where
  "pass_through ws = (ws, stats_init\<lparr>decoded := of_nat (length ws), emitted := of_nat (length ws)\<rparr>)"

definition ptx_text :: "u8 list \<Rightarrow> string" where
  "ptx_text bs = map (\<lambda>b. char_of (unat b)) bs"

definition ends_in_halt :: "u32 list \<Rightarrow> bool" where
  "ends_in_halt out \<longleftrightarrow> out \<noteq> [] \<and> drop_bit OPCODE_SHIFT (last out) = ucast (opcode_code HALT)"

fun translate_bytes :: "guest_isa \<Rightarrow> u8 list \<Rightarrow> translation" where
  "translate_bytes Native bs = pass_through (words_of_bytes bs)"
| "translate_bytes RISCV64 bs = emit_all translate_one_riscv (words_of_bytes bs)"
| "translate_bytes ARM64 bs = emit_all translate_one_arm64 (words_of_bytes bs)"
| "translate_bytes PTX bs =
     (case fold emit_line (getlines (ptx_text bs)) ([], stats_init) of
        (out, st) \<Rightarrow> (if ends_in_halt out then out else out @ [enc_halt], st))"
| "translate_bytes AsicUcode bs = pass_through (words_of_bytes bs)"

section \<open>Emitted words\<close>

text \<open>The registers an instruction names exist: sixteen scalar and eight vector registers.\<close>

fun asm_regs_ok :: "asm \<Rightarrow> bool" where
  "asm_regs_ok Nop \<longleftrightarrow> True"
| "asm_regs_ok Halt \<longleftrightarrow> True"
| "asm_regs_ok (Jmp addr) \<longleftrightarrow> True"
| "asm_regs_ok (Beq ra rb off) \<longleftrightarrow> ra < 16 \<and> rb < 16"
| "asm_regs_ok (Bne ra rb off) \<longleftrightarrow> ra < 16 \<and> rb < 16"
| "asm_regs_ok (Add rd ra rb) \<longleftrightarrow> rd < 16 \<and> ra < 16 \<and> rb < 16"
| "asm_regs_ok (Sub rd ra rb) \<longleftrightarrow> rd < 16 \<and> ra < 16 \<and> rb < 16"
| "asm_regs_ok (Mul rd ra rb) \<longleftrightarrow> rd < 16 \<and> ra < 16 \<and> rb < 16"
| "asm_regs_ok (Load rd ra imm) \<longleftrightarrow> rd < 16 \<and> ra < 16"
| "asm_regs_ok (Store rs ra imm) \<longleftrightarrow> rs < 16 \<and> ra < 16"
| "asm_regs_ok (Mov rd ra) \<longleftrightarrow> rd < 16 \<and> ra < 16"
| "asm_regs_ok (Movi rd imm) \<longleftrightarrow> rd < 16"
| "asm_regs_ok (LoadVr vr ra imm) \<longleftrightarrow> vr < 8 \<and> ra < 16"
| "asm_regs_ok (StoreVr vr ra imm) \<longleftrightarrow> vr < 8 \<and> ra < 16"
| "asm_regs_ok (VecAdd vd va vb) \<longleftrightarrow> vd < 8 \<and> va < 8 \<and> vb < 8"
| "asm_regs_ok (MatmulTile vd va vb n) \<longleftrightarrow> vd < 8 \<and> va < 8 \<and> vb < 8"
| "asm_regs_ok (DmaLoad rd ra bytes) \<longleftrightarrow> rd < 16 \<and> ra < 16"
| "asm_regs_ok (DmaStore rd ra bytes) \<longleftrightarrow> rd < 16 \<and> ra < 16"

definition word_regs_ok :: "u32 \<Rightarrow> bool" where
  "word_regs_ok w \<longleftrightarrow> (case decode w of Some a \<Rightarrow> asm_regs_ok a | None \<Rightarrow> False)"

lemma lo4_less: "lo4 r < 16"
proof -
  have "unat (r AND mask 4) < 2 ^ 4" by (rule unat_and_mask_less)
  moreover have "(0xF :: u32) = mask 4" by (simp add: mask_eq_exp_minus_1)
  ultimately have "unat (ucast (r AND 0xF) :: u8) < 16"
    by (simp add: unsigned_ucast_eq take_bit_nat_eq_self)
  then show ?thesis by (simp add: lo4_def word_less_nat_alt)
qed

lemma mod8_less: "(ucast ((r :: u32) mod 8) :: u8) < 8"
proof -
  have "unat (r mod 8) < 8" by (simp add: unat_mod)
  then have "unat (ucast (r mod 8) :: u8) < 8"
    by (simp add: unsigned_ucast_eq take_bit_nat_eq_self)
  then show ?thesis by (simp add: word_less_nat_alt)
qed

lemma reg5_small: "(r :: u8) < 16 \<Longrightarrow> reg5 r" "(r :: u8) < 8 \<Longrightarrow> reg5 r"
  by (auto simp: reg5_def word_less_nat_alt)

lemma target_fits: "(a :: u32) AND TARGET_MASK < 0x4000000"
proof -
  have "unat (a AND mask 26) < 2 ^ 26" by (rule unat_and_mask_less)
  then show ?thesis by (simp add: word_less_nat_alt field_defs mask_simps)
qed

lemma assembled_regs: "asm_fits a \<Longrightarrow> word_regs_ok (assemble a) = asm_regs_ok a"
  by (simp add: word_regs_ok_def decode_assemble)

lemma regs_ok_enc:
  "a < 16 \<Longrightarrow> b < 16 \<Longrightarrow> c < 16 \<Longrightarrow> word_regs_ok (enc_add a b c)"
  "a < 16 \<Longrightarrow> b < 16 \<Longrightarrow> c < 16 \<Longrightarrow> word_regs_ok (enc_sub a b c)"
  "a < 16 \<Longrightarrow> b < 16 \<Longrightarrow> c < 16 \<Longrightarrow> word_regs_ok (enc_mul a b c)"
  "a < 16 \<Longrightarrow> word_regs_ok (enc_movi a i)"
  "a < 16 \<Longrightarrow> b < 16 \<Longrightarrow> word_regs_ok (enc_load a b i)"
  "a < 16 \<Longrightarrow> b < 16 \<Longrightarrow> word_regs_ok (enc_store a b i)"
  "a < 16 \<Longrightarrow> b < 16 \<Longrightarrow> word_regs_ok (enc_beq a b i)"
  "a < 16 \<Longrightarrow> b < 16 \<Longrightarrow> word_regs_ok (enc_bne a b i)"
  "a < 8 \<Longrightarrow> b < 16 \<Longrightarrow> word_regs_ok (enc_load_vr a b i)"
  "a < 8 \<Longrightarrow> b < 16 \<Longrightarrow> word_regs_ok (enc_store_vr a b i)"
  "a < 8 \<Longrightarrow> b < 8 \<Longrightarrow> c < 8 \<Longrightarrow> word_regs_ok (enc_vec_add a b c)"
  "a < 8 \<Longrightarrow> b < 8 \<Longrightarrow> c < 8 \<Longrightarrow> word_regs_ok (enc_matmul_tile a b c n)"
  "word_regs_ok (enc_jmp (t AND TARGET_MASK))" "word_regs_ok enc_nop" "word_regs_ok enc_halt"
  using assembled_regs [of "Add a b c"] assembled_regs [of "Sub a b c"] assembled_regs [of "Mul a b c"]
    assembled_regs [of "Movi a i"] assembled_regs [of "Load a b i"] assembled_regs [of "Store a b i"]
    assembled_regs [of "Beq a b i"] assembled_regs [of "Bne a b i"] assembled_regs [of "LoadVr a b i"]
    assembled_regs [of "StoreVr a b i"] assembled_regs [of "VecAdd a b c"]
    assembled_regs [of "MatmulTile a b c n"] assembled_regs [of "Jmp (t AND TARGET_MASK)"]
    assembled_regs [of Nop] assembled_regs [of Halt]
  by (simp_all add: reg5_small target_fits)

lemma riscv_regs_ok: "translate_one_riscv w = Some ws \<Longrightarrow> list_all word_regs_ok ws"
  by (auto simp: translate_one_riscv_def Let_def regs_ok_enc lo4_less split: if_splits)

lemma arm64_regs_ok: "translate_one_arm64 w = Some ws \<Longrightarrow> list_all word_regs_ok ws"
  by (auto simp: translate_one_arm64_def Let_def regs_ok_enc lo4_less mod8_less split: if_splits)

lemma ptx_regs_ok: "translate_one_ptx l = Some ws \<Longrightarrow> list_all word_regs_ok ws"
  by (auto simp: translate_one_ptx_def Let_def regs_ok_enc split: if_splits)

text \<open>The output is the concatenation of what the single instructions are translated to.\<close>

definition words_for :: "(u32 \<Rightarrow> u32 list option) \<Rightarrow> u32 \<Rightarrow> u32 list" where
  "words_for f w = (case f w of Some tmp \<Rightarrow> tmp | None \<Rightarrow> [enc_nop])"

lemma fold_emit_word: "fst (fold (emit_word f) ws acc) = fst acc @ concat (map (words_for f) ws)"
proof (induction ws arbitrary: acc)
  case (Cons w ws)
  obtain out st where "acc = (out, st)" by force
  with Cons show ?case by (simp add: words_for_def split: option.split)
qed simp

lemma emit_all_words: "fst (emit_all f ws) = concat (map (words_for f) ws)"
  by (simp add: emit_all_def fold_emit_word)

lemma emit_all_regs:
  "(\<And>w ws. f w = Some ws \<Longrightarrow> list_all word_regs_ok ws) \<Longrightarrow> list_all word_regs_ok (fst (emit_all f ws))"
  by (fastforce simp: emit_all_words words_for_def list_all_iff regs_ok_enc split: option.splits)

lemma fold_emit_line:
  assumes "\<And>l ws. translate_one_ptx l = Some ws \<Longrightarrow> list_all P ws" and "list_all P (fst acc)"
  shows "list_all P (fst (fold emit_line ls acc))"
  using assms(2)
proof (induction ls arbitrary: acc)
  case (Cons l ls)
  obtain out st where "acc = (out, st)" by force
  with Cons.prems assms(1) have "list_all P (fst (emit_line l acc))"
    by (auto split: option.split)
  from Cons.IH [OF this] show ?case by simp
qed simp

section \<open>Properties\<close>

text \<open>
  C38. Code translated from a foreign instruction set never names a register that does not
  exist: whatever the guest bytes are, every emitted word decodes to an instruction of the
  Novium set whose scalar register fields are below sixteen and vector fields below eight, so
  the unchecked register-file accesses of the handlers stay inside their arrays.
\<close>

theorem translated_regs_exist:
  assumes "isa \<noteq> Native" and "isa \<noteq> AsicUcode"
  shows "list_all word_regs_ok (fst (translate_bytes isa bs))"
proof (cases isa)
  case RISCV64
  then show ?thesis by (simp add: emit_all_regs riscv_regs_ok)
next
  case ARM64
  then show ?thesis by (simp add: emit_all_regs arm64_regs_ok)
next
  case PTX
  have "list_all word_regs_ok (fst (fold emit_line (getlines (ptx_text bs)) ([], stats_init)))"
    by (rule fold_emit_line) (auto intro: ptx_regs_ok)
  with PTX show ?thesis by (auto simp: regs_ok_enc split: prod.split)
qed (use assms in auto)

theorem translated_regs_exist_witness:
  "list_all word_regs_ok (fst (translate_bytes RISCV64 [0xB3, 0x8F, 0xFF, 0x01, 0, 0, 0, 0]))
   \<and> length (fst (translate_bytes RISCV64 [0xB3, 0x8F, 0xFF, 0x01, 0, 0, 0, 0])) = 2"
proof -
  have "length (fst (translate_bytes RISCV64 [0xB3, 0x8F, 0xFF, 0x01, 0, 0, 0, 0])) = 2" by code_simp
  then show ?thesis using translated_regs_exist [of RISCV64 "[0xB3, 0x8F, 0xFF, 0x01, 0, 0, 0, 0]"] by simp
qed

text \<open>
  Native programs pass through the engine unchanged: the words come out as they went into
  the byte image, and the statistics count each of them once as decoded and once as emitted.
\<close>

theorem native_unchanged:
  "translate_bytes Native (bytes_of_words ws) =
     (ws, \<lparr>decoded = of_nat (length ws), emitted = of_nat (length ws), folded = 0\<rparr>)"
  by (simp add: pass_through_def words_of_bytes_of_words stats_init_def)

lemma halt_word: "drop_bit OPCODE_SHIFT w = ucast (opcode_code HALT) \<Longrightarrow> instr_opcode \<lparr>raw = w\<rparr> = HALT"
  by (simp add: instr_opcode_def OPCODE_MASK_def) code_simp

text \<open>
  A translated PTX program always ends: whatever text it is given, even none, the engine
  returns at least one word, and the last word is a \<open>HALT\<close> instruction.
\<close>

theorem ptx_ends_in_halt:
  "fst (translate_bytes PTX bs) \<noteq> [] \<and> instr_opcode \<lparr>raw = last (fst (translate_bytes PTX bs))\<rparr> = HALT"
  by (auto simp: ends_in_halt_def halt_word enc_halt_def make_field named_opcodes_def split: prod.split)

end
