(* ===== verification/Emulator.thy ===== *)
theory Emulator
  imports Bus Devices Mmu Interrupt Interconnect Debugger Translate Disasm Decoder
begin

text \<open>
  The emulator core of \<^verbatim>\<open>include/aiasm/emulator.h\<close> and \<^verbatim>\<open>src/emulator.cpp\<close>: the
  aggregate of all subsystems, the instruction handlers and their dispatch, fetch, execute and
  step, the two run loops, the peripheral tick, reset, loading and state serialisation.

  The members of \<open>class Emulator\<close> are the fields of \<open>emu\<close>. The handlers are operations of
  the state monad of the prelude: an exception leaves the state as it was when it was thrown.
  The host (which SIMD build, which floating-point unit) is an argument \<open>h\<close>. The text that
  verbose mode prints is not part of the state (it is in \<open>Console\<close>). \<open>while\<close> loops whose end depends on the guest
  program take fuel, and \<open>None\<close> means that the fuel did not suffice.
\<close>

section \<open>State\<close>

text \<open>
  The closures registered on the bus: the timer and the UART by the constructor of the
  emulator, the window to the memory that the cores of a cluster share by the constructor of
  \<open>class Cluster\<close> (\<^verbatim>\<open>src/cluster.cpp\<close>).
\<close>

datatype dev_tag = TimerDev | UartDev | SharedRamDev

record host_env =
  h_simd :: simd
  h_fpu :: fpu

record emu =
  e_scratchpad :: sram
  e_main_ram :: main_ram
  e_regs :: register_file
  e_csr :: csr_file
  e_mmu :: mmu
  e_bus :: "dev_tag bus_device list"
  e_interconnect :: interconnect
  e_axi :: interconnect
  e_pcie :: interconnect
  e_cxi :: interconnect
  e_timer :: timer
  e_uart :: uart
  e_profiler :: profiler
  e_debugger :: debugger
  e_intc :: intc
  e_translator :: guest_isa
  e_target :: target_profile
  e_block_cache :: block_cache
  e_accel :: bool
  e_verbose :: bool
  e_tick_accum :: u64
  e_last_pc :: u32
  e_last_gpr :: "u32 list"
  e_shared :: "u8 list"

type_synonym 'a emu_op = "(emu, 'a) st"

definition axi_config :: interconnect_config where
  "axi_config = \<lparr>protocol = AXI4, data_width = 64, latency_cycles = 2, max_outstanding = 8, burst_len = 16\<rparr>"
definition pcie_config :: interconnect_config where
  "pcie_config = \<lparr>protocol = PCIe, data_width = 64, latency_cycles = 4, max_outstanding = 4, burst_len = 8\<rparr>"
definition cxi_config :: interconnect_config where
  "cxi_config = \<lparr>protocol = CXI, data_width = 64, latency_cycles = 3, max_outstanding = 16, burst_len = 16\<rparr>"

definition mmio_devices :: "dev_tag bus_device list" where
  "mmio_devices = bus_add_device (MMIO_BASE + UART_BASE) 0x1000 (Some UartDev) (Some UartDev)
     (bus_add_device MMIO_BASE 0x1000 (Some TimerDev) (Some TimerDev) [])"

definition emu_new :: "size_t \<Rightarrow> size_t \<Rightarrow> emu" where
  "emu_new scratchpad_bytes main_ram_bytes = \<lparr>
     e_scratchpad = sram_new scratchpad_bytes, e_main_ram = ram_new main_ram_bytes,
     e_regs = regs_init, e_csr = csr_reset csr_init, e_mmu = mmu_init, e_bus = mmio_devices,
     e_interconnect = fabric_new axi_config, e_axi = fabric_new axi_config,
     e_pcie = fabric_new pcie_config, e_cxi = fabric_new cxi_config,
     e_timer = timer_init, e_uart = uart_init, e_profiler = profiler_init,
     e_debugger = debugger_init, e_intc = intc_init, e_translator = Native,
     e_target = make_asic_profile, e_block_cache = block_cache_init, e_accel = True,
     e_verbose = False, e_tick_accum = 0, e_last_pc = 0, e_last_gpr = replicate NUM_GPR 0, e_shared = []\<rparr>"

section \<open>Access to the parts of the state\<close>

definition rd_gpr :: "u8 \<Rightarrow> u32 emu_op" where
  "rd_gpr idx = lift_res (\<lambda>s. read_gpr (e_regs s) idx)"

definition wr_gpr :: "u8 \<Rightarrow> u32 \<Rightarrow> unit emu_op" where
  "wr_gpr idx v = update_res (\<lambda>s. write_gpr (e_regs s) idx v) (\<lambda>r s. s\<lparr>e_regs := r\<rparr>)"

definition set_pc :: "u32 \<Rightarrow> unit emu_op" where
  "set_pc a = modify (\<lambda>s. s\<lparr>e_regs := (e_regs s)\<lparr>pc := a\<rparr>\<rparr>)"

definition upd_flags :: "bool \<Rightarrow> u32 \<Rightarrow> unit emu_op" where
  "upd_flags ov result = modify (\<lambda>s. s\<lparr>e_regs := update_flags_u32
     ((e_regs s)\<lparr>status := (status (e_regs s))\<lparr>sf_overflow := ov\<rparr>\<rparr>) result\<rparr>)"

text \<open>\<open>regs_.read_vr(i)\<close> and \<open>write_vr(i)\<close> as pointers: the index must lie in the array.\<close>

definition vr_ptr :: "u8 \<Rightarrow> nat emu_op" where
  "vr_ptr idx = lift_res (\<lambda>s. map_res (\<lambda>_. unat idx) (read_vr (e_regs s) idx))"

definition upd_vrs :: "(f32 list list \<Rightarrow> f32 list list) \<Rightarrow> unit emu_op" where
  "upd_vrs f = modify (\<lambda>s. s\<lparr>e_regs := (e_regs s)\<lparr>vr := f (vr (e_regs s))\<rparr>\<rparr>)"

definition emu_take_trap :: "trap \<Rightarrow> unit emu_op" where
  "emu_take_trap t = modify (\<lambda>s. case take_trap t (Some (e_csr s)) (e_intc s) of
     (_, c, i) \<Rightarrow> s\<lparr>e_csr := (case c of Some c' \<Rightarrow> c' | None \<Rightarrow> e_csr s), e_intc := i\<rparr>)"

definition mtvec_base :: "csr_file \<Rightarrow> u32" where
  "mtvec_base c = ucast (csr_read c CSR_MTVEC AND NOT 3)"

text \<open>Enter the trap handler: record the trap, then jump to the base of \<open>mtvec\<close>.\<close>

definition enter_trap :: "trap \<Rightarrow> unit emu_op" where
  "enter_trap t = bind (emu_take_trap t) (\<lambda>_. bind (gets (\<lambda>s. mtvec_base (e_csr s))) set_pc)"

definition emu_translate :: "u32 \<Rightarrow> bool \<Rightarrow> bool \<Rightarrow> u32 option emu_op" where
  "emu_translate va is_write is_fetch = (\<lambda>s.
     case mmu_translate (Some (e_scratchpad s)) (Some (e_csr s)) va is_write is_fetch (Some PfNone) (e_mmu s) of
       Ok (pa, _, m) \<Rightarrow> (Ok pa, s\<lparr>e_mmu := m\<rparr>)
     | Err e \<Rightarrow> (Err e, s)
     | Undef \<Rightarrow> (Undef, s))"

definition axi_issue :: "u32 \<Rightarrow> u32 \<Rightarrow> bool \<Rightarrow> bool emu_op" where
  "axi_issue addr bytes is_write = (\<lambda>s.
     let now = cycle_count (e_profiler s);
         t = \<lparr>tx_id = 0, tx_addr = addr, tx_bytes = bytes, tx_is_write = is_write,
              issue_cycle = now, complete_cycle = 0, tx_proto = AXI4\<rparr>
     in case fabric_issue t now (e_axi s) of
          Ok (ok, ic) \<Rightarrow> (Ok ok, s\<lparr>e_axi := ic\<rparr>)
        | Err e \<Rightarrow> (Err e, s)
        | Undef \<Rightarrow> (Undef, s))"

definition prof_record :: "opcode \<Rightarrow> u32 \<Rightarrow> u64 \<Rightarrow> unit emu_op" where
  "prof_record op cycles dma = update_res (\<lambda>s. profiler_record op cycles dma (e_profiler s))
     (\<lambda>p s. s\<lparr>e_profiler := p\<rparr>)"

section \<open>Memory-mapped devices\<close>

text \<open>
  The memory that the shared window captures by reference is the field \<open>e_shared\<close>, which a
  cluster lends to the core it steps; a single emulator has no such device.
\<close>

definition SHARED_BASE :: u32 where "SHARED_BASE = 0x80000000"

fun dev_read_call :: "dev_tag \<Rightarrow> u32 \<Rightarrow> u32 emu_op" where
  "dev_read_call TimerDev addr = (\<lambda>s. case timer_read_reg (addr - MMIO_BASE) (e_timer s) of
     (v, t) \<Rightarrow> (Ok v, s\<lparr>e_timer := t\<rparr>))"
| "dev_read_call UartDev addr = gets (\<lambda>s. uart_read_reg (addr - MMIO_BASE - UART_BASE) (e_uart s))"
| "dev_read_call SharedRamDev addr = lift_res (\<lambda>s. map_res le_word32 (mem_read (e_shared s) (unat (addr - SHARED_BASE)) 4))"

fun dev_write_call :: "dev_tag \<Rightarrow> u32 \<Rightarrow> u32 \<Rightarrow> unit emu_op" where
  "dev_write_call TimerDev addr v =
     modify (\<lambda>s. s\<lparr>e_timer := timer_write_reg (addr - MMIO_BASE) v (e_timer s)\<rparr>)"
| "dev_write_call UartDev addr v =
     modify (\<lambda>s. s\<lparr>e_uart := uart_write_reg (addr - MMIO_BASE - UART_BASE) v (e_uart s)\<rparr>)"
| "dev_write_call SharedRamDev addr v =
     update_res (\<lambda>s. mem_write (e_shared s) (unat (addr - SHARED_BASE)) (le_bytes32 v)) (\<lambda>m s. s\<lparr>e_shared := m\<rparr>)"

definition emu_bus_read32 :: "u32 \<Rightarrow> u32 emu_op" where
  "emu_bus_read32 addr = bind (gets e_bus) (\<lambda>devs. bus_read32 dev_read_call devs e_scratchpad addr)"

definition emu_bus_write32 :: "u32 \<Rightarrow> u32 \<Rightarrow> unit emu_op" where
  "emu_bus_write32 addr v = bind (gets e_bus) (\<lambda>devs.
     bus_write32 dev_write_call devs e_scratchpad (\<lambda>m s. s\<lparr>e_scratchpad := m\<rparr>) addr v)"

section \<open>Instruction handlers\<close>

text \<open>Every handler returns the cycles it consumes.\<close>

definition op_nop :: "instruction \<Rightarrow> u32 emu_op" where
  "op_nop i = ret (cycle_weight NOP 0)"

definition op_halt :: "instruction \<Rightarrow> u32 emu_op" where
  "op_halt i = bind (modify (\<lambda>s. s\<lparr>e_regs := (e_regs s)\<lparr>halt := True\<rparr>\<rparr>)) (\<lambda>_. ret 0)"

definition op_jmp :: "instruction \<Rightarrow> u32 emu_op" where
  "op_jmp i = bind (set_pc (instr_target i)) (\<lambda>_. ret (cycle_weight JMP 0))"

text \<open>The common part of a taken branch: \<open>regs_.pc += instr.offset()\<close> and the penalty.\<close>

definition take_branch :: "instruction \<Rightarrow> u32 \<Rightarrow> u32 emu_op" where
  "take_branch i cycles = bind (gets (\<lambda>s. pc (e_regs s))) (\<lambda>p.
     bind (set_pc (p + instr_offset i)) (\<lambda>_. ret (cycles + 1)))"

definition op_beq :: "instruction \<Rightarrow> u32 emu_op" where
  "op_beq i = bind (rd_gpr (instr_rd i)) (\<lambda>rs. bind (rd_gpr (instr_ra i)) (\<lambda>rt.
     if rs = rt then take_branch i (cycle_weight BEQ 0) else ret (cycle_weight BEQ 0)))"

definition op_bne :: "instruction \<Rightarrow> u32 emu_op" where
  "op_bne i = bind (rd_gpr (instr_rd i)) (\<lambda>rs. bind (rd_gpr (instr_ra i)) (\<lambda>rt.
     if rs \<noteq> rt then take_branch i (cycle_weight BNE 0) else ret (cycle_weight BNE 0)))"

definition op_add :: "instruction \<Rightarrow> u32 emu_op" where
  "op_add i = bind (rd_gpr (instr_ra i)) (\<lambda>a. bind (rd_gpr (instr_rb i)) (\<lambda>b.
     let result = a + b;
         a_neg = (sint a < 0); b_neg = (sint b < 0); r_neg = (sint result < 0)
     in bind (wr_gpr (instr_rd i) result) (\<lambda>_.
        bind (upd_flags (a_neg = b_neg \<and> a_neg \<noteq> r_neg) result) (\<lambda>_.
        ret (cycle_weight ADD 0)))))"

definition op_sub :: "instruction \<Rightarrow> u32 emu_op" where
  "op_sub i = bind (rd_gpr (instr_ra i)) (\<lambda>a. bind (rd_gpr (instr_rb i)) (\<lambda>b.
     let result = a - b;
         a_neg = (sint a < 0); b_neg = (sint b < 0); r_neg = (sint result < 0)
     in bind (wr_gpr (instr_rd i) result) (\<lambda>_.
        bind (upd_flags (a_neg \<noteq> b_neg \<and> a_neg \<noteq> r_neg) result) (\<lambda>_.
        ret (cycle_weight SUB 0)))))"

definition op_mul :: "instruction \<Rightarrow> u32 emu_op" where
  "op_mul i = bind (rd_gpr (instr_ra i)) (\<lambda>a. bind (rd_gpr (instr_rb i)) (\<lambda>b.
     let result = a * b
     in bind (wr_gpr (instr_rd i) result) (\<lambda>_.
        bind (upd_flags False result) (\<lambda>_. ret (cycle_weight MUL 0)))))"

definition op_load :: "instruction \<Rightarrow> u32 emu_op" where
  "op_load i = bind (rd_gpr (instr_ra i)) (\<lambda>base.
     let addr = base + instr_simm16 i;
         access = (\<lambda>addr.
           bind (axi_issue addr 4 False) (\<lambda>_.
           bind (emu_bus_read32 addr) (\<lambda>v.
           bind (wr_gpr (instr_rd i) v) (\<lambda>_. ret (cycle_weight LOAD 0)))))
     in bind (gets (\<lambda>s. mmu_enabled (e_mmu s))) (\<lambda>en.
        if en then bind (emu_translate addr False False) (\<lambda>pa. case pa of
            None \<Rightarrow> bind (gets (\<lambda>s. pc (e_regs s))) (\<lambda>p.
              bind (enter_trap (page_fault_trap (ucast (p - 4)) (ucast addr) False)) (\<lambda>_. ret 2))
          | Some a \<Rightarrow> access a)
        else access addr))"

definition op_store :: "instruction \<Rightarrow> u32 emu_op" where
  "op_store i = bind (rd_gpr (instr_ra i)) (\<lambda>base.
     let addr = base + instr_simm16 i;
         access = (\<lambda>addr.
           bind (rd_gpr (instr_rd i)) (\<lambda>v.
           bind (axi_issue addr 4 True) (\<lambda>_.
           bind (emu_bus_write32 addr v) (\<lambda>_. ret (cycle_weight STORE 0)))))
     in bind (gets (\<lambda>s. mmu_enabled (e_mmu s))) (\<lambda>en.
        if en then bind (emu_translate addr True False) (\<lambda>pa. case pa of
            None \<Rightarrow> bind (gets (\<lambda>s. pc (e_regs s))) (\<lambda>p.
              bind (enter_trap (page_fault_trap (ucast (p - 4)) (ucast addr) True)) (\<lambda>_. ret 2))
          | Some a \<Rightarrow> access a)
        else access addr))"

definition op_mov :: "instruction \<Rightarrow> u32 emu_op" where
  "op_mov i = bind (rd_gpr (instr_ra i)) (\<lambda>v.
     bind (wr_gpr (instr_rd i) v) (\<lambda>_. ret (cycle_weight MOV 0)))"

definition op_movi :: "instruction \<Rightarrow> u32 emu_op" where
  "op_movi i = bind (wr_gpr (instr_rd i) (ucast (instr_imm16 i))) (\<lambda>_. ret (cycle_weight MOVI 0))"

text \<open>The vector transfers reinterpret sixteen floats as sixty-four bytes.\<close>

definition op_load_vr :: "instruction \<Rightarrow> u32 emu_op" where
  "op_load_vr i = bind (rd_gpr (instr_ra i)) (\<lambda>base.
     let addr = base + instr_simm16 i in
     bind (vr_ptr (instr_rd i)) (\<lambda>d.
     bind (lift_res (\<lambda>s. sram_read_bytes (e_scratchpad s) addr (of_nat VR_BYTE_SIZE))) (\<lambda>bs.
     bind (upd_vrs (\<lambda>V. V[d := words_of_bytes bs])) (\<lambda>_. ret (cycle_weight LOAD_VR 0)))))"

definition op_store_vr :: "instruction \<Rightarrow> u32 emu_op" where
  "op_store_vr i = bind (rd_gpr (instr_ra i)) (\<lambda>base.
     let addr = base + instr_simm16 i in
     bind (vr_ptr (instr_rd i)) (\<lambda>n.
     bind (update_res (\<lambda>s. sram_write_bytes (e_scratchpad s) addr
         (bytes_of_words (vr (e_regs s) ! n)) (of_nat VR_BYTE_SIZE))
       (\<lambda>m s. s\<lparr>e_scratchpad := m\<rparr>)) (\<lambda>_. ret (cycle_weight STORE_VR 0))))"

definition op_vec_add :: "host_env \<Rightarrow> instruction \<Rightarrow> u32 emu_op" where
  "op_vec_add h i =
     bind (vr_ptr (instr_rd i)) (\<lambda>d. bind (vr_ptr (instr_ra i)) (\<lambda>a. bind (vr_ptr (instr_rb i)) (\<lambda>b.
     bind (gets e_accel) (\<lambda>accel.
     bind (upd_vrs (if accel then vec_add_host (h_simd h) (h_fpu h) d a b
                    else scalar_vec_add (h_fpu h) d a b)) (\<lambda>_.
     lift_res (\<lambda>s. profile_cycle_weight (e_target s) VEC_ADD 0))))))"

definition op_matmul_tile :: "host_env \<Rightarrow> instruction \<Rightarrow> u32 emu_op" where
  "op_matmul_tile h i =
     (let n = (ucast (instr_func i AND 0xF) :: u8) in
      if n = 0 \<or> unat n > TILE_SIZE then throw (MatmulInvalidTile n)
      else
     bind (vr_ptr (instr_rd i)) (\<lambda>d. bind (vr_ptr (instr_ra i)) (\<lambda>a. bind (vr_ptr (instr_rb i)) (\<lambda>b.
     bind (gets e_accel) (\<lambda>accel.
     bind (upd_vrs (if accel then matmul_tile_host (h_fpu h) d a b n
                    else matmul_loop (h_fpu h) d a b (unat n))) (\<lambda>_.
     lift_res (\<lambda>s. profile_cycle_weight (e_target s) MATMUL_TILE (ucast n))))))))"

text \<open>
  The DMA handlers. The bounds checks add two 32-bit values before they are compared with a
  64-bit size, so that the sum wraps at \<open>2 ^ 32\<close>.
\<close>

definition dma_translate :: "u32 \<Rightarrow> u32 \<Rightarrow> bool \<Rightarrow> (u32 \<Rightarrow> u32 \<Rightarrow> u32 emu_op) \<Rightarrow> u32 emu_op" where
  "dma_translate dest src always_store k =
     bind (gets (\<lambda>s. mmu_enabled (e_mmu s))) (\<lambda>en.
     if en then
       bind (emu_translate dest True False) (\<lambda>pa_dest.
       bind (emu_translate src False False) (\<lambda>pa_src.
       case (pa_dest, pa_src) of
         (Some d, Some s) \<Rightarrow> k d s
       | _ \<Rightarrow> bind (gets (\<lambda>s. pc (e_regs s))) (\<lambda>p.
           bind (enter_trap (page_fault_trap (ucast (p - 4))
             (ucast (if pa_dest = None then dest else src))
             (always_store \<or> pa_dest = None))) (\<lambda>_. ret 2))))
     else k dest src)"

definition op_dma_load :: "instruction \<Rightarrow> u32 emu_op" where
  "op_dma_load i = bind (rd_gpr (instr_rd i)) (\<lambda>dest0. bind (rd_gpr (instr_ra i)) (\<lambda>src0.
     let bytes = (ucast (instr_func i) :: u32) in
     dma_translate dest0 src0 False (\<lambda>dest src.
       bind (gets (\<lambda>s. (ucast (dest + bytes) > sram_size (e_scratchpad s),
                        ucast (src + bytes) > ram_size (e_main_ram s)))) (\<lambda>(bad_dest, bad_src).
       if bad_dest then throw DmaLoadScratchpadOutOfBounds
       else if bad_src then throw DmaLoadMainRamOutOfBounds
       else
         bind (axi_issue dest bytes False) (\<lambda>ok.
         bind (if ok then ret () else prof_record DMA_LOAD 1 0) (\<lambda>_.
         bind (update_res (\<lambda>s. dma_copy_host (sram_data (e_scratchpad s)) (unat dest)
                (ram_data (e_main_ram s)) (unat src) (unat bytes))
              (\<lambda>d s. s\<lparr>e_scratchpad := (e_scratchpad s)\<lparr>sram_data := d\<rparr>\<rparr>)) (\<lambda>_.
         lift_res (\<lambda>s. profile_cycle_weight (e_target s) DMA_LOAD (ucast bytes)))))))))"

definition op_dma_store :: "instruction \<Rightarrow> u32 emu_op" where
  "op_dma_store i = bind (rd_gpr (instr_rd i)) (\<lambda>dest0. bind (rd_gpr (instr_ra i)) (\<lambda>src0.
     let bytes = (ucast (instr_func i) :: u32) in
     dma_translate dest0 src0 True (\<lambda>dest src.
       bind (gets (\<lambda>s. (ucast (dest + bytes) > ram_size (e_main_ram s),
                        ucast (src + bytes) > sram_size (e_scratchpad s)))) (\<lambda>(bad_dest, bad_src).
       if bad_dest then throw DmaStoreMainRamOutOfBounds
       else if bad_src then throw DmaStoreScratchpadOutOfBounds
       else
         bind (axi_issue src bytes True) (\<lambda>_.
         bind (update_res (\<lambda>s. dma_copy_host (ram_data (e_main_ram s)) (unat dest)
                (sram_data (e_scratchpad s)) (unat src) (unat bytes))
              (\<lambda>d s. s\<lparr>e_main_ram := (e_main_ram s)\<lparr>ram_data := d\<rparr>\<rparr>)) (\<lambda>_.
         lift_res (\<lambda>s. profile_cycle_weight (e_target s) DMA_STORE (ucast bytes))))))))"

section \<open>Dispatch\<close>

fun dispatch :: "host_env \<Rightarrow> opcode \<Rightarrow> (instruction \<Rightarrow> u32 emu_op) option" where
  "dispatch h NOP = Some op_nop"
| "dispatch h HALT = Some op_halt"
| "dispatch h JMP = Some op_jmp"
| "dispatch h BEQ = Some op_beq"
| "dispatch h BNE = Some op_bne"
| "dispatch h ADD = Some op_add"
| "dispatch h SUB = Some op_sub"
| "dispatch h MUL = Some op_mul"
| "dispatch h LOAD = Some op_load"
| "dispatch h STORE = Some op_store"
| "dispatch h MOV = Some op_mov"
| "dispatch h MOVI = Some op_movi"
| "dispatch h LOAD_VR = Some op_load_vr"
| "dispatch h STORE_VR = Some op_store_vr"
| "dispatch h VEC_ADD = Some (op_vec_add h)"
| "dispatch h MATMUL_TILE = Some (op_matmul_tile h)"
| "dispatch h DMA_LOAD = Some op_dma_load"
| "dispatch h DMA_STORE = Some op_dma_store"
| "dispatch h (OtherOp c) = None"

definition execute :: "host_env \<Rightarrow> instruction \<Rightarrow> u32 emu_op" where
  "execute h i = (let op = instr_opcode i in case dispatch h op of
     None \<Rightarrow>
       bind (gets (\<lambda>s. (pc (e_regs s), csr_read (e_csr s) CSR_MTVEC))) (\<lambda>(p, mtvec).
       if mtvec \<noteq> 0
       then bind (enter_trap (illegal_inst_trap (ucast (p - 4)) (raw i))) (\<lambda>_. ret 2)
       else throw (UnknownOpcode (opcode_code op)))
   | Some handler \<Rightarrow>
       bind (handler i) (\<lambda>cycles.
       let dma = (if op = DMA_LOAD \<or> op = DMA_STORE then ucast (instr_func i) else 0) in
       bind (prof_record op cycles dma) (\<lambda>_.
       bind (modify (\<lambda>s. s\<lparr>e_tick_accum := e_tick_accum s + ucast cycles\<rparr>)) (\<lambda>_.
       ret cycles))))"

section \<open>Fetch\<close>

definition fetch :: "instruction emu_op" where
  "fetch = bind (gets (\<lambda>s. (pc (e_regs s), mmu_enabled (e_mmu s)))) (\<lambda>(va, en).
     if en then
       bind (emu_translate va False True) (\<lambda>pa. case pa of
         None \<Rightarrow>
           bind (enter_trap ((page_fault_trap (ucast va) (ucast va) False)\<lparr>trap_cause := InstPageFault\<rparr>)) (\<lambda>_.
           ret \<lparr>raw = enc_nop\<rparr>)
       | Some a \<Rightarrow>
           bind (lift_res (\<lambda>s. map_res le_word32 (mem_read (sram_data (e_scratchpad s)) (unat a) 4))) (\<lambda>w.
           bind (set_pc (va + 4)) (\<lambda>_. ret \<lparr>raw = w\<rparr>)))
     else
       bind (emu_bus_read32 va) (\<lambda>w. bind (set_pc (va + 4)) (\<lambda>_. ret \<lparr>raw = w\<rparr>)))"

section \<open>Peripheral tick\<close>

text \<open>One turn of the loop. The UART has nothing to do on a tick.\<close>

definition tick_once :: "emu \<Rightarrow> emu" where
  "tick_once s =
     (let t = timer_tick CYCLES_PER_TICK (e_timer s)
      in s\<lparr>e_timer := t,
           e_intc := (if t_irq_pending t then raise_timer (e_intc s) else clear_timer (e_intc s)),
           e_axi := fabric_tick CYCLES_PER_TICK (e_axi s),
           e_pcie := fabric_tick CYCLES_PER_TICK (e_pcie s),
           e_cxi := fabric_tick CYCLES_PER_TICK (e_cxi s),
           e_interconnect := fabric_tick CYCLES_PER_TICK (e_interconnect s),
           e_tick_accum := e_tick_accum s - CYCLES_PER_TICK\<rparr>)"

function tick_peripherals :: "emu \<Rightarrow> emu" where
  "tick_peripherals s =
     (if e_tick_accum s \<ge> CYCLES_PER_TICK then tick_peripherals (tick_once s) else s)"
  by pat_completeness auto

termination tick_peripherals
proof (relation "measure (\<lambda>s. unat (e_tick_accum s))")
  fix s :: emu assume "CYCLES_PER_TICK \<le> e_tick_accum s"
  then show "(tick_once s, s) \<in> measure (\<lambda>s. unat (e_tick_accum s))"
    by (simp add: tick_once_def Let_def unat_sub word_le_nat_alt CYCLES_PER_TICK_def)
qed simp

declare tick_peripherals.simps [simp del]

section \<open>Step and run\<close>

definition irq_vector :: "csr_file \<Rightarrow> trap \<Rightarrow> u32" where
  "irq_vector c t =
     (let mtvec = csr_read c CSR_MTVEC;
          base = mtvec_base c;
          cause = ucast (cause_code (trap_cause t) AND 0xFF)
      in if mtvec AND 1 \<noteq> 0 then base + cause * 4 else base)"

definition check_interrupts :: "unit emu_op" where
  "check_interrupts = bind (gets (\<lambda>s. pending_interrupt (Some (e_csr s)) (e_intc s))) (\<lambda>irq.
     case irq of
       None \<Rightarrow> ret ()
     | Some t \<Rightarrow> bind (emu_take_trap t) (\<lambda>_. bind (gets (\<lambda>s. irq_vector (e_csr s) t)) set_pc))"

definition save_verbose :: "unit emu_op" where
  "save_verbose = modify (\<lambda>s. if e_verbose s
     then s\<lparr>e_last_pc := pc (e_regs s),
            e_last_gpr := map (\<lambda>i. if i = 0 then 0 else gpr (e_regs s) ! i) [0..<NUM_GPR]\<rparr>
     else s)"

text \<open>
  \<open>step\<close> up to the call of \<open>log_step\<close>, with what that call is given: the address of the
  instruction, the instruction and its cycles (nothing when the machine is halted). The log
  line itself, which changes no state, is in \<open>Console\<close>.
\<close>

definition step_body :: "host_env \<Rightarrow> (u32 \<times> instruction \<times> u32) option emu_op" where
  "step_body h = bind (gets (\<lambda>s. halt (e_regs s))) (\<lambda>halted.
     if halted then ret None
     else
       bind check_interrupts (\<lambda>_.
       bind (gets (\<lambda>s. pc (e_regs s))) (\<lambda>pc_before.
       bind save_verbose (\<lambda>_.
       bind fetch (\<lambda>i.
       bind (execute h i) (\<lambda>cycles.
       bind (modify tick_peripherals) (\<lambda>_.
       ret (Some (pc_before, i, cycles)))))))))"

definition step :: "host_env \<Rightarrow> unit emu_op" where
  "step h = bind (step_body h) (\<lambda>_. ret ())"

lemma step_unfold:
  "step h = bind (gets (\<lambda>s. halt (e_regs s))) (\<lambda>halted.
     if halted then ret ()
     else bind check_interrupts (\<lambda>_. bind save_verbose (\<lambda>_. bind fetch (\<lambda>i.
       bind (execute h i) (\<lambda>_. modify tick_peripherals)))))"
  by (rule ext) (auto simp: step_def step_body_def bind_def split: prod.splits res.splits)

definition stopped :: "emu \<Rightarrow> bool" where
  "stopped s \<longleftrightarrow> halt (e_regs s) \<or> dbg_has_breakpoint (pc (e_regs s)) (e_debugger s)"

fun run_loop :: "host_env \<Rightarrow> nat \<Rightarrow> emu \<Rightarrow> (unit res \<times> emu) option" where
  "run_loop h n s =
     (if stopped s then Some (Ok (), s)
      else case n of
        0 \<Rightarrow> None
      | Suc k \<Rightarrow> (case step h s of
            (Ok _, s') \<Rightarrow> run_loop h k s'
          | (Err e, s') \<Rightarrow> Some (Err e, s')
          | (Undef, s') \<Rightarrow> Some (Undef, s')))"

declare run_loop.simps [simp del]

text \<open>The UART is flushed when the loop ends, and not when it is left by an exception.\<close>

definition flush_uart :: "unit res \<times> emu \<Rightarrow> unit res \<times> emu" where
  "flush_uart r = (case r of (Ok _, s) \<Rightarrow> (Ok (), s\<lparr>e_uart := uart_flush (e_uart s)\<rparr>) | _ \<Rightarrow> r)"

definition run :: "host_env \<Rightarrow> nat \<Rightarrow> emu \<Rightarrow> (unit res \<times> emu) option" where
  "run h fuel s = map_option flush_uart (run_loop h fuel s)"

text \<open>The loop over the instructions of a block.\<close>

fun replay :: "host_env \<Rightarrow> instruction list \<Rightarrow> unit emu_op" where
  "replay h [] = ret ()"
| "replay h (i # is) = bind (gets stopped) (\<lambda>stop.
     if stop then ret ()
     else
       bind (gets (\<lambda>s. pc (e_regs s))) (\<lambda>p.
       bind (set_pc (p + 4)) (\<lambda>_.
       bind (execute h i) (\<lambda>_.
       bind (modify tick_peripherals) (\<lambda>_.
       if is_control (instr_opcode i) then ret () else replay h is)))))"

definition emu_block :: "decoded_block emu_op" where
  "emu_block = (\<lambda>s. case block_translate (sram_read32 (e_scratchpad s)) (pc (e_regs s)) 32 (e_block_cache s) of
     (r, c) \<Rightarrow> (r, s\<lparr>e_block_cache := c\<rparr>))"

definition fast_turn :: "host_env \<Rightarrow> unit emu_op" where
  "fast_turn h = bind (gets e_verbose) (\<lambda>v.
     if v then step h else bind emu_block (\<lambda>blk. replay h (ops blk)))"

fun fast_loop :: "host_env \<Rightarrow> nat \<Rightarrow> emu \<Rightarrow> (unit res \<times> emu) option" where
  "fast_loop h n s =
     (if stopped s then Some (Ok (), s)
      else case n of
        0 \<Rightarrow> None
      | Suc k \<Rightarrow> (case fast_turn h s of
            (Ok _, s') \<Rightarrow> fast_loop h k s'
          | (Err e, s') \<Rightarrow> Some (Err e, s')
          | (Undef, s') \<Rightarrow> Some (Undef, s')))"

declare fast_loop.simps [simp del]

definition run_fast :: "host_env \<Rightarrow> nat \<Rightarrow> emu \<Rightarrow> (unit res \<times> emu) option" where
  "run_fast h fuel s = map_option flush_uart (fast_loop h fuel s)"

section \<open>Configuration, reset and loading\<close>

definition set_verbose :: "bool \<Rightarrow> emu \<Rightarrow> emu" where
  "set_verbose v s = s\<lparr>e_verbose := v\<rparr>"

definition set_acceleration :: "bool \<Rightarrow> emu \<Rightarrow> emu" where
  "set_acceleration v s = s\<lparr>e_accel := v\<rparr>"

definition set_target :: "target_profile \<Rightarrow> emu \<Rightarrow> emu" where
  "set_target p s = s\<lparr>e_target := p, e_block_cache := bc_clear (e_block_cache s)\<rparr>"

definition set_target_kind :: "target_kind \<Rightarrow> emu \<Rightarrow> emu" where
  "set_target_kind k s =
     s\<lparr>e_target := (case k of CPU \<Rightarrow> make_cpu_profile | GPU \<Rightarrow> make_gpu_profile | ASIC \<Rightarrow> make_asic_profile),
       e_block_cache := bc_clear (e_block_cache s)\<rparr>"

definition emu_reset :: "emu \<Rightarrow> emu" where
  "emu_reset s = s\<lparr>
     e_regs := regs_reset (e_regs s),
     e_csr := csr_reset (e_csr s),
     e_mmu := set_enabled False (tlb_flush (e_mmu s)),
     e_axi := fabric_reset (e_axi s),
     e_pcie := fabric_reset (e_pcie s),
     e_cxi := fabric_reset (e_cxi s),
     e_interconnect := fabric_reset (e_interconnect s),
     e_intc := intc_reset (e_intc s),
     e_scratchpad := sram_clear (e_scratchpad s),
     e_main_ram := ram_clear (e_main_ram s),
     e_profiler := profiler_reset (e_profiler s),
     e_debugger := dbg_disable_single_step (dbg_clear_breakpoints (e_debugger s)),
     e_verbose := False,
     e_tick_accum := 0,
     e_last_pc := 0,
     e_last_gpr := replicate (length (e_last_gpr s)) 0,
     e_block_cache := bc_clear (e_block_cache s)\<rparr>"

definition load_program_bytes :: "u8 list \<Rightarrow> size_t \<Rightarrow> unit emu_op" where
  "load_program_bytes bytes count =
     (if count > TEXT_SIZE then throw (ProgramTooLarge count)
      else
        bind (update_res (\<lambda>s. sram_load (e_scratchpad s) TEXT_BASE bytes count)
          (\<lambda>m s. s\<lparr>e_scratchpad := m\<rparr>)) (\<lambda>_.
        modify (\<lambda>s. s\<lparr>e_block_cache := bc_clear (e_block_cache s)\<rparr>)))"

definition load_program :: "u32 list \<Rightarrow> size_t \<Rightarrow> unit emu_op" where
  "load_program instructions count = load_program_bytes (bytes_of_words instructions) (count * 4)"

definition load_data :: "u32 \<Rightarrow> u8 list \<Rightarrow> size_t \<Rightarrow> unit emu_op" where
  "load_data addr data count = update_res (\<lambda>s. sram_load (e_scratchpad s) addr data count)
     (\<lambda>m s. s\<lparr>e_scratchpad := m\<rparr>)"

definition load_main_ram :: "u32 \<Rightarrow> u8 list \<Rightarrow> size_t \<Rightarrow> unit emu_op" where
  "load_main_ram addr data count = update_res (\<lambda>s. ram_write (e_main_ram s) addr data count)
     (\<lambda>m s. s\<lparr>e_main_ram := m\<rparr>)"

definition load_tensor :: "u32 \<Rightarrow> f32 list \<Rightarrow> size_t \<Rightarrow> unit emu_op" where
  "load_tensor addr data count = update_res
     (\<lambda>s. sram_load (e_scratchpad s) addr (bytes_of_words data) (count * 4))
     (\<lambda>m s. s\<lparr>e_scratchpad := m\<rparr>)"

definition disassemble_at :: "u32 \<Rightarrow> emu \<Rightarrow> string res" where
  "disassemble_at addr s = map_res (\<lambda>w. disassemble \<lparr>raw = w\<rparr>) (sram_read32 (e_scratchpad s) addr)"

section \<open>State serialisation\<close>

record emu_state =
  st_status :: status_flags
  st_gpr :: "u32 list"
  st_vr :: "f32 list list"
  st_pc :: u32
  st_tick_accum :: u64
  st_profiler :: profiler_state

definition save_state :: "emu \<Rightarrow> emu_state" where
  "save_state s = \<lparr>st_status = status (e_regs s), st_gpr = gpr (e_regs s), st_vr = vr (e_regs s),
     st_pc = pc (e_regs s), st_tick_accum = e_tick_accum s, st_profiler = profiler_save (e_profiler s)\<rparr>"

definition restore_state :: "emu_state \<Rightarrow> emu \<Rightarrow> emu" where
  "restore_state st s = s\<lparr>
     e_regs := (e_regs s)\<lparr>status := st_status st, gpr := (st_gpr st)[0 := 0], vr := st_vr st, pc := st_pc st\<rparr>,
     e_tick_accum := st_tick_accum st,
     e_profiler := profiler_restore (st_profiler st) (e_profiler s)\<rparr>"

end
