(* ===== verification/Emu_Inv.thy ===== *)
theory Emu_Inv
  imports Emulator
begin

text \<open>
  The well-formedness invariant of the emulator: what the C++ types and the constructor
  establish about the parts of the state. Every operation preserves it, when it returns and
  when it throws; the sizes of the two memories never change.
\<close>

definition emu_wf :: "emu \<Rightarrow> bool" where
  "emu_wf s \<longleftrightarrow> wf_regs (e_regs s) \<and> wf_profiler (e_profiler s) \<and> wf_target (e_target s)
     \<and> vec64 (sram_data (e_scratchpad s)) \<and> vec64 (ram_data (e_main_ram s))
     \<and> e_bus s = mmio_devices \<and> cfg (e_axi s) = axi_config
     \<and> length (in_flight (e_axi s)) \<le> 8
     \<and> uart_ok (e_uart s) \<and> length (tlb (e_mmu s)) = TLB_SIZE \<and> length (e_last_gpr s) = NUM_GPR"

text \<open>
  What holds of the parts whatever a client of the class does with the references it is
  handed: the register files have their shape and \<open>r0\<close> is zero, the arrays have their lengths
  and the two memories the sizes \<open>m\<close> and \<open>k\<close>.
\<close>

definition emu_shape :: "nat \<Rightarrow> nat \<Rightarrow> emu \<Rightarrow> bool" where
  "emu_shape m k s \<longleftrightarrow> wf_regs (e_regs s) \<and> length (opcode_hist (e_profiler s)) = NUM_OPCODES
     \<and> wf_target (e_target s)
     \<and> vec64 (sram_data (e_scratchpad s)) \<and> vec64 (ram_data (e_main_ram s))
     \<and> length (tlb (e_mmu s)) = TLB_SIZE \<and> length (e_last_gpr s) = NUM_GPR
     \<and> length (sram_data (e_scratchpad s)) = m \<and> length (ram_data (e_main_ram s)) = k"

text \<open>
  The two invariants in one: the shape, and in addition well-formedness when \<open>strict\<close> is set.
  Every operation preserves both; \<open>emu_inv\<close> is the strict one.
\<close>

definition emu_kept :: "bool \<Rightarrow> nat \<Rightarrow> nat \<Rightarrow> emu \<Rightarrow> bool" where
  "emu_kept strict m k s \<longleftrightarrow> emu_shape m k s \<and> (strict \<longrightarrow> emu_wf s)"

abbreviation emu_inv :: "nat \<Rightarrow> nat \<Rightarrow> emu \<Rightarrow> bool" where
  "emu_inv \<equiv> emu_kept True"

lemma emu_inv_def:
  "emu_inv m k s \<longleftrightarrow> emu_wf s \<and> length (sram_data (e_scratchpad s)) = m \<and> length (ram_data (e_main_ram s)) = k"
  by (auto simp: emu_kept_def emu_shape_def emu_wf_def wf_profiler_def)

lemmas inv_defs = emu_inv_def emu_wf_def

lemmas kept_defs = emu_kept_def emu_shape_def emu_wf_def

lemma emu_inv_new: "emu_inv (unat m) (unat k) (emu_new m k)"
  using unsigned_less [of m, where 'a = nat] unsigned_less [of k, where 'a = nat]
  by (simp add: inv_defs emu_new_def sram_new_def ram_new_def vec64_def fabric_new_def
      uart_init_ok mmu_init_def)

section \<open>The parts\<close>

lemma uart_flush_ok: "uart_ok u \<Longrightarrow> uart_ok (uart_flush u)"
  by (simp add: uart_ok_def uart_flush_def uart_print_def)

lemma tlb_insert_length [simp]: "length (tlb (tlb_insert e m)) = length (tlb m)"
  by (simp add: tlb_insert_def)

lemma fault_tlb_length:
  "fault_direct f cause va m = Ok (r, c', m') \<Longrightarrow> length (tlb m') = length (tlb m)"
  "fault_via_cause f cause va m = Ok (r, c', m') \<Longrightarrow> length (tlb m') = length (tlb m)"
  by (auto dest: fault_keeps_tlb)

lemma walk_leaf_tlb_length:
  "walk_leaf c pte va w x cause m = Ok (r, c', m') \<Longrightarrow> length (tlb m') = length (tlb m)"
  by (cases "tlb m' = tlb m") (auto dest!: walk_leaf_fills simp: tlb_put_def)

lemma translate_tlb_length:
  assumes "mmu_translate ram csr va w x cause m = Ok (r, c', m')"
  shows "length (tlb m') = length (tlb m)"
proof -
  have "mmu_walk ram csr va w x cause m1 = Ok (r, c', m') \<Longrightarrow> length (tlb m') = length (tlb m1)" for m1
    by (auto simp: mmu_walk_def dest: walk_leaf_tlb_length fault_tlb_length
        split: option.splits pt_walk.splits)
  moreover have "mmu_bare va w x cause m1 = Ok (r, c', m') \<Longrightarrow> length (tlb m') = length (tlb m1)" for m1
    by (auto simp: mmu_bare_def Let_def dest: fault_tlb_length split: option.splits if_splits)
  moreover obtain hit m1 where look: "tlb_lookup csr va (need_perms w x) m = (hit, m1)" by force
  moreover have "length (tlb m1) = length (tlb m)" using tlb_lookup_frame(1) [OF look] by simp
  ultimately show ?thesis
    using assms by (cases hit) (auto simp: mmu_translate_def split: if_splits)
qed

lemma fabric_issue_axi:
  assumes "fabric_issue t c ic = Ok (ok, ic')" and "cfg ic = axi_config" and "length (in_flight ic) \<le> 8"
  shows "cfg ic' = axi_config \<and> length (in_flight ic') \<le> 8"
proof -
  have full: "of_nat (length (in_flight ic)) \<ge> (ucast (max_outstanding (cfg ic)) :: size_t)
      \<longleftrightarrow> length (in_flight ic) = 8"
    using fabric_full_iff [of ic] assms(2,3) by (simp add: axi_config_def)
  with assms show ?thesis
    by (auto simp: fabric_issue_def bursts_def Let_def axi_config_def burst_bytes_def split: if_splits)
qed

lemma fabric_tick_axi:
  "length (in_flight ic) \<le> 8 \<Longrightarrow> length (in_flight (fabric_tick n ic)) \<le> 8"
  by (simp add: fabric_tick_eq le_trans [OF length_dropWhile_le])

section \<open>The primitives preserve the invariant\<close>

lemma wf_regs_vrs: "wf_regs r \<Longrightarrow> wf_vrs (vr r)"
  by (simp add: wf_regs_def wf_vrs_def)

lemma wf_regs_set_vr: "wf_regs r \<Longrightarrow> wf_vrs V \<Longrightarrow> wf_regs (r\<lparr>vr := V\<rparr>)"
  by (simp add: wf_regs_def wf_vrs_def)

lemma inv_frames:
  "emu_kept strict m k s \<Longrightarrow> wf_regs r \<Longrightarrow> emu_kept strict m k (s\<lparr>e_regs := r\<rparr>)"
  "emu_kept strict m k s \<Longrightarrow> emu_kept strict m k (s\<lparr>e_csr := c\<rparr>)"
  "emu_kept strict m k s \<Longrightarrow> emu_kept strict m k (s\<lparr>e_intc := i\<rparr>)"
  "emu_kept strict m k s \<Longrightarrow> emu_kept strict m k (s\<lparr>e_timer := t\<rparr>)"
  "emu_kept strict m k s \<Longrightarrow> uart_ok u \<Longrightarrow> emu_kept strict m k (s\<lparr>e_uart := u\<rparr>)"
  "emu_kept strict m k s \<Longrightarrow> wf_profiler p \<Longrightarrow> emu_kept strict m k (s\<lparr>e_profiler := p\<rparr>)"
  "emu_kept strict m k s \<Longrightarrow> emu_kept strict m k (s\<lparr>e_tick_accum := n\<rparr>)"
  "emu_kept strict m k s \<Longrightarrow> emu_kept strict m k (s\<lparr>e_block_cache := b\<rparr>)"
  "emu_kept strict m k s \<Longrightarrow> emu_kept strict m k (s\<lparr>e_last_pc := a\<rparr>)"
  "emu_kept strict m k s \<Longrightarrow> emu_kept strict m k (s\<lparr>e_shared := sh\<rparr>)"
  by (simp_all add: kept_defs wf_profiler_def)

lemma inv_parts:
  assumes "emu_inv m k s"
  shows "wf_regs (e_regs s)" "wf_profiler (e_profiler s)" "uart_ok (e_uart s)" "wf_target (e_target s)"
    "vec64 (sram_data (e_scratchpad s))" "vec64 (ram_data (e_main_ram s))" "e_bus s = mmio_devices"
  using assms by (simp_all add: inv_defs)

lemma kept_regs: "emu_kept strict m k s \<Longrightarrow> wf_regs (e_regs s)"
  by (simp add: kept_defs)

lemma kept_mem: "emu_kept strict m k s \<Longrightarrow> vec64 (sram_data (e_scratchpad s))"
  by (simp add: kept_defs)

lemma kept_uart: "emu_kept strict m k s \<Longrightarrow> (strict \<Longrightarrow> uart_ok (e_uart s) \<Longrightarrow> uart_ok u) \<Longrightarrow> emu_kept strict m k (s\<lparr>e_uart := u\<rparr>)"
  by (simp add: kept_defs)

lemma kept_profiler:
  "emu_kept strict m k s \<Longrightarrow> length (opcode_hist p) = NUM_OPCODES \<Longrightarrow> (strict \<Longrightarrow> wf_profiler (e_profiler s) \<Longrightarrow> wf_profiler p) \<Longrightarrow>
   emu_kept strict m k (s\<lparr>e_profiler := p\<rparr>)"
  by (simp add: kept_defs)

named_theorems inv_pres \<open>operations that preserve the invariant of the emulator\<close>

lemma pres_rd_gpr [inv_pres]: "preserves (emu_kept strict m k) (rd_gpr idx)"
  by (simp add: rd_gpr_def preserves_lift_res)

lemma pres_wr_gpr [inv_pres]: "preserves (emu_kept strict m k) (wr_gpr idx v)"
  unfolding wr_gpr_def
  by (rule preserves_update_res) (auto intro: inv_frames wf_write_gpr kept_regs)

lemma pres_set_pc [inv_pres]: "preserves (emu_kept strict m k) (set_pc a)"
  unfolding set_pc_def by (rule preserves_modify) (simp add: inv_frames kept_regs)

lemma pres_upd_flags [inv_pres]: "preserves (emu_kept strict m k) (upd_flags ov r)"
  unfolding upd_flags_def by (rule preserves_modify) (simp add: inv_frames kept_regs)

lemma pres_vr_ptr [inv_pres]: "preserves (emu_kept strict m k) (vr_ptr idx)"
  by (simp add: vr_ptr_def preserves_lift_res)

lemma vr_ptr_Ok: "emu_kept strict m k s \<Longrightarrow> vr_ptr idx s = (Ok d, s') \<Longrightarrow> d < 8 \<and> d = unat idx \<and> s' = s"
  by (auto simp: vr_ptr_def read_vr_def arr_get_def kept_defs wf_regs_def split: if_splits)

lemma pres_upd_vrs: "(\<And>V. wf_vrs V \<Longrightarrow> wf_vrs (f V)) \<Longrightarrow> preserves (emu_kept strict m k) (upd_vrs f)"
  unfolding upd_vrs_def
  by (rule preserves_modify) (simp add: inv_frames kept_regs wf_regs_set_vr wf_regs_vrs)

lemma pres_take_trap [inv_pres]: "preserves (emu_kept strict m k) (emu_take_trap t)"
  unfolding emu_take_trap_def
  by (rule preserves_modify) (auto simp: take_trap_def kept_defs)

lemma pres_enter_trap [inv_pres]: "preserves (emu_kept strict m k) (enter_trap t)"
  by (auto simp: enter_trap_def intro!: pres inv_pres)

lemma pres_translate [inv_pres]: "preserves (emu_kept strict m k) (emu_translate va w x)"
  by (rule preservesI)
    (auto simp: emu_translate_def kept_defs dest: translate_tlb_length split: res.splits)

lemma pres_axi_issue [inv_pres]: "preserves (emu_kept strict m k) (axi_issue addr n w)"
  by (rule preservesI)
    (auto simp: axi_issue_def Let_def kept_defs dest: fabric_issue_axi split: res.splits)

lemma pres_prof_record [inv_pres]: "preserves (emu_kept strict m k) (prof_record op c d)"
  unfolding prof_record_def
  by (rule preserves_update_res) (auto intro!: kept_profiler simp: profiler_record_length kept_defs dest: wf_profiler_record)

lemma pres_dev_read [inv_pres]: "preserves (emu_kept strict m k) (dev_read_call t addr)"
  by (cases t) (auto intro!: preservesI inv_frames split: prod.splits)

lemma pres_dev_write [inv_pres]: "preserves (emu_kept strict m k) (dev_write_call t addr v)"
  by (cases t) (auto intro!: preserves_modify preserves_update_res inv_frames kept_uart uart_write_ok)

lemma pres_bus_read [inv_pres]: "preserves (emu_kept strict m k) (emu_bus_read32 addr)"
  by (auto simp: emu_bus_read32_def intro!: pres inv_pres preserves_bus_read32)

lemma inv_set_sram:
  "emu_kept strict m k s \<Longrightarrow> length (sram_data r) = length (sram_data (e_scratchpad s)) \<Longrightarrow>
   emu_kept strict m k (s\<lparr>e_scratchpad := r\<rparr>)"
  by (simp add: kept_defs vec64_def)

lemma inv_set_ram:
  "emu_kept strict m k s \<Longrightarrow> length (ram_data r) = length (ram_data (e_main_ram s)) \<Longrightarrow>
   emu_kept strict m k (s\<lparr>e_main_ram := r\<rparr>)"
  by (simp add: kept_defs vec64_def)

lemma pres_bus_write [inv_pres]: "preserves (emu_kept strict m k) (emu_bus_write32 addr v)"
  by (auto simp: emu_bus_write32_def intro!: pres inv_pres preserves_bus_write32 inv_set_sram
      sram_write32_length kept_mem)

section \<open>The handlers preserve the invariant\<close>

lemma dma_copy_length: "dma_copy_host dst a src b n = Ok d \<Longrightarrow> length d = length dst"
  by (auto simp: dma_copy_host_def mem_read_def mem_write_def split: if_splits)

lemma pres_take_branch [inv_pres]: "preserves (emu_kept strict m k) (take_branch i c)"
  by (auto simp: take_branch_def intro!: pres inv_pres)

lemma pres_scalar_ops [inv_pres]:
  "preserves (emu_kept strict m k) (op_nop i)" "preserves (emu_kept strict m k) (op_jmp i)"
  "preserves (emu_kept strict m k) (op_beq i)" "preserves (emu_kept strict m k) (op_bne i)"
  "preserves (emu_kept strict m k) (op_add i)" "preserves (emu_kept strict m k) (op_sub i)"
  "preserves (emu_kept strict m k) (op_mul i)" "preserves (emu_kept strict m k) (op_mov i)"
  "preserves (emu_kept strict m k) (op_movi i)"
  unfolding op_nop_def op_jmp_def op_beq_def op_bne_def op_add_def op_sub_def op_mul_def
    op_mov_def op_movi_def Let_def
  by (intro pres inv_pres)+

lemma pres_halt [inv_pres]: "preserves (emu_kept strict m k) (op_halt i)"
  unfolding op_halt_def
  by (intro pres preserves_modify) (simp add: inv_frames kept_regs)

lemma pres_load [inv_pres]: "preserves (emu_kept strict m k) (op_load i)"
  unfolding op_load_def Let_def by (intro pres inv_pres)

lemma pres_store [inv_pres]: "preserves (emu_kept strict m k) (op_store i)"
  unfolding op_store_def Let_def by (intro pres inv_pres)

lemma pres_load_vr [inv_pres]: "preserves (emu_kept strict m k) (op_load_vr i)"
proof -
  have len: "length bs = 64"
    if "lift_res (\<lambda>s. sram_read_bytes (e_scratchpad s) a (of_nat VR_BYTE_SIZE)) s = (Ok bs, s')"
    for a bs and s s' :: emu
    using that by (auto simp: sram_read_bytes_def sram_check_bounds_def mem_read_def split: if_splits)
  have ptr: "emu_kept strict m k s \<Longrightarrow> vr_ptr idx s = (Ok d, s') \<Longrightarrow> d < 8" for idx s d s'
    by (auto dest: vr_ptr_Ok)
  show ?thesis
    unfolding op_load_vr_def Let_def
    by (rule preserves_bind [OF pres_rd_gpr], rule preserves_bind_post [OF pres_vr_ptr ptr], assumption+,
        rule preserves_bind_post [OF preserves_lift_res len], assumption)
      (auto intro!: pres pres_upd_vrs wf_vrs_update simp: words_of_bytes_length)
qed

lemma pres_store_vr [inv_pres]: "preserves (emu_kept strict m k) (op_store_vr i)"
  unfolding op_store_vr_def Let_def
  by (intro pres inv_pres preserves_update_res) (auto intro: inv_set_sram sram_write_bytes_length)

text \<open>The three register pointers of a vector instruction.\<close>

lemma pres_three_ptrs:
  assumes "\<And>d a b. d < 8 \<Longrightarrow> a < 8 \<Longrightarrow> b < 8 \<Longrightarrow> preserves (emu_kept strict m k) (f d a b)"
  shows "preserves (emu_kept strict m k)
     (bind (vr_ptr x) (\<lambda>d. bind (vr_ptr y) (\<lambda>a. bind (vr_ptr z) (\<lambda>b. f d a b))))"
proof -
  have post: "emu_kept strict m k s \<Longrightarrow> vr_ptr idx s = (Ok d, s') \<Longrightarrow> d < 8" for idx s d s'
    by (auto dest: vr_ptr_Ok)
  note bound = preserves_bind_post [OF pres_vr_ptr post]
  show ?thesis by (intro bound assms)
qed

lemma pres_vec_add [inv_pres]: "preserves (emu_kept strict m k) (op_vec_add h i)"
proof -
  have "wf_vrs (scalar_vec_add fp d a b V)" if "wf_vrs V" "d < 8" "a < 8" "b < 8" for fp d a b V
    using wf_vec_add_host [OF that, of Scalar fp] by simp
  then show ?thesis
    unfolding op_vec_add_def
    by (intro pres_three_ptrs pres pres_upd_vrs) (auto simp: wf_vec_add_host)
qed

lemma pres_matmul [inv_pres]: "preserves (emu_kept strict m k) (op_matmul_tile h i)"
  unfolding op_matmul_tile_def Let_def
  by (intro pres_three_ptrs pres pres_upd_vrs) (auto simp: wf_matmul_tile_host wf_matmul_loop)

lemma pres_dma_translate [inv_pres]:
  assumes "\<And>d a. preserves (emu_kept strict m k) (f d a)"
  shows "preserves (emu_kept strict m k) (dma_translate d a b f)"
  unfolding dma_translate_def
  by (intro pres inv_pres) (auto intro!: assms pres inv_pres split: option.split)

lemma pres_dma_load [inv_pres]: "preserves (emu_kept strict m k) (op_dma_load i)"
  unfolding op_dma_load_def Let_def
  by (intro pres inv_pres)
    (auto intro!: pres inv_pres preserves_update_res inv_set_sram dest: dma_copy_length)

lemma pres_dma_store [inv_pres]: "preserves (emu_kept strict m k) (op_dma_store i)"
  unfolding op_dma_store_def Let_def
  by (intro pres inv_pres)
    (auto intro!: pres inv_pres preserves_update_res inv_set_ram dest: dma_copy_length)

lemma pres_dispatch: "dispatch h op = Some f \<Longrightarrow> preserves (emu_kept strict m k) (f i)"
  by (cases op) (auto intro: inv_pres)

lemma pres_execute [inv_pres]: "preserves (emu_kept strict m k) (execute h i)"
proof (cases "dispatch h (instr_opcode i)")
  case None
  then show ?thesis
    by (auto simp: execute_def Let_def intro!: pres inv_pres)
next
  case (Some f)
  from pres_dispatch [OF this] show ?thesis
    by (auto simp: execute_def Let_def Some intro!: pres inv_pres preserves_modify inv_frames)
qed

lemma pres_fetch [inv_pres]: "preserves (emu_kept strict m k) fetch"
  unfolding fetch_def by (intro pres) (auto intro!: pres inv_pres split: option.split)

section \<open>The peripheral tick\<close>

lemma fabric_tick_cfg [simp]: "cfg (fabric_tick n ic) = cfg ic"
  by (simp add: fabric_tick_eq)

lemma inv_tick_once: "emu_kept strict m k s \<Longrightarrow> emu_kept strict m k (tick_once s)"
  by (simp add: kept_defs tick_once_def Let_def fabric_tick_axi)

lemma tick_peripherals_induct:
  assumes "P s" and "\<And>s. P s \<Longrightarrow> CYCLES_PER_TICK \<le> e_tick_accum s \<Longrightarrow> P (tick_once s)"
  shows "P (tick_peripherals s)"
  using assms(1)
proof (induction s rule: tick_peripherals.induct)
  case (1 s)
  then show ?case
    using assms(2) by (subst tick_peripherals.simps) auto
qed

lemma inv_tick_peripherals: "emu_kept strict m k s \<Longrightarrow> emu_kept strict m k (tick_peripherals s)"
  by (rule tick_peripherals_induct) (auto intro: inv_tick_once)

text \<open>The loop in closed form: one turn for every full period that has accumulated.\<close>

lemma tick_once_accum: "e_tick_accum (tick_once s) = e_tick_accum s - CYCLES_PER_TICK"
  by (simp add: tick_once_def Let_def)

lemma tick_peripherals_funpow:
  "tick_peripherals s = (tick_once ^^ (unat (e_tick_accum s) div 1000)) s"
proof (induction s rule: tick_peripherals.induct)
  case (1 s)
  let ?n = "unat (e_tick_accum s)"
  show ?case
  proof (cases "CYCLES_PER_TICK \<le> e_tick_accum s")
    case True
    then have le: "1000 \<le> ?n" by (simp add: word_le_nat_alt CYCLES_PER_TICK_def)
    have "unat (e_tick_accum (tick_once s)) = ?n - 1000"
      using True by (simp add: tick_once_accum unat_sub CYCLES_PER_TICK_def)
    with 1 True have "tick_peripherals s = (tick_once ^^ ((?n - 1000) div 1000)) (tick_once s)"
      by (subst tick_peripherals.simps) simp
    also have "\<dots> = (tick_once ^^ Suc ((?n - 1000) div 1000)) s"
      by (simp only: funpow_Suc_right comp_apply)
    also have "Suc ((?n - 1000) div 1000) = ?n div 1000"
      using le by (simp add: le_div_geq)
    finally show ?thesis .
  next
    case False
    then have "?n < 1000" by (simp add: word_le_nat_alt CYCLES_PER_TICK_def)
    with False show ?thesis by (subst tick_peripherals.simps) simp
  qed
qed

lemma tick_peripherals_small: "e_tick_accum (tick_peripherals s) < CYCLES_PER_TICK"
proof (induction s rule: tick_peripherals.induct)
  case (1 s)
  then show ?case by (subst tick_peripherals.simps) (auto simp: not_le)
qed

section \<open>Step and run preserve the invariant\<close>

lemma pres_tick [inv_pres]: "preserves (emu_kept strict m k) (modify tick_peripherals)"
  by (rule preserves_modify) (rule inv_tick_peripherals)

lemma pres_check_interrupts [inv_pres]: "preserves (emu_kept strict m k) check_interrupts"
  unfolding check_interrupts_def by (intro pres inv_pres)

lemma pres_save_verbose [inv_pres]: "preserves (emu_kept strict m k) save_verbose"
  unfolding save_verbose_def by (rule preserves_modify) (simp add: kept_defs)

lemma pres_step [inv_pres]: "preserves (emu_kept strict m k) (step h)"
  unfolding step_unfold by (intro pres inv_pres)

lemma pres_emu_block [inv_pres]: "preserves (emu_kept strict m k) emu_block"
  by (rule preservesI) (auto simp: emu_block_def intro: inv_frames split: prod.splits)

lemma pres_replay [inv_pres]: "preserves (emu_kept strict m k) (replay h is)"
proof (induction "is")
  case Nil
  show ?case unfolding replay.simps by (rule preserves_ret)
next
  case (Cons i "is")
  then show ?case unfolding replay.simps by (intro pres inv_pres)
qed

lemma pres_fast_turn [inv_pres]: "preserves (emu_kept strict m k) (fast_turn h)"
  unfolding fast_turn_def by (intro pres inv_pres)

lemma inv_flush_uart:
  "flush_uart (r, s) = (r', s') \<Longrightarrow> emu_kept strict m k s \<Longrightarrow> emu_kept strict m k s'"
  by (auto simp: flush_uart_def intro!: kept_uart uart_flush_ok split: res.splits)

lemma run_loop_inv:
  "run_loop h n s = Some (r, s') \<Longrightarrow> r \<noteq> Undef \<Longrightarrow> emu_kept strict m k s \<Longrightarrow> emu_kept strict m k s'"
proof (induction n arbitrary: s)
  case (Suc n)
  show ?case
  proof (cases "stopped s")
    case False
    obtain r1 s1 where st: "step h s = (r1, s1)" by force
    have "r1 \<noteq> Undef \<Longrightarrow> emu_kept strict m k s1"
      using preservesD [OF pres_step Suc.prems(3), of h] st by simp
    with Suc False st show ?thesis
      by (cases r1) (auto simp: run_loop.simps [of h "Suc n" s])
  qed (use Suc.prems in \<open>simp add: run_loop.simps [of h "Suc n" s]\<close>)
qed (simp add: run_loop.simps split: if_splits)

lemma fast_loop_inv:
  "fast_loop h n s = Some (r, s') \<Longrightarrow> r \<noteq> Undef \<Longrightarrow> emu_kept strict m k s \<Longrightarrow> emu_kept strict m k s'"
proof (induction n arbitrary: s)
  case (Suc n)
  show ?case
  proof (cases "stopped s")
    case False
    obtain r1 s1 where st: "fast_turn h s = (r1, s1)" by force
    have "r1 \<noteq> Undef \<Longrightarrow> emu_kept strict m k s1"
      using preservesD [OF pres_fast_turn Suc.prems(3), of h] st by simp
    with Suc False st show ?thesis
      by (cases r1) (auto simp: fast_loop.simps [of h "Suc n" s])
  qed (use Suc.prems in \<open>simp add: fast_loop.simps [of h "Suc n" s]\<close>)
qed (simp add: fast_loop.simps split: if_splits)

end
