(* ===== verification/Isa_Spec.thy ===== *)
theory Isa_Spec
  imports Emu_Inv
begin

text \<open>
  The instruction set as the programmer sees it, and the proof that the emulator implements
  it. An architectural state has registers as functions, the program counter, the halt flag,
  the status flags and the two memories; there are no devices, caches, fabrics, counters or
  translation in it. \<open>isa_exec\<close> is one equation per instruction; \<open>None\<close> is the error of an
  access outside a memory or of a bad tile size.

  The architectural flags are zero and negative. The overflow flag is left out: the comments
  announce signed overflow for \<open>ADD\<close> and \<open>SUB\<close>, and the emulator clears the flag in every
  arithmetic instruction (\<open>overflow_flag_lost\<close> in \<open>Emu_Props\<close>).

  The emulator implements the instruction set on a quiet machine (translation off, interrupts masked, no trap
  handler) and under conditions on the instruction that is executed (\<open>isa_ready\<close>): it is not
  fetched from a device; its register fields name registers that exist; a \<open>LOAD\<close> or \<open>STORE\<close>
  does not go to a device; a DMA range does not wrap the 32-bit address space; the destination
  of \<open>MATMUL_TILE\<close> is neither of its sources. Outside of these conditions the sources access
  a device, index or copy outside their arrays, or multiply a tile they are overwriting.
\<close>

record arch_flags =
  af_zero :: bool
  af_negative :: bool

definition flags_of :: "status_flags \<Rightarrow> arch_flags" where
  "flags_of f = \<lparr>af_zero = sf_zero f, af_negative = sf_negative f\<rparr>"

record arch =
  a_gpr :: "u8 \<Rightarrow> u32"
  a_vr :: "u8 \<Rightarrow> f32 list"
  a_pc :: u32
  a_halt :: bool
  a_flags :: arch_flags
  a_mem :: "u8 list"
  a_dram :: "u8 list"

definition gprs :: "u32 list \<Rightarrow> u8 \<Rightarrow> u32" where
  "gprs g = (\<lambda>i. if i < 16 then g ! unat i else 0)"

definition vrs :: "f32 list list \<Rightarrow> u8 \<Rightarrow> f32 list" where
  "vrs V = (\<lambda>i. if i < 8 then V ! unat i else [])"

definition arch_of :: "emu \<Rightarrow> arch" where
  "arch_of s = \<lparr>a_gpr = gprs (gpr (e_regs s)), a_vr = vrs (vr (e_regs s)),
     a_pc = pc (e_regs s), a_halt = halt (e_regs s), a_flags = flags_of (status (e_regs s)),
     a_mem = sram_data (e_scratchpad s), a_dram = ram_data (e_main_ram s)\<rparr>"

section \<open>The instructions\<close>

definition a_write :: "u8 \<Rightarrow> u32 \<Rightarrow> arch \<Rightarrow> arch" where
  "a_write d v A = (if d = 0 then A else A\<lparr>a_gpr := (a_gpr A)(d := v)\<rparr>)"

definition a_result :: "u8 \<Rightarrow> u32 \<Rightarrow> arch \<Rightarrow> arch" where
  "a_result d v A = (a_write d v A)\<lparr>a_flags :=
     \<lparr>af_zero = (v = 0), af_negative = (sint v < 0)\<rparr>\<rparr>"

definition in_range :: "'a list \<Rightarrow> u32 \<Rightarrow> nat \<Rightarrow> bool" where
  "in_range xs addr n \<longleftrightarrow> unat addr + n \<le> length xs"

definition ea :: "instruction \<Rightarrow> arch \<Rightarrow> u32" where
  "ea i A = a_gpr A (instr_ra i) + instr_simm16 i"

definition tile_n :: "instruction \<Rightarrow> u8" where
  "tile_n i = ucast (instr_func i AND 0xF)"

fun isa_exec :: "fpu \<Rightarrow> opcode \<Rightarrow> instruction \<Rightarrow> arch \<Rightarrow> arch option" where
  "isa_exec fp NOP i A = Some A"
| "isa_exec fp HALT i A = Some (A\<lparr>a_halt := True\<rparr>)"
| "isa_exec fp JMP i A = Some (A\<lparr>a_pc := instr_target i\<rparr>)"
| "isa_exec fp BEQ i A = Some (if a_gpr A (instr_rd i) = a_gpr A (instr_ra i)
     then A\<lparr>a_pc := a_pc A + instr_offset i\<rparr> else A)"
| "isa_exec fp BNE i A = Some (if a_gpr A (instr_rd i) \<noteq> a_gpr A (instr_ra i)
     then A\<lparr>a_pc := a_pc A + instr_offset i\<rparr> else A)"
| "isa_exec fp ADD i A = Some (a_result (instr_rd i) (a_gpr A (instr_ra i) + a_gpr A (instr_rb i)) A)"
| "isa_exec fp SUB i A = Some (a_result (instr_rd i) (a_gpr A (instr_ra i) - a_gpr A (instr_rb i)) A)"
| "isa_exec fp MUL i A = Some (a_result (instr_rd i) (a_gpr A (instr_ra i) * a_gpr A (instr_rb i)) A)"
| "isa_exec fp LOAD i A = (if in_range (a_mem A) (ea i A) 4
     then Some (a_write (instr_rd i) (le_word32 (slice (unat (ea i A)) 4 (a_mem A))) A) else None)"
| "isa_exec fp STORE i A = (if in_range (a_mem A) (ea i A) 4
     then Some (A\<lparr>a_mem := splice_at (unat (ea i A)) (le_bytes32 (a_gpr A (instr_rd i))) (a_mem A)\<rparr>) else None)"
| "isa_exec fp MOV i A = Some (a_write (instr_rd i) (a_gpr A (instr_ra i)) A)"
| "isa_exec fp MOVI i A = Some (a_write (instr_rd i) (ucast (instr_imm16 i)) A)"
| "isa_exec fp LOAD_VR i A = (if in_range (a_mem A) (ea i A) 64
     then Some (A\<lparr>a_vr := (a_vr A)(instr_rd i := words_of_bytes (slice (unat (ea i A)) 64 (a_mem A)))\<rparr>) else None)"
| "isa_exec fp STORE_VR i A = (if in_range (a_mem A) (ea i A) 64
     then Some (A\<lparr>a_mem := splice_at (unat (ea i A)) (bytes_of_words (a_vr A (instr_rd i))) (a_mem A)\<rparr>) else None)"
| "isa_exec fp VEC_ADD i A = Some (A\<lparr>a_vr := (a_vr A)(instr_rd i :=
     map2 (fadd fp) (a_vr A (instr_ra i)) (a_vr A (instr_rb i)))\<rparr>)"
| "isa_exec fp MATMUL_TILE i A = (if tile_n i = 0 \<or> unat (tile_n i) > 4 then None
     else Some (A\<lparr>a_vr := (a_vr A)(instr_rd i := matmul_ref fp (unat (tile_n i))
        (a_vr A (instr_ra i)) (a_vr A (instr_rb i)) (a_vr A (instr_rd i)))\<rparr>))"
| "isa_exec fp DMA_LOAD i A =
     (let dest = a_gpr A (instr_rd i); src = a_gpr A (instr_ra i); n = unat (instr_func i) in
      if in_range (a_mem A) dest n \<and> in_range (a_dram A) src n
      then Some (A\<lparr>a_mem := splice_at (unat dest) (slice (unat src) n (a_dram A)) (a_mem A)\<rparr>) else None)"
| "isa_exec fp DMA_STORE i A =
     (let dest = a_gpr A (instr_rd i); src = a_gpr A (instr_ra i); n = unat (instr_func i) in
      if in_range (a_dram A) dest n \<and> in_range (a_mem A) src n
      then Some (A\<lparr>a_dram := splice_at (unat dest) (slice (unat src) n (a_mem A)) (a_dram A)\<rparr>) else None)"
| "isa_exec fp (OtherOp c) i A = None"

text \<open>Fetch, advance the program counter, execute; a halted machine stays as it is.\<close>

definition fetched :: "arch \<Rightarrow> instruction" where
  "fetched A = \<lparr>raw = le_word32 (slice (unat (a_pc A)) 4 (a_mem A))\<rparr>"

definition isa_step :: "fpu \<Rightarrow> arch \<Rightarrow> arch option" where
  "isa_step fp A =
     (if a_halt A then Some A
      else if in_range (a_mem A) (a_pc A) 4
      then isa_exec fp (instr_opcode (fetched A)) (fetched A) (A\<lparr>a_pc := a_pc A + 4\<rparr>)
      else None)"

section \<open>The conditions on the operands\<close>

definition device_addr :: "u32 \<Rightarrow> bool" where
  "device_addr a \<longleftrightarrow> MMIO_BASE \<le> a \<and> a < MMIO_BASE + 0x2000"

definition gpr_ok :: "u8 \<Rightarrow> bool" where "gpr_ok i \<longleftrightarrow> i < 16"
definition vr_ok :: "u8 \<Rightarrow> bool" where "vr_ok i \<longleftrightarrow> i < 8"

fun operands_ok :: "opcode \<Rightarrow> instruction \<Rightarrow> arch \<Rightarrow> bool" where
  "operands_ok NOP i A \<longleftrightarrow> True"
| "operands_ok HALT i A \<longleftrightarrow> True"
| "operands_ok JMP i A \<longleftrightarrow> True"
| "operands_ok BEQ i A \<longleftrightarrow> gpr_ok (instr_rd i) \<and> gpr_ok (instr_ra i)"
| "operands_ok BNE i A \<longleftrightarrow> gpr_ok (instr_rd i) \<and> gpr_ok (instr_ra i)"
| "operands_ok ADD i A \<longleftrightarrow> gpr_ok (instr_rd i) \<and> gpr_ok (instr_ra i) \<and> gpr_ok (instr_rb i)"
| "operands_ok SUB i A \<longleftrightarrow> gpr_ok (instr_rd i) \<and> gpr_ok (instr_ra i) \<and> gpr_ok (instr_rb i)"
| "operands_ok MUL i A \<longleftrightarrow> gpr_ok (instr_rd i) \<and> gpr_ok (instr_ra i) \<and> gpr_ok (instr_rb i)"
| "operands_ok LOAD i A \<longleftrightarrow> gpr_ok (instr_rd i) \<and> gpr_ok (instr_ra i) \<and> \<not> device_addr (ea i A)"
| "operands_ok STORE i A \<longleftrightarrow> gpr_ok (instr_rd i) \<and> gpr_ok (instr_ra i) \<and> \<not> device_addr (ea i A)"
| "operands_ok MOV i A \<longleftrightarrow> gpr_ok (instr_rd i) \<and> gpr_ok (instr_ra i)"
| "operands_ok MOVI i A \<longleftrightarrow> gpr_ok (instr_rd i)"
| "operands_ok LOAD_VR i A \<longleftrightarrow> vr_ok (instr_rd i) \<and> gpr_ok (instr_ra i)"
| "operands_ok STORE_VR i A \<longleftrightarrow> vr_ok (instr_rd i) \<and> gpr_ok (instr_ra i)"
| "operands_ok VEC_ADD i A \<longleftrightarrow> vr_ok (instr_rd i) \<and> vr_ok (instr_ra i) \<and> vr_ok (instr_rb i)"
| "operands_ok MATMUL_TILE i A \<longleftrightarrow> vr_ok (instr_rd i) \<and> vr_ok (instr_ra i) \<and> vr_ok (instr_rb i)
     \<and> instr_rd i \<noteq> instr_ra i \<and> instr_rd i \<noteq> instr_rb i"
| "operands_ok DMA_LOAD i A \<longleftrightarrow> gpr_ok (instr_rd i) \<and> gpr_ok (instr_ra i)
     \<and> unat (a_gpr A (instr_rd i)) + unat (instr_func i) < 2 ^ 32
     \<and> unat (a_gpr A (instr_ra i)) + unat (instr_func i) < 2 ^ 32"
| "operands_ok DMA_STORE i A \<longleftrightarrow> gpr_ok (instr_rd i) \<and> gpr_ok (instr_ra i)
     \<and> unat (a_gpr A (instr_rd i)) + unat (instr_func i) < 2 ^ 32
     \<and> unat (a_gpr A (instr_ra i)) + unat (instr_func i) < 2 ^ 32"
| "operands_ok (OtherOp c) i A \<longleftrightarrow> True"

section \<open>Primitives on architectural states\<close>

lemma arch_of_frames [simp]:
  "arch_of (s\<lparr>e_axi := ic\<rparr>) = arch_of s" "arch_of (s\<lparr>e_profiler := p\<rparr>) = arch_of s"
  "arch_of (s\<lparr>e_tick_accum := n\<rparr>) = arch_of s" "arch_of (s\<lparr>e_timer := t\<rparr>) = arch_of s"
  "arch_of (s\<lparr>e_block_cache := b\<rparr>) = arch_of s" "arch_of (s\<lparr>e_uart := u\<rparr>) = arch_of s"
  by (simp_all add: arch_of_def)

lemma arch_of_sel [simp]:
  "a_pc (arch_of s) = pc (e_regs s)" "a_halt (arch_of s) = halt (e_regs s)"
  "a_flags (arch_of s) = flags_of (status (e_regs s))"
  "a_mem (arch_of s) = sram_data (e_scratchpad s)" "a_dram (arch_of s) = ram_data (e_main_ram s)"
  by (simp_all add: arch_of_def)

lemma arch_of_upd:
  "arch_of (s\<lparr>e_regs := (e_regs s)\<lparr>pc := a\<rparr>\<rparr>) = (arch_of s)\<lparr>a_pc := a\<rparr>"
  "arch_of (s\<lparr>e_regs := (e_regs s)\<lparr>halt := b\<rparr>\<rparr>) = (arch_of s)\<lparr>a_halt := b\<rparr>"
  "arch_of (s\<lparr>e_scratchpad := r\<rparr>) = (arch_of s)\<lparr>a_mem := sram_data r\<rparr>"
  "arch_of (s\<lparr>e_main_ram := q\<rparr>) = (arch_of s)\<lparr>a_dram := ram_data q\<rparr>"
  by (simp_all add: arch_of_def)

lemma gprs_update: "length g = 16 \<Longrightarrow> i < 16 \<Longrightarrow> gprs (g[unat i := v]) = (gprs g)(i := v)"
  by (auto simp: gprs_def fun_eq_iff nth_list_update word_less_nat_alt word_unat_eq_iff)

lemma vrs_update: "length V = 8 \<Longrightarrow> i < 8 \<Longrightarrow> vrs (V[unat i := v]) = (vrs V)(i := v)"
  by (auto simp: vrs_def fun_eq_iff nth_list_update word_less_nat_alt word_unat_eq_iff)

lemma rd_gpr_arch:
  "wf_regs (e_regs s) \<Longrightarrow> gpr_ok i \<Longrightarrow> rd_gpr i s = (Ok (a_gpr (arch_of s) i), s)"
  by (simp add: rd_gpr_def gpr_ok_def read_gpr_Ok arch_of_def gprs_def)

lemma wr_gpr_arch:
  assumes "wf_regs (e_regs s)" and "gpr_ok i"
  obtains r where "wr_gpr i v s = (Ok (), s\<lparr>e_regs := r\<rparr>)" and "wf_regs r"
    and "arch_of (s\<lparr>e_regs := r\<rparr>) = a_write i v (arch_of s)"
proof -
  let ?g = "gpr (e_regs s)"
  let ?r = "(e_regs s)\<lparr>gpr := ?g[unat i := (if i = 0 then 0 else v)]\<rparr>"
  have w: "write_gpr (e_regs s) i v = Ok ?r"
    using assms by (simp add: gpr_ok_def write_gpr_Ok)
  have len: "length ?g = 16" and z: "?g ! 0 = 0"
    using assms(1) by (simp_all add: wf_regs_def)
  have "?g[0 := 0] = ?g" using z by (metis list_update_id)
  then have "gprs (?g[unat i := (if i = 0 then 0 else v)]) = (if i = 0 then gprs ?g else (gprs ?g)(i := v))"
    using gprs_update [of ?g i v] len assms(2) by (simp add: gpr_ok_def)
  then have "arch_of (s\<lparr>e_regs := ?r\<rparr>) = a_write i v (arch_of s)"
    by (cases "i = 0") (simp_all add: arch_of_def a_write_def)
  with that [of ?r] w wf_write_gpr [OF assms(1) w] show ?thesis
    by (simp add: wr_gpr_def update_res_def)
qed

section \<open>The handlers implement the instructions\<close>

text \<open>
  An outcome implements the result of the specification: it returns in a state that stands for
  the specified one, or throws in a state that stands for the old one. In both cases the CSRs,
  the MMU, the debugger and the verbose flag are as before.
\<close>

definition frame :: "emu \<Rightarrow> emu \<Rightarrow> bool" where
  "frame s s' \<longleftrightarrow> e_csr s' = e_csr s \<and> e_mmu s' = e_mmu s \<and> e_debugger s' = e_debugger s
     \<and> e_verbose s' = e_verbose s"

definition implements :: "arch option \<Rightarrow> emu \<Rightarrow> 'a res \<times> emu \<Rightarrow> bool" where
  "implements A s r \<longleftrightarrow> frame s (snd r) \<and> (case A of
     Some A' \<Rightarrow> (\<exists>c. fst r = Ok c) \<and> arch_of (snd r) = A'
   | None \<Rightarrow> (\<exists>e. fst r = Err e) \<and> arch_of (snd r) = arch_of s)"

lemma frame_simps [simp]:
  "frame s s" "frame s (s\<lparr>e_regs := r\<rparr>)" "frame s (s\<lparr>e_axi := ic\<rparr>)"
  "frame s (s\<lparr>e_axi := ic, e_regs := r\<rparr>)" "frame s (s\<lparr>e_axi := ic, e_scratchpad := m\<rparr>)"
  "frame s (s\<lparr>e_scratchpad := m\<rparr>)" "frame s (s\<lparr>e_axi := ic, e_main_ram := d\<rparr>)"
  "frame s (s\<lparr>e_axi := ic, e_profiler := p, e_scratchpad := m\<rparr>)"
  by (simp_all add: frame_def)

lemma frame_trans: "frame s t \<Longrightarrow> frame t u \<Longrightarrow> frame s u"
  by (simp add: frame_def)

lemma bind_eq: "m s = (Ok a, s') \<Longrightarrow> bind m f s = f a s'"
  by (simp add: bind_def)

lemma a_result_arch:
  assumes "arch_of (s\<lparr>e_regs := r\<rparr>) = a_write d v (arch_of s)"
  shows "arch_of (s\<lparr>e_regs := update_flags_u32 (r\<lparr>status := f\<rparr>) v\<rparr>) = a_result d v (arch_of s)"
proof -
  have "arch_of (s\<lparr>e_regs := update_flags_u32 (r\<lparr>status := f\<rparr>) v\<rparr>) =
      (arch_of (s\<lparr>e_regs := r\<rparr>))\<lparr>a_flags :=
        \<lparr>af_zero = (v = 0), af_negative = (sint v < 0)\<rparr>\<rparr>"
    by (simp add: arch_of_def update_flags_u32_def sign_bit_eq flags_of_def)
  with assms show ?thesis by (simp add: a_result_def)
qed

lemma op_alu:
  assumes "wf_regs (e_regs s)" and "gpr_ok d"
  shows "implements (Some (a_result d v (arch_of s))) s
    (bind (wr_gpr d v) (\<lambda>_. bind (upd_flags ov v) (\<lambda>_. ret (c :: u32))) s)"
proof -
  from wr_gpr_arch [OF assms, of v] obtain r where
    "wr_gpr d v s = (Ok (), s\<lparr>e_regs := r\<rparr>)" "wf_regs r"
    "arch_of (s\<lparr>e_regs := r\<rparr>) = a_write d v (arch_of s)" by blast
  then show ?thesis
    by (simp add: bind_eq upd_flags_def implements_def a_result_arch)
qed

lemma op_write:
  assumes "wf_regs (e_regs s)" and "gpr_ok d"
  shows "implements (Some (a_write d v (arch_of s))) s (bind (wr_gpr d v) (\<lambda>_. ret (c :: u32)) s)"
proof -
  from wr_gpr_arch [OF assms, of v] obtain r where
    "wr_gpr d v s = (Ok (), s\<lparr>e_regs := r\<rparr>)" "wf_regs r"
    "arch_of (s\<lparr>e_regs := r\<rparr>) = a_write d v (arch_of s)" by blast
  then show ?thesis by (simp add: bind_eq implements_def)
qed

lemma ops_scalar:
  assumes "wf_regs (e_regs s)" and "operands_ok op i (arch_of s)"
    and "op \<in> {NOP, HALT, JMP, BEQ, BNE, ADD, SUB, MUL, MOV, MOVI}" and "dispatch h op = Some f"
  shows "implements (isa_exec fp op i (arch_of s)) s (f i s)"
  using assms
  by (auto simp: op_nop_def op_halt_def op_jmp_def op_beq_def op_bne_def op_add_def op_sub_def
      op_mul_def op_mov_def op_movi_def take_branch_def bind_eq rd_gpr_arch set_pc_def arch_of_upd
      implements_def [of _ _ "(Ok x, t)" for x t] Let_def op_alu op_write)

text \<open>Bus and fabric.\<close>

lemma route_devices: "bus_route mmio_devices a = None \<longleftrightarrow> \<not> device_addr a"
proof -
  have "MMIO_BASE \<le> a \<Longrightarrow>
      (a < MMIO_BASE + 0x1000 \<or> (MMIO_BASE + UART_BASE \<le> a \<and> a < MMIO_BASE + UART_BASE + 0x1000))
      \<longleftrightarrow> a < MMIO_BASE + 0x2000"
    by (auto simp: config_defs word_less_nat_alt word_le_nat_alt)
  then show ?thesis
    by (auto simp: bus_route_def mmio_devices_def bus_add_device_def dev_match_def device_addr_def)
qed

lemma bus_read_arch:
  assumes "emu_inv m k s" and "\<not> device_addr a"
  shows "emu_bus_read32 a s =
     (if in_range (a_mem (arch_of s)) a 4
      then Ok (le_word32 (slice (unat a) 4 (a_mem (arch_of s)))) else Err (SramOutOfBounds a 4), s)"
  using assms inv_parts [OF assms(1)]
  by (simp add: emu_bus_read32_def bus_read32_def route_devices [THEN iffD2] sram_read32_eq in_range_def)

lemma bus_write_arch:
  assumes "emu_inv m k s" and "\<not> device_addr a"
  shows "emu_bus_write32 a v s =
     (if in_range (a_mem (arch_of s)) a 4
      then (Ok (), s\<lparr>e_scratchpad := (e_scratchpad s)\<lparr>sram_data :=
          splice_at (unat a) (le_bytes32 v) (a_mem (arch_of s))\<rparr>\<rparr>)
      else (Err (SramOutOfBounds a 4), s))"
  using assms inv_parts [OF assms(1)]
  by (simp add: emu_bus_write32_def bus_write32_def route_devices [THEN iffD2] sram_write32_eq
      in_range_def update_res_def)

lemma axi_issue_ok:
  assumes "emu_inv m k s"
  obtains ok ic where "axi_issue a n w s = (Ok ok, s\<lparr>e_axi := ic\<rparr>)" and "emu_inv m k (s\<lparr>e_axi := ic\<rparr>)"
proof -
  have "cfg (e_axi s) = axi_config" using assms by (simp add: inv_defs)
  then have "\<exists>x. fabric_issue t c (e_axi s) = Ok x" for t c
    by (auto simp: fabric_issue_def bursts_def burst_bytes_def axi_config_def Let_def)
  then obtain ok ic where "axi_issue a n w s = (Ok ok, s\<lparr>e_axi := ic\<rparr>)"
    unfolding axi_issue_def Let_def by (metis (no_types, lifting) old.prod.case res.case(1) surj_pair)
  with that preservesD [OF pres_axi_issue assms, of a n w] show ?thesis by simp
qed

lemma op_load_implements:
  assumes inv: "emu_inv m k s" and off: "\<not> mmu_enabled (e_mmu s)" and ops: "operands_ok LOAD i (arch_of s)"
  shows "implements (isa_exec fp LOAD i (arch_of s)) s (op_load i s)"
proof -
  let ?a = "ea i (arch_of s)"
  from axi_issue_ok [OF inv] obtain ok ic where ax: "axi_issue ?a 4 False s = (Ok ok, s\<lparr>e_axi := ic\<rparr>)"
    and inv1: "emu_inv m k (s\<lparr>e_axi := ic\<rparr>)" by blast
  have rd: "rd_gpr (instr_ra i) s = (Ok (a_gpr (arch_of s) (instr_ra i)), s)"
    using ops inv_parts(1) [OF inv] by (simp add: rd_gpr_arch)
  have bus: "emu_bus_read32 ?a (s\<lparr>e_axi := ic\<rparr>) =
     (if in_range (a_mem (arch_of s)) ?a 4
      then Ok (le_word32 (slice (unat ?a) 4 (a_mem (arch_of s)))) else Err (SramOutOfBounds ?a 4), s\<lparr>e_axi := ic\<rparr>)"
    using bus_read_arch [OF inv1, of ?a] ops by simp
  have load: "op_load i s = bind (emu_bus_read32 ?a)
      (\<lambda>v. bind (wr_gpr (instr_rd i) v) (\<lambda>_. ret (cycle_weight LOAD 0))) (s\<lparr>e_axi := ic\<rparr>)"
    using off by (simp add: op_load_def bind_eq rd ax Let_def flip: ea_def)
  show ?thesis
  proof (cases "in_range (a_mem (arch_of s)) ?a 4")
    case True
    let ?v = "le_word32 (slice (unat ?a) 4 (a_mem (arch_of s)))"
    have wr: "implements (Some (a_write (instr_rd i) ?v (arch_of s))) (s\<lparr>e_axi := ic\<rparr>)
        (bind (wr_gpr (instr_rd i) ?v) (\<lambda>_. ret (cycle_weight LOAD 0)) (s\<lparr>e_axi := ic\<rparr>))"
      using op_write [of "s\<lparr>e_axi := ic\<rparr>" "instr_rd i" ?v] inv_parts(1) [OF inv1] ops by simp
    with True bus show ?thesis
      unfolding load by (simp add: bind_def implements_def frame_def)
  next
    case False
    with bus show ?thesis unfolding load by (simp add: bind_def implements_def)
  qed
qed

lemma op_store_implements:
  assumes inv: "emu_inv m k s" and off: "\<not> mmu_enabled (e_mmu s)" and ops: "operands_ok STORE i (arch_of s)"
  shows "implements (isa_exec fp STORE i (arch_of s)) s (op_store i s)"
proof -
  let ?a = "ea i (arch_of s)"
  from axi_issue_ok [OF inv] obtain ok ic where ax: "axi_issue ?a 4 True s = (Ok ok, s\<lparr>e_axi := ic\<rparr>)"
    and inv1: "emu_inv m k (s\<lparr>e_axi := ic\<rparr>)" by blast
  have rd: "rd_gpr (instr_ra i) s = (Ok (a_gpr (arch_of s) (instr_ra i)), s)"
    "rd_gpr (instr_rd i) s = (Ok (a_gpr (arch_of s) (instr_rd i)), s)"
    using ops inv_parts(1) [OF inv] by (simp_all add: rd_gpr_arch)
  have store: "op_store i s = bind (emu_bus_write32 ?a (a_gpr (arch_of s) (instr_rd i)))
      (\<lambda>_. ret (cycle_weight STORE 0)) (s\<lparr>e_axi := ic\<rparr>)"
    using off by (simp add: op_store_def bind_eq rd ax Let_def flip: ea_def)
  show ?thesis
    using ops unfolding store
    by (simp add: bind_def bus_write_arch [OF inv1] implements_def)
      (simp add: arch_of_def)
qed

text \<open>Vector registers.\<close>

lemma vr_ptr_arch:
  "wf_regs (e_regs s) \<Longrightarrow> vr_ok i \<Longrightarrow> vr_ptr i s = (Ok (unat i), s)"
  by (simp add: vr_ptr_def read_vr_def arr_get_def wf_regs_def vr_ok_def word_less_nat_alt)

lemma upd_vrs_arch:
  assumes "wf_regs (e_regs s)" and "vr_ok d"
  shows "arch_of (s\<lparr>e_regs := (e_regs s)\<lparr>vr := (vr (e_regs s))[unat d := v]\<rparr>\<rparr>) =
     (arch_of s)\<lparr>a_vr := (a_vr (arch_of s))(d := v)\<rparr>"
  using assms by (simp add: arch_of_def vrs_update wf_regs_def vr_ok_def)

lemma vrs_nth: "vr_ok i \<Longrightarrow> a_vr (arch_of s) i = vr (e_regs s) ! unat i"
  by (simp add: arch_of_def vrs_def vr_ok_def)

lemma vr_ok_unat: "vr_ok i \<Longrightarrow> unat i < 8"
  by (simp add: vr_ok_def word_less_nat_alt)

lemma no_wrap_64 [simp]: "no_wrap addr (64 :: size_t)"
  using unat_u32_less [of addr] by (simp add: no_wrap_def del: unat_u32_less)

lemma op_load_vr_implements:
  assumes inv: "emu_inv m k s" and ops: "operands_ok LOAD_VR i (arch_of s)"
  shows "implements (isa_exec fp LOAD_VR i (arch_of s)) s (op_load_vr i s)"
proof -
  let ?a = "ea i (arch_of s)" and ?mem = "sram_data (e_scratchpad s)"
  note wf = inv_parts(1) [OF inv]
  have rd: "rd_gpr (instr_ra i) s = (Ok (a_gpr (arch_of s) (instr_ra i)), s)"
    and ptr: "vr_ptr (instr_rd i) s = (Ok (unat (instr_rd i)), s)"
    using ops wf by (simp_all add: rd_gpr_arch vr_ptr_arch)
  have mem: "sram_read_bytes (e_scratchpad s) ?a 64 =
      (if in_range ?mem ?a 64 then Ok (slice (unat ?a) 64 ?mem) else Err (SramOutOfBounds ?a 64))"
    using inv_parts(5) [OF inv] bounds_iff [of ?mem ?a 64]
    by (auto simp: sram_read_bytes_def sram_check_bounds_def sram_size_def mem_read_def in_range_def)
  show ?thesis
    using ops upd_vrs_arch [OF wf, of "instr_rd i"]
    by (simp add: op_load_vr_def bind_eq rd ptr Let_def flip: ea_def)
      (simp add: bind_def mem upd_vrs_def implements_def)
qed

lemma op_store_vr_implements:
  assumes inv: "emu_inv m k s" and ops: "operands_ok STORE_VR i (arch_of s)"
  shows "implements (isa_exec fp STORE_VR i (arch_of s)) s (op_store_vr i s)"
proof -
  let ?a = "ea i (arch_of s)" and ?mem = "sram_data (e_scratchpad s)"
  let ?bs = "bytes_of_words (a_vr (arch_of s) (instr_rd i))"
  note wf = inv_parts(1) [OF inv]
  have rd: "rd_gpr (instr_ra i) s = (Ok (a_gpr (arch_of s) (instr_ra i)), s)"
    and ptr: "vr_ptr (instr_rd i) s = (Ok (unat (instr_rd i)), s)"
    using ops wf by (simp_all add: rd_gpr_arch vr_ptr_arch)
  have len: "length ?bs = 64"
    using ops wf_vrs_nth [OF wf_regs_vrs [OF wf], of "unat (instr_rd i)"]
    by (simp add: vrs_nth vr_ok_unat)
  have mem: "sram_write_bytes (e_scratchpad s) ?a ?bs 64 =
      (if in_range ?mem ?a 64 then Ok ((e_scratchpad s)\<lparr>sram_data := splice_at (unat ?a) ?bs ?mem\<rparr>)
       else Err (SramOutOfBounds ?a 64))"
    using inv_parts(5) [OF inv] bounds_iff [of ?mem ?a 64] len mem_read_all [of ?bs]
    by (auto simp: sram_write_bytes_def sram_check_bounds_def sram_size_def mem_write_def in_range_def
        simp del: mem_read_all)
  show ?thesis
    using ops
    by (simp add: op_store_vr_def bind_eq rd ptr Let_def flip: ea_def)
      (simp add: bind_def mem update_res_def implements_def arch_of_upd flip: vrs_nth)
qed

lemma op_vec_add_implements:
  assumes inv: "emu_inv m k s" and ops: "operands_ok VEC_ADD i (arch_of s)"
  shows "implements (isa_exec (h_fpu h) VEC_ADD i (arch_of s)) s (op_vec_add h i s)"
proof -
  let ?d = "unat (instr_rd i)" and ?a = "unat (instr_ra i)" and ?b = "unat (instr_rb i)"
  let ?V = "vr (e_regs s)"
  note wf = inv_parts(1) [OF inv]
  have ptr: "vr_ptr (instr_rd i) s = (Ok ?d, s)" "vr_ptr (instr_ra i) s = (Ok ?a, s)"
    "vr_ptr (instr_rb i) s = (Ok ?b, s)"
    using ops wf by (simp_all add: vr_ptr_arch)
  have lanes: "?d < 8" "?a < 8" "?b < 8" using ops by (simp_all add: vr_ok_unat)
  note eq = vec_add_host_eq [OF wf_regs_vrs [OF wf] lanes]
  let ?f = "if e_accel s then vec_add_host (h_simd h) (h_fpu h) ?d ?a ?b
            else scalar_vec_add (h_fpu h) ?d ?a ?b"
  have f: "?f ?V = ?V[?d := map2 (fadd (h_fpu h)) (?V ! ?a) (?V ! ?b)]"
    using eq [of "h_simd h" "h_fpu h"] eq [of Scalar "h_fpu h"] by simp
  obtain c where "profile_cycle_weight (e_target s) VEC_ADD 0 = Ok c"
    using profile_cycle_weight_defined [OF inv_parts(4) [OF inv], of VEC_ADD 0] by auto
  then show ?thesis
    using ops upd_vrs_arch [OF wf, of "instr_rd i"] f
    by (simp add: op_vec_add_def bind_eq ptr upd_vrs_def implements_def vrs_nth)
qed

lemma op_matmul_implements:
  assumes inv: "emu_inv m k s" and ops: "operands_ok MATMUL_TILE i (arch_of s)"
  shows "implements (isa_exec (h_fpu h) MATMUL_TILE i (arch_of s)) s (op_matmul_tile h i s)"
proof (cases "tile_n i = 0 \<or> unat (tile_n i) > 4")
  case True
  then show ?thesis
    by (auto simp: op_matmul_tile_def implements_def Let_def tile_n_def)
next
  case False
  let ?d = "unat (instr_rd i)" and ?a = "unat (instr_ra i)" and ?b = "unat (instr_rb i)"
  let ?V = "vr (e_regs s)" and ?n = "unat (tile_n i)"
  note wf = inv_parts(1) [OF inv]
  have ptr: "vr_ptr (instr_rd i) s = (Ok ?d, s)" "vr_ptr (instr_ra i) s = (Ok ?a, s)"
    "vr_ptr (instr_rb i) s = (Ok ?b, s)"
    using ops wf by (simp_all add: vr_ptr_arch)
  have d: "?d < length ?V" "?d \<noteq> ?a" "?d \<noteq> ?b"
    using ops wf by (simp_all add: vr_ok_unat wf_regs_def word_unat_eq_iff)
  let ?f = "if e_accel s then matmul_tile_host (h_fpu h) ?d ?a ?b (tile_n i)
            else matmul_loop (h_fpu h) ?d ?a ?b ?n"
  have f: "?f ?V = ?V[?d := matmul_ref (h_fpu h) ?n (?V ! ?a) (?V ! ?b) (?V ! ?d)]"
    using matmul_loop_eq [OF d] by (simp add: matmul_tile_host_def)
  obtain c where "profile_cycle_weight (e_target s) MATMUL_TILE (ucast (tile_n i)) = Ok c"
    using profile_cycle_weight_defined [OF inv_parts(4) [OF inv], of MATMUL_TILE "ucast (tile_n i)"] by auto
  with False show ?thesis
    using ops upd_vrs_arch [OF wf, of "instr_rd i"] f
    by (simp add: op_matmul_tile_def Let_def bind_eq ptr upd_vrs_def implements_def vrs_nth
        flip: tile_n_def)
qed

text \<open>DMA.\<close>

lemma unat_ucast_u16_u32 [simp]: "unat (ucast (w :: u16) :: u32) = unat w"
proof -
  have "unat w < 2 ^ 32"
    using unsigned_less [of w, where 'a = nat] by simp
  then show ?thesis by (simp add: unsigned_ucast_eq take_bit_nat_eq_self)
qed

lemma dma_bound_iff:
  assumes "vec64 xs" and "unat addr + unat n < 2 ^ 32"
  shows "(of_nat (length xs) :: size_t) < ucast (addr + ucast (n :: u16) :: u32) \<longleftrightarrow> \<not> in_range xs addr (unat n)"
proof -
  have "unat (addr + ucast n :: u32) = unat addr + unat n"
    using assms(2) by (simp add: unat_word_ariths)
  then show ?thesis
    using assms(1) by (simp add: word_less_nat_alt unat_size_u64 in_range_def not_le)
qed

lemma dma_copy_Ok:
  "in_range dst d n \<Longrightarrow> in_range src a n \<Longrightarrow>
   dma_copy_host dst (unat d) src (unat a) n = Ok (splice_at (unat d) (slice (unat a) n src) dst)"
  by (simp add: dma_copy_host_def mem_read_def mem_write_def in_range_def)

lemma prof_record_ok:
  assumes "wf_profiler (e_profiler s)" and "opcode_code op < 64"
  obtains p where "prof_record op c d s = (Ok (), s\<lparr>e_profiler := p\<rparr>)" and "wf_profiler p"
proof -
  have "\<exists>p. profiler_record op c d (e_profiler s) = Ok p"
    using assms by (simp add: profiler_record_def arr_get_def arr_set_def wf_profiler_def Let_def
        word_less_nat_alt)
  then obtain p where p: "profiler_record op c d (e_profiler s) = Ok p" by blast
  with that [of p] wf_profiler_record [OF assms(1) p] show ?thesis
    by (simp add: prof_record_def update_res_def)
qed

lemma op_dma_load_implements:
  assumes inv: "emu_inv m k s" and off: "\<not> mmu_enabled (e_mmu s)" and ops: "operands_ok DMA_LOAD i (arch_of s)"
  shows "implements (isa_exec fp DMA_LOAD i (arch_of s)) s (op_dma_load i s)"
proof -
  let ?d = "a_gpr (arch_of s) (instr_rd i)" and ?a = "a_gpr (arch_of s) (instr_ra i)"
  let ?f = "instr_func i" and ?mem = "sram_data (e_scratchpad s)" and ?dram = "ram_data (e_main_ram s)"
  note wf = inv_parts(1) [OF inv]
  have rd: "rd_gpr (instr_ra i) s = (Ok ?a, s)" "rd_gpr (instr_rd i) s = (Ok ?d, s)"
    using ops wf by (simp_all add: rd_gpr_arch)
  have bad: "sram_size (e_scratchpad s) < ucast (?d + ucast ?f) \<longleftrightarrow> \<not> in_range ?mem ?d (unat ?f)"
    "ram_size (e_main_ram s) < ucast (?a + ucast ?f) \<longleftrightarrow> \<not> in_range ?dram ?a (unat ?f)"
    using dma_bound_iff [OF inv_parts(5) [OF inv]] dma_bound_iff [OF inv_parts(6) [OF inv]] ops
    by (simp_all add: sram_size_def ram_size_def)
  from axi_issue_ok [OF inv] obtain ok ic where
    ax: "axi_issue ?d (ucast ?f) False s = (Ok ok, s\<lparr>e_axi := ic\<rparr>)" by blast
  obtain p where p: "(if ok then ret () else prof_record DMA_LOAD 1 0) (s\<lparr>e_axi := ic\<rparr>) =
      (Ok (), s\<lparr>e_axi := ic, e_profiler := p\<rparr>)"
  proof (cases ok)
    case False
    then show ?thesis
      using that inv_parts(2) [OF inv]
      by (auto intro: prof_record_ok [of "s\<lparr>e_axi := ic\<rparr>" DMA_LOAD 1 0])
  qed (auto intro: that [of "e_profiler s"])
  obtain c where "profile_cycle_weight (e_target s) DMA_LOAD (ucast (ucast ?f :: u32)) = Ok c"
    using profile_cycle_weight_defined [OF inv_parts(4) [OF inv], of DMA_LOAD] by fastforce
  then show ?thesis
    using off
    by (simp add: op_dma_load_def dma_translate_def bind_eq rd Let_def bad)
      (simp add: implements_def bind_eq ax p update_res_def dma_copy_Ok arch_of_upd)
qed

lemma op_dma_store_implements:
  assumes inv: "emu_inv m k s" and off: "\<not> mmu_enabled (e_mmu s)" and ops: "operands_ok DMA_STORE i (arch_of s)"
  shows "implements (isa_exec fp DMA_STORE i (arch_of s)) s (op_dma_store i s)"
proof -
  let ?d = "a_gpr (arch_of s) (instr_rd i)" and ?a = "a_gpr (arch_of s) (instr_ra i)"
  let ?f = "instr_func i" and ?mem = "sram_data (e_scratchpad s)" and ?dram = "ram_data (e_main_ram s)"
  note wf = inv_parts(1) [OF inv]
  have rd: "rd_gpr (instr_ra i) s = (Ok ?a, s)" "rd_gpr (instr_rd i) s = (Ok ?d, s)"
    using ops wf by (simp_all add: rd_gpr_arch)
  have bad: "ram_size (e_main_ram s) < ucast (?d + ucast ?f) \<longleftrightarrow> \<not> in_range ?dram ?d (unat ?f)"
    "sram_size (e_scratchpad s) < ucast (?a + ucast ?f) \<longleftrightarrow> \<not> in_range ?mem ?a (unat ?f)"
    using dma_bound_iff [OF inv_parts(5) [OF inv]] dma_bound_iff [OF inv_parts(6) [OF inv]] ops
    by (simp_all add: sram_size_def ram_size_def)
  from axi_issue_ok [OF inv] obtain ok ic where
    ax: "axi_issue ?a (ucast ?f) True s = (Ok ok, s\<lparr>e_axi := ic\<rparr>)" by blast
  obtain c where "profile_cycle_weight (e_target s) DMA_STORE (ucast (ucast ?f :: u32)) = Ok c"
    using profile_cycle_weight_defined [OF inv_parts(4) [OF inv], of DMA_STORE] by fastforce
  then show ?thesis
    using off
    by (simp add: op_dma_store_def dma_translate_def bind_eq rd Let_def bad)
      (simp add: implements_def bind_eq ax update_res_def dma_copy_Ok arch_of_upd)
qed

section \<open>Execute and step\<close>

lemma handler_implements:
  assumes "emu_inv m k s" and "\<not> mmu_enabled (e_mmu s)" and "operands_ok op i (arch_of s)"
    and "dispatch h op = Some f"
  shows "implements (isa_exec (h_fpu h) op i (arch_of s)) s (f i s)"
  using assms ops_scalar [OF inv_parts(1) [OF assms(1)] assms(3) _ assms(4)]
  by (cases op) (auto simp: op_load_implements op_store_implements op_load_vr_implements
      op_store_vr_implements op_vec_add_implements op_matmul_implements op_dma_load_implements
      op_dma_store_implements simp del: isa_exec.simps operands_ok.simps)

text \<open>A machine that runs without translation, with interrupts masked and no trap handler.\<close>

definition quiet :: "emu \<Rightarrow> bool" where
  "quiet s \<longleftrightarrow> \<not> mmu_enabled (e_mmu s) \<and> \<not> csr_mstatus_mie (e_csr s) \<and> csr_mtvec (e_csr s) = 0"

lemma quiet_frame: "frame s s' \<Longrightarrow> quiet s \<Longrightarrow> quiet s'"
  by (simp add: frame_def quiet_def)

lemma execute_implements:
  assumes inv: "emu_inv m k s" and q: "quiet s" and ops: "operands_ok (instr_opcode i) i (arch_of s)"
  shows "implements (isa_exec (h_fpu h) (instr_opcode i) i (arch_of s)) s (execute h i s)"
proof (cases "dispatch h (instr_opcode i)")
  case None
  then obtain c where "instr_opcode i = OtherOp c" by (cases "instr_opcode i") auto
  with None q show ?thesis
    by (simp add: execute_def implements_def quiet_def csr_mtvec_def)
next
  case (Some f)
  note impl = handler_implements [OF inv _ ops Some]
  obtain r s1 where f: "f i s = (r, s1)" by force
  show ?thesis
  proof (cases r)
    case (Ok c)
    with f have inv1: "emu_inv m k s1"
      using preservesD [OF pres_dispatch [OF Some] inv, of i] by simp
    let ?dma = "if instr_opcode i = DMA_LOAD \<or> instr_opcode i = DMA_STORE then ucast (instr_func i) else 0"
    obtain p where "prof_record (instr_opcode i) c ?dma s1 = (Ok (), s1\<lparr>e_profiler := p\<rparr>)"
      using prof_record_ok [OF inv_parts(2) [OF inv1] instr_opcode_less, of i c ?dma] by blast
    then have "execute h i s = (Ok c, s1\<lparr>e_profiler := p, e_tick_accum := e_tick_accum s1 + ucast c\<rparr>)"
      using f Ok Some by (simp add: execute_def Let_def bind_eq)
    then show ?thesis
      using impl f Ok q by (auto simp: implements_def frame_def quiet_def split: option.splits)
  next
    case (Err e)
    with impl f q Some show ?thesis
      by (simp add: execute_def Let_def bind_def implements_def quiet_def)
  next
    case Undef
    with impl f q show ?thesis by (simp add: implements_def quiet_def split: option.splits)
  qed
qed

text \<open>The peripheral tick is invisible.\<close>

lemma tick_once_frame: "arch_of (tick_once s) = arch_of s \<and> frame s (tick_once s)"
  by (simp add: tick_once_def Let_def arch_of_def frame_def)

lemma tick_frame: "arch_of (tick_peripherals s) = arch_of s \<and> frame s (tick_peripherals s)"
  by (rule tick_peripherals_induct [where P = "\<lambda>t. arch_of t = arch_of s \<and> frame s t"])
    (use tick_once_frame in \<open>auto intro: frame_trans\<close>)

lemma implements_cong:
  "implements A s1 r \<Longrightarrow> frame s s1 \<Longrightarrow> (A = None \<Longrightarrow> arch_of s1 = arch_of s) \<Longrightarrow> implements A s r"
  by (auto simp: implements_def intro: frame_trans split: option.splits)

text \<open>The conditions on the instruction the program counter points to.\<close>

definition isa_ready :: "arch \<Rightarrow> bool" where
  "isa_ready A \<longleftrightarrow> \<not> device_addr (a_pc A) \<and>
     operands_ok (instr_opcode (fetched A)) (fetched A) (A\<lparr>a_pc := a_pc A + 4\<rparr>)"

definition advance :: "arch \<Rightarrow> arch" where
  "advance A = A\<lparr>a_pc := a_pc A + 4\<rparr>"

lemma fetch_arch:
  assumes "emu_inv m k s" and "quiet s" and "\<not> device_addr (pc (e_regs s))"
  shows "fetch s = (if in_range (a_mem (arch_of s)) (pc (e_regs s)) 4
     then (Ok (fetched (arch_of s)), s\<lparr>e_regs := (e_regs s)\<lparr>pc := pc (e_regs s) + 4\<rparr>\<rparr>)
     else (Err (SramOutOfBounds (pc (e_regs s)) 4), s))"
proof -
  have "fetch s = bind (emu_bus_read32 (pc (e_regs s)))
      (\<lambda>w. bind (set_pc (pc (e_regs s) + 4)) (\<lambda>_. ret \<lparr>raw = w\<rparr>)) s"
    using assms(2) by (simp add: fetch_def quiet_def)
  then show ?thesis
    using bus_read_arch [OF assms(1,3)] by (simp add: bind_def set_pc_def fetched_def)
qed

lemma step_eq:
  assumes "\<not> halt (e_regs s)" and "quiet s"
  shows "step h s = bind fetch (\<lambda>i. bind (execute h i) (\<lambda>_. modify tick_peripherals))
     (snd (save_verbose s))"
  using assms pending_needs_mie [of "e_csr s" "e_intc s"]
  by (simp add: step_unfold check_interrupts_def quiet_def save_verbose_def bind_def)

lemma save_verbose_frame:
  "arch_of (snd (save_verbose s)) = arch_of s \<and> frame s (snd (save_verbose s))"
  by (simp add: save_verbose_def arch_of_def frame_def)

lemma step_implements:
  assumes inv: "emu_inv m k s" and q: "quiet s" and rdy: "isa_ready (arch_of s)"
    and run: "\<not> halt (e_regs s)"
  shows "case isa_step (h_fpu h) (arch_of s) of
     Some A \<Rightarrow> \<exists>s'. step h s = (Ok (), s') \<and> arch_of s' = A \<and> frame s s'
   | None \<Rightarrow> \<exists>e s'. step h s = (Err e, s') \<and> arch_of s' \<in> {arch_of s, advance (arch_of s)} \<and> frame s s'"
proof -
  let ?s0 = "snd (save_verbose s)" and ?i = "fetched (arch_of s)"
  have fr0: "arch_of ?s0 = arch_of s" "frame s ?s0" using save_verbose_frame by auto
  have inv0: "emu_inv m k ?s0"
    using preservesD [OF pres_save_verbose inv] by (simp add: save_verbose_def)
  have pc0: "pc (e_regs ?s0) = pc (e_regs s)" using fr0(1) by (metis arch_of_sel(1))
  have fe: "fetch ?s0 = (if in_range (a_mem (arch_of s)) (pc (e_regs s)) 4
      then (Ok ?i, ?s0\<lparr>e_regs := (e_regs ?s0)\<lparr>pc := pc (e_regs s) + 4\<rparr>\<rparr>)
      else (Err (SramOutOfBounds (pc (e_regs s)) 4), ?s0))"
    using fetch_arch [OF inv0 quiet_frame [OF fr0(2) q]] rdy pc0 fr0(1) by (simp add: isa_ready_def)
  show ?thesis
  proof (cases "in_range (a_mem (arch_of s)) (pc (e_regs s)) 4")
    case False
    then have "step h s = (Err (SramOutOfBounds (pc (e_regs s)) 4), ?s0)"
      using fe by (simp add: step_eq [OF run q] bind_def)
    with False fr0 run show ?thesis by (simp add: isa_step_def)
  next
    case True
    let ?s1 = "?s0\<lparr>e_regs := (e_regs ?s0)\<lparr>pc := pc (e_regs s) + 4\<rparr>\<rparr>"
    have ar1: "arch_of ?s1 = advance (arch_of s)"
      using arch_of_upd(1) [where s = "?s0"] fr0(1) by (simp add: advance_def)
    have fr1: "frame s ?s1" using frame_trans [OF fr0(2) frame_simps(2)] .
    have inv1: "emu_inv m k ?s1" using inv0 by (simp add: inv_frames inv_parts)
    have impl: "implements (isa_exec (h_fpu h) (instr_opcode ?i) ?i (advance (arch_of s))) ?s1 (execute h ?i ?s1)"
      using execute_implements [OF inv1 quiet_frame [OF fr1 q], of ?i] rdy ar1
      by (simp add: isa_ready_def advance_def)
    have st: "step h s = bind (execute h ?i) (\<lambda>_. modify tick_peripherals) ?s1"
      using fe True by (simp add: step_eq [OF run q] bind_eq)
    obtain r s2 where ex: "execute h ?i ?s1 = (r, s2)" by force
    have spec: "isa_step (h_fpu h) (arch_of s) = isa_exec (h_fpu h) (instr_opcode ?i) ?i (advance (arch_of s))"
      using True run by (simp add: isa_step_def advance_def)
    note impl = impl [folded spec]
    have fr2: "frame s s2" using impl ex frame_trans [OF fr1] by (simp add: implements_def)
    show ?thesis
    proof (cases "isa_step (h_fpu h) (arch_of s)")
      case None
      with impl ex st fr2 ar1 show ?thesis
        by (auto simp: implements_def bind_def)
    next
      case (Some A)
      with impl ex st show ?thesis
        using tick_frame [of s2] frame_trans [OF fr2] by (auto simp: implements_def bind_def)
    qed
  qed
qed

section \<open>Programs\<close>

fun isa_run :: "fpu \<Rightarrow> nat \<Rightarrow> arch \<Rightarrow> arch option" where
  "isa_run fp 0 A = (if a_halt A then Some A else None)"
| "isa_run fp (Suc n) A = (if a_halt A then Some A
     else case isa_step fp A of Some A' \<Rightarrow> isa_run fp n A' | None \<Rightarrow> None)"

fun isa_safe :: "fpu \<Rightarrow> nat \<Rightarrow> arch \<Rightarrow> bool" where
  "isa_safe fp 0 A \<longleftrightarrow> True"
| "isa_safe fp (Suc n) A \<longleftrightarrow> a_halt A \<or> (isa_ready A \<and>
     (case isa_step fp A of Some A' \<Rightarrow> isa_safe fp n A' | None \<Rightarrow> True))"

lemma run_loop_implements:
  assumes "emu_inv m k s" and "quiet s" and "breakpoints (e_debugger s) = {}"
    and "isa_safe (h_fpu h) n (arch_of s)" and "isa_run (h_fpu h) n (arch_of s) = Some A"
  shows "\<exists>s'. run_loop h n s = Some (Ok (), s') \<and> arch_of s' = A"
  using assms
proof (induction n arbitrary: s)
  case 0
  then show ?case
    by (simp add: run_loop.simps stopped_def split: if_splits)
next
  case (Suc n)
  show ?case
  proof (cases "halt (e_regs s)")
    case True
    with Suc.prems(5) show ?thesis by (simp add: run_loop.simps stopped_def)
  next
    case False
    with Suc.prems(5) obtain A1 where st: "isa_step (h_fpu h) (arch_of s) = Some A1"
      and rest: "isa_run (h_fpu h) n A1 = Some A"
      by (auto split: option.splits)
    from False Suc.prems(4) st have rdy: "isa_ready (arch_of s)" and safe: "isa_safe (h_fpu h) n A1"
      by auto
    from step_implements [OF Suc.prems(1,2) rdy False, of h] st obtain s1 where
      s1: "step h s = (Ok (), s1)" "arch_of s1 = A1" "frame s s1" by auto
    have "emu_inv m k s1" using preservesD [OF pres_step Suc.prems(1), of h] s1(1) by simp
    moreover have "breakpoints (e_debugger s1) = {}" using s1(3) Suc.prems(3) by (simp add: frame_def)
    ultimately have "\<exists>s'. run_loop h n s1 = Some (Ok (), s') \<and> arch_of s' = A"
      using Suc.IH [of s1] quiet_frame [OF s1(3) Suc.prems(2)] s1(2) safe rest by simp
    moreover have "\<not> stopped s"
      using False Suc.prems(3) by (simp add: stopped_def dbg_has_breakpoint_def)
    ultimately show ?thesis
      using s1(1) by (simp add: run_loop.simps [of h "Suc n" s])
  qed
qed

text \<open>
  C1. The emulator implements the instruction set, for all eighteen instructions. Take a
  well-formed state with translation off, interrupts masked and no trap handler, whose program
  counter does not point to a device, and let the instruction there have valid operands: its
  register fields name registers that exist, its \<open>LOAD\<close> or \<open>STORE\<close> address is not a
  device, its DMA ranges do not wrap at \<open>2 ^ 32\<close>, and its \<open>MATMUL_TILE\<close> destination differs
  from both sources. Then one \<open>step\<close> does what the specification of the instruction says:
  registers, program counter, halt flag, zero and negative flags and both memories are the specified ones (the
  specification does not speak of the overflow flag). Where the specification has no result,
  because an access leaves a memory, the tile size is bad or the opcode is unknown, \<open>step\<close>
  throws, and registers other than the program counter and both memories are as they were.
\<close>

theorem step_implements_isa:
  assumes "emu_inv m k s" and "quiet s" and "isa_ready (arch_of s)"
  shows "case isa_step (h_fpu h) (arch_of s) of
     Some A \<Rightarrow> \<exists>s'. step h s = (Ok (), s') \<and> arch_of s' = A \<and> frame s s'
   | None \<Rightarrow> \<exists>e s'. step h s = (Err e, s') \<and> arch_of s' \<in> {arch_of s, advance (arch_of s)} \<and> frame s s'"
proof (cases "halt (e_regs s)")
  case True
  then show ?thesis by (simp add: isa_step_def step_unfold)
next
  case False
  then show ?thesis by (rule step_implements [OF assms])
qed

text \<open>
  C2. The run loop executes programs. Take a well-formed state with translation off, interrupts
  masked, no trap handler and no breakpoint set. When the specification runs the program to its
  \<open>HALT\<close> in at most \<open>n\<close> instructions, and every instruction on the way meets the conditions
  on its operands (no fetch, \<open>LOAD\<close> or \<open>STORE\<close> from a device, existing registers, DMA ranges that do not
  wrap, \<open>MATMUL_TILE\<close> destination apart from its sources), the emulator's \<open>run\<close> terminates (\<open>n\<close> turns suffice), does not throw,
  and ends in the specified state, the overflow flag apart, with nothing left in the UART buffer.
\<close>

theorem run_implements_isa:
  assumes "emu_inv m k s" and "quiet s" and "breakpoints (e_debugger s) = {}"
    and "isa_safe (h_fpu h) n (arch_of s)" and "isa_run (h_fpu h) n (arch_of s) = Some A"
  shows "\<exists>s'. run h n s = Some (Ok (), s') \<and> arch_of s' = A \<and> tx_buffer (e_uart s') = []"
  using run_loop_implements [OF assms] by (auto simp: run_def flush_uart_def)

section \<open>Witnesses\<close>

text \<open>A four-instruction program in a sixteen-byte scratchpad: \<open>5 + 7\<close>.\<close>

definition demo_host :: host_env where
  "demo_host = \<lparr>h_simd = Scalar, h_fpu = \<lparr>fadd = (+), fmul = (*)\<rparr>\<rparr>"

definition demo_program :: "u32 list" where
  "demo_program = [enc_movi 1 5, enc_movi 2 7, enc_add 3 1 2, enc_halt]"

definition demo_emu :: emu where
  "demo_emu = (emu_new 16 0)\<lparr>e_scratchpad := \<lparr>sram_data = bytes_of_words demo_program\<rparr>\<rparr>"

lemma demo_inv: "emu_inv 16 0 demo_emu"
  using emu_inv_new [of 16 0]
  by (simp add: demo_emu_def inv_defs demo_program_def vec64_def)

lemma demo_quiet: "quiet demo_emu"
  by (simp add: quiet_def demo_emu_def emu_new_def mmu_init_def csr_mstatus_mie_def csr_mtvec_def
      csr_read_def csr_reset_def csr_addrs)

lemma demo_breakpoints: "breakpoints (e_debugger demo_emu) = {}"
  by (simp add: demo_emu_def emu_new_def debugger_init_def)

definition demo_arch :: arch where
  "demo_arch = \<lparr>a_gpr = gprs (replicate 16 0), a_vr = vrs (replicate 8 (replicate 16 0)), a_pc = 0,
     a_halt = False, a_flags = flags_of status_init, a_mem = bytes_of_words demo_program, a_dram = []\<rparr>"

lemma demo_arch_of: "arch_of demo_emu = demo_arch"
  by (simp add: arch_of_def demo_arch_def demo_emu_def emu_new_def regs_init_def ram_new_def)

lemma demo_ready: "isa_ready demo_arch"
  by code_simp

lemma demo_safe: "isa_safe (h_fpu demo_host) 4 demo_arch"
  by code_simp

lemma demo_run: "map_option (\<lambda>A. (a_gpr A 3, a_halt A)) (isa_run (h_fpu demo_host) 4 demo_arch) = Some (12, True)"
  by code_simp

lemma demo_step: "map_option (\<lambda>A. (a_gpr A 1, a_pc A)) (isa_step (h_fpu demo_host) demo_arch) = Some (5, 4)"
  by code_simp

theorem step_implements_isa_witness:
  "\<exists>s'. step demo_host demo_emu = (Ok (), s') \<and> gpr (e_regs s') ! 1 = 5 \<and> pc (e_regs s') = 4"
proof -
  obtain A where A: "isa_step (h_fpu demo_host) demo_arch = Some A" "a_gpr A 1 = 5" "a_pc A = 4"
    using demo_step by auto
  obtain s' where "step demo_host demo_emu = (Ok (), s')" "arch_of s' = A"
    using step_implements_isa [OF demo_inv demo_quiet, of demo_host] demo_ready A(1)
    by (auto simp: demo_arch_of)
  with A show ?thesis by (auto simp: arch_of_def gprs_def)
qed

theorem run_implements_isa_witness:
  "\<exists>s'. run demo_host 4 demo_emu = Some (Ok (), s') \<and> gpr (e_regs s') ! 3 = 12 \<and> halt (e_regs s')"
proof -
  obtain A where A: "isa_run (h_fpu demo_host) 4 demo_arch = Some A" "a_gpr A 3 = 12" "a_halt A"
    using demo_run by auto
  obtain s' where "run demo_host 4 demo_emu = Some (Ok (), s')" "arch_of s' = A"
    using run_implements_isa [OF demo_inv demo_quiet demo_breakpoints, of demo_host 4 A] demo_safe A(1)
    by (auto simp: demo_arch_of)
  with A show ?thesis by (auto simp: arch_of_def gprs_def)
qed

end
