(* ===== verification/Guest.thy ===== *)
theory Guest
  imports Isa_Spec
begin

text \<open>
  The RISC-V translator of \<^verbatim>\<open>src/decoder.cpp\<close> against the instruction set it reads. The
  guest subset has the instructions the translator's comments name (\<open>ADD\<close>, \<open>SUB\<close>, \<open>MUL\<close>,
  \<open>ADDI\<close>, \<open>LW\<close>, \<open>SW\<close>), with the encodings and the 64-bit meaning of the RISC-V manual
  (the guest is \<open>RISCV64\<close>): registers of 64 bits, a load that extends the sign of the word, addresses of 64
  bits. The emulator has registers of 32 bits. On the registers \<open>x0\<close> to \<open>x14\<close>, with
  immediates that are not negative in \<open>ADDI\<close> and with accesses below 4 GB, a translated straight-line
  program computes the low halves of the guest's registers and the guest's memory; \<open>r15\<close> is the
  translator's temporary. The last section shows what goes wrong outside these conditions.
\<close>

section \<open>Straight-line simulation\<close>

fun run_all :: "('i \<Rightarrow> 's \<Rightarrow> 's option) \<Rightarrow> 'i list \<Rightarrow> 's \<Rightarrow> 's option" where
  "run_all f [] s = Some s"
| "run_all f (i # is) s = (case f i s of None \<Rightarrow> None | Some s' \<Rightarrow> run_all f is s')"

lemma run_all_append:
  "run_all f (is @ js) s = (case run_all f is s of None \<Rightarrow> None | Some s' \<Rightarrow> run_all f js s')"
  by (induction "is" arbitrary: s) (auto split: option.split)

text \<open>
  A compiler of single instructions whose output simulates each of them simulates whole
  straight-line programs, errors included, as long as every instruction is executed in a state that it fits.
\<close>

fun all_fit :: "('i \<Rightarrow> 's \<Rightarrow> 's option) \<Rightarrow> ('i \<Rightarrow> 's \<Rightarrow> bool) \<Rightarrow> 'i list \<Rightarrow> 's \<Rightarrow> bool" where
  "all_fit f fits [] s \<longleftrightarrow> True"
| "all_fit f fits (i # is) s \<longleftrightarrow> fits i s \<and> (case f i s of None \<Rightarrow> True | Some s' \<Rightarrow> all_fit f fits is s')"

locale straight_line =
  fixes src :: "'i \<Rightarrow> 's \<Rightarrow> 's option" and tgt :: "'c \<Rightarrow> 't \<Rightarrow> 't option"
    and comp :: "'i \<Rightarrow> 'c list" and good :: "'i \<Rightarrow> bool" and fits :: "'i \<Rightarrow> 's \<Rightarrow> bool" and rel :: "'t \<Rightarrow> 's \<Rightarrow> bool"
  assumes simulates: "good i \<Longrightarrow> fits i s \<Longrightarrow> rel t s \<Longrightarrow> rel_option rel (run_all tgt (comp i) t) (src i s)"
begin

lemma program_simulates:
  "list_all good is \<Longrightarrow> all_fit src fits is s \<Longrightarrow> rel t s \<Longrightarrow>
   rel_option rel (run_all tgt (concat (map comp is)) t) (run_all src is s)"
proof (induction "is" arbitrary: t s)
  case (Cons i "is")
  then have "rel_option rel (run_all tgt (comp i) t) (src i s)" by (simp add: simulates)
  with Cons show ?case
    by (cases "run_all tgt (comp i) t"; cases "src i s") (auto simp: run_all_append)
qed simp

end

section \<open>The guest\<close>

datatype rv =
    RvAdd "4 word" "4 word" "4 word"
  | RvSub "4 word" "4 word" "4 word"
  | RvMul "4 word" "4 word" "4 word"
  | RvAddi "4 word" "4 word" "12 word"
  | RvLw "4 word" "4 word" "12 word"
  | RvSw "4 word" "4 word" "12 word"

record rv_state =
  rv_x :: "4 word \<Rightarrow> u64"
  rv_mem :: "u8 list"

text \<open>The six fields of the formats, from the top: funct7, rs2, rs1, funct3, rd, opcode.\<close>

definition rv_format :: "7 word \<Rightarrow> 5 word \<Rightarrow> 5 word \<Rightarrow> 3 word \<Rightarrow> 5 word \<Rightarrow> 7 word \<Rightarrow> u32" where
  "rv_format f7 r2 r1 f3 rd opc = push_bit 25 (ucast f7) OR push_bit 20 (ucast r2)
     OR push_bit 15 (ucast r1) OR push_bit 12 (ucast f3) OR push_bit 7 (ucast rd) OR ucast opc"

fun rv_encode :: "rv \<Rightarrow> u32" where
  "rv_encode (RvAdd d a b) = rv_format 0 (ucast b) (ucast a) 0 (ucast d) 0x33"
| "rv_encode (RvSub d a b) = rv_format 0x20 (ucast b) (ucast a) 0 (ucast d) 0x33"
| "rv_encode (RvMul d a b) = rv_format 1 (ucast b) (ucast a) 0 (ucast d) 0x33"
| "rv_encode (RvAddi d a i) = rv_format (ucast (drop_bit 5 i)) (ucast i) (ucast a) 0 (ucast d) 0x13"
| "rv_encode (RvLw d a i) = rv_format (ucast (drop_bit 5 i)) (ucast i) (ucast a) 2 (ucast d) 0x03"
| "rv_encode (RvSw b a i) = rv_format (ucast (drop_bit 5 i)) (ucast b) (ucast a) 2 (ucast i) 0x23"

definition rv_set :: "4 word \<Rightarrow> u64 \<Rightarrow> rv_state \<Rightarrow> rv_state" where
  "rv_set d v g = (if d = 0 then g else g\<lparr>rv_x := (rv_x g)(d := v)\<rparr>)"

fun rv_exec :: "rv \<Rightarrow> rv_state \<Rightarrow> rv_state option" where
  "rv_exec (RvAdd d a b) g = Some (rv_set d (rv_x g a + rv_x g b) g)"
| "rv_exec (RvSub d a b) g = Some (rv_set d (rv_x g a - rv_x g b) g)"
| "rv_exec (RvMul d a b) g = Some (rv_set d (rv_x g a * rv_x g b) g)"
| "rv_exec (RvAddi d a i) g = Some (rv_set d (rv_x g a + scast i) g)"
| "rv_exec (RvLw d a i) g = (let ad = unat (rv_x g a + scast i) in
     if ad + 4 \<le> length (rv_mem g) then Some (rv_set d (scast (le_word32 (slice ad 4 (rv_mem g)))) g) else None)"
| "rv_exec (RvSw b a i) g = (let ad = unat (rv_x g a + scast i) in
     if ad + 4 \<le> length (rv_mem g)
     then Some (g\<lparr>rv_mem := splice_at ad (le_bytes32 (ucast (rv_x g b))) (rv_mem g)\<rparr>) else None)"

definition rv_run :: "rv list \<Rightarrow> rv_state \<Rightarrow> rv_state option" where
  "rv_run = run_all rv_exec"

text \<open>The part of the guest language that is translated faithfully.\<close>

fun rv_ok :: "rv \<Rightarrow> bool" where
  "rv_ok (RvAdd d a b) \<longleftrightarrow> d \<noteq> 15 \<and> a \<noteq> 15 \<and> b \<noteq> 15"
| "rv_ok (RvSub d a b) \<longleftrightarrow> d \<noteq> 15 \<and> a \<noteq> 15 \<and> b \<noteq> 15"
| "rv_ok (RvMul d a b) \<longleftrightarrow> d \<noteq> 15 \<and> a \<noteq> 15 \<and> b \<noteq> 15"
| "rv_ok (RvAddi d a i) \<longleftrightarrow> d \<noteq> 15 \<and> a \<noteq> 15 \<and> \<not> bit i 11"
| "rv_ok (RvLw d a i) \<longleftrightarrow> d \<noteq> 15 \<and> a \<noteq> 15"
| "rv_ok (RvSw b a i) \<longleftrightarrow> b \<noteq> 15 \<and> a \<noteq> 15"

text \<open>The address of a load or store lies in the address space of the emulator.\<close>

fun rv_low :: "rv \<Rightarrow> rv_state \<Rightarrow> bool" where
  "rv_low (RvLw d a i) g \<longleftrightarrow> rv_x g a + scast i < 0x100000000"
| "rv_low (RvSw b a i) g \<longleftrightarrow> rv_x g a + scast i < 0x100000000"
| "rv_low _ g \<longleftrightarrow> True"

definition rv_all_low :: "rv list \<Rightarrow> rv_state \<Rightarrow> bool" where
  "rv_all_low = all_fit rv_exec rv_low"

section \<open>The host side\<close>

definition exec_word :: "fpu \<Rightarrow> u32 \<Rightarrow> arch \<Rightarrow> arch option" where
  "exec_word fp w A = isa_exec fp (instr_opcode \<lparr>raw = w\<rparr>) \<lparr>raw = w\<rparr> A"

definition exec_words :: "fpu \<Rightarrow> u32 list \<Rightarrow> arch \<Rightarrow> arch option" where
  "exec_words fp = run_all (exec_word fp)"

definition guest_of :: "arch \<Rightarrow> rv_state \<Rightarrow> bool" where
  "guest_of A g \<longleftrightarrow> (\<forall>r. r \<noteq> 15 \<longrightarrow> a_gpr A (ucast r) = ucast (rv_x g r)) \<and> a_mem A = rv_mem g"

section \<open>Field extraction\<close>

lemma mask_0x7F: "(0x7F :: 'a::len word) = mask 7"
  by (simp add: mask_eq_exp_minus_1)

lemma mask_7: "(7 :: 'a::len word) = mask 3"
  by (simp add: mask_eq_exp_minus_1)

lemma mask_0xF: "(0xF :: 'a::len word) = mask 4"
  by (simp add: mask_eq_exp_minus_1)

lemma high_bits:
  "7 \<le> n \<Longrightarrow> \<not> bit (w7 :: 7 word) n" "5 \<le> n \<Longrightarrow> \<not> bit (w5 :: 5 word) n" "3 \<le> n \<Longrightarrow> \<not> bit (w3 :: 3 word) n"
  "4 \<le> n \<Longrightarrow> \<not> bit (w4 :: 4 word) n" "12 \<le> n \<Longrightarrow> \<not> bit (w12 :: 12 word) n"
  by (auto dest: bit_imp_le_length)

lemma low_bits:
  "bit (w7 :: 7 word) n \<Longrightarrow> n < 7" "bit (w5 :: 5 word) n \<Longrightarrow> n < 5" "bit (w3 :: 3 word) n \<Longrightarrow> n < 3"
  "bit (w4 :: 4 word) n \<Longrightarrow> n < 4"
  by (auto dest: bit_imp_le_length)

lemmas rv_bits = rv_format_def bit_simps mask_simps mask_0x7F mask_7 mask_0xF high_bits

lemma rv_fields:
  "rv_format f7 r2 r1 f3 rd opc AND 0x7F = ucast opc"
  "drop_bit 7 (rv_format f7 r2 r1 f3 rd opc) AND 0x1F = ucast rd"
  "drop_bit 12 (rv_format f7 r2 r1 f3 rd opc) AND 7 = ucast f3"
  "drop_bit 15 (rv_format f7 r2 r1 f3 rd opc) AND 0x1F = ucast r1"
  "drop_bit 20 (rv_format f7 r2 r1 f3 rd opc) AND 0x1F = ucast r2"
  "drop_bit 25 (rv_format f7 r2 r1 f3 rd opc) AND 0x7F = ucast f7"
  by (rule bit_word_eqI; auto simp: rv_bits dest: low_bits)+

lemma lo4_reg: "lo4 (ucast (ucast (r :: 4 word) :: 5 word)) = ucast r"
  by (rule bit_word_eqI) (auto simp: lo4_def rv_bits dest: low_bits)

text \<open>The immediates, sign-extended from twelve bits to the sixteen of a Novium immediate.\<close>

lemma bit_scast12: "n < 16 \<Longrightarrow> bit (scast (i :: 12 word) :: u16) n \<longleftrightarrow> bit i (if n < 11 then n else 11)"
  by (auto simp: bit_simps min_def intro: arg_cong [where f = "bit i"])

lemma i_imm_bit: "n < 16 \<Longrightarrow> bit (rv_i_imm w) n \<longleftrightarrow> bit w (if n < 11 then 20 + n else 31)"
  by (cases "n = 11") (auto simp: rv_i_imm_def bit_simps mask_simps)

lemma i_imm_format:
  "rv_i_imm (rv_format (ucast (drop_bit 5 i)) (ucast i) r1 f3 rd opc) = scast (i :: 12 word)"
proof (rule bit_word_eqI)
  fix n assume "n < LENGTH(16)"
  then show "bit (rv_i_imm (rv_format (ucast (drop_bit 5 i)) (ucast i) r1 f3 rd opc)) n = bit (scast i :: u16) n"
    by (auto simp: i_imm_bit bit_scast12 rv_bits)
qed

lemma mask_high: "(0xFFFFF000 :: u32) = NOT (mask 12)"
  by (simp add: mask_eq_exp_minus_1)

lemma sign_bit: "(w :: u32) AND 0x80000000 = 0 \<longleftrightarrow> \<not> bit w 31"
  using and_shl_one [of w 31] by (simp add: shl_def)

lemma s_imm_bit:
  "n < 16 \<Longrightarrow> bit (ucast (rv_s_imm w AND 0xFFFF) :: u16) n \<longleftrightarrow>
     bit w (if n < 5 then 7 + n else if n < 11 then 20 + n else 31)"
  by (cases "n = 11")
    (auto simp: rv_s_imm_def Let_def sign_bit mask_high bit_simps mask_simps dest: bit_imp_le_length)

lemma s_imm_format:
  "ucast (rv_s_imm (rv_format (ucast (drop_bit 5 i)) r2 r1 f3 (ucast i) opc) AND 0xFFFF) = (scast (i :: 12 word) :: u16)"
proof (rule bit_word_eqI)
  fix n assume "n < LENGTH(16)"
  then have n: "n < 16" by simp
  show "bit (ucast (rv_s_imm (rv_format (ucast (drop_bit 5 i)) r2 r1 f3 (ucast i) opc) AND 0xFFFF) :: u16) n
      = bit (scast i :: u16) n"
    unfolding s_imm_bit [OF n] bit_scast12 [OF n] by (auto simp: rv_bits)
qed

section \<open>The translation of each instruction\<close>

fun rv_translation :: "rv \<Rightarrow> asm list" where
  "rv_translation (RvAdd d a b) = [Add (ucast d) (ucast a) (ucast b)]"
| "rv_translation (RvSub d a b) = [Sub (ucast d) (ucast a) (ucast b)]"
| "rv_translation (RvMul d a b) = [Mul (ucast d) (ucast a) (ucast b)]"
| "rv_translation (RvAddi d a i) = [Movi 15 (scast i), Add (ucast d) (ucast a) 15]"
| "rv_translation (RvLw d a i) = [Load (ucast d) (ucast a) (scast i)]"
| "rv_translation (RvSw b a i) = [Store (ucast b) (ucast a) (scast i)]"

lemma translate_encoded: "translate_one_riscv (rv_encode i) = Some (map assemble (rv_translation i))"
  by (cases i) (simp_all add: translate_one_riscv_def rv_fields lo4_reg i_imm_format s_imm_format)

lemma reg4_less: "(ucast (r :: 4 word) :: u8) < 16"
proof -
  have "unat r < 16" using unsigned_less [of r, where 'a = nat] by simp
  then have "unat (ucast r :: u8) < 16" by (simp add: unsigned_ucast_eq take_bit_nat_eq_self)
  then show ?thesis by (simp add: word_less_nat_alt)
qed

lemma reg4_reg5: "reg5 (ucast (r :: 4 word))" "reg5 15"
  by (simp_all add: reg5_small reg4_less)

lemma reg4_inj: "(ucast (r :: 4 word) :: u8) = ucast q \<longleftrightarrow> r = q"
proof
  assume eq: "(ucast r :: u8) = ucast q"
  show "r = q"
  proof (rule bit_word_eqI)
    fix n assume "n < LENGTH(4)"
    with arg_cong [OF eq, of "\<lambda>w. bit w n"] show "bit r n = bit q n" by (simp add: bit_simps)
  qed
qed simp

lemma reg4_0: "(ucast (r :: 4 word) :: u8) = 0 \<longleftrightarrow> r = 0"
  using reg4_inj [of r 0] by simp

lemma reg4_15: "(ucast (r :: 4 word) :: u8) = 15 \<longleftrightarrow> r = 15"
  using reg4_inj [of r 15] by simp

lemma exec_words_Nil [simp]: "exec_words fp [] A = Some A"
  by (simp add: exec_words_def)

text \<open>Execution of an assembled instruction, through the fields it decodes to.\<close>

lemma assembled_exec:
  "reg5 d \<Longrightarrow> reg5 a \<Longrightarrow> reg5 b \<Longrightarrow> exec_words fp (assemble (Add d a b) # ws) A =
     exec_words fp ws (a_result d (a_gpr A a + a_gpr A b) A)"
  "reg5 d \<Longrightarrow> reg5 a \<Longrightarrow> reg5 b \<Longrightarrow> exec_words fp (assemble (Sub d a b) # ws) A =
     exec_words fp ws (a_result d (a_gpr A a - a_gpr A b) A)"
  "reg5 d \<Longrightarrow> reg5 a \<Longrightarrow> reg5 b \<Longrightarrow> exec_words fp (assemble (Mul d a b) # ws) A =
     exec_words fp ws (a_result d (a_gpr A a * a_gpr A b) A)"
  "reg5 d \<Longrightarrow> exec_words fp (assemble (Movi d i) # ws) A = exec_words fp ws (a_write d (ucast i) A)"
  "reg5 d \<Longrightarrow> reg5 a \<Longrightarrow> exec_words fp (assemble (Load d a i) # ws) A =
     (let ad = a_gpr A a + scast i in if in_range (a_mem A) ad 4
      then exec_words fp ws (a_write d (le_word32 (slice (unat ad) 4 (a_mem A))) A) else None)"
  "reg5 d \<Longrightarrow> reg5 a \<Longrightarrow> exec_words fp (assemble (Store d a i) # ws) A =
     (let ad = a_gpr A a + scast i in if in_range (a_mem A) ad 4
      then exec_words fp ws (A\<lparr>a_mem := splice_at (unat ad) (le_bytes32 (a_gpr A d)) (a_mem A)\<rparr>) else None)"
  by (simp_all add: exec_words_def exec_word_def enc_unfold field_lemmas named_opcodes_def ea_def Let_def)

lemma scast_chain: "(scast (scast (i :: 12 word) :: u16) :: u32) = scast i"
  by (rule bit_word_eqI) (auto simp: bit_simps min_def)

lemma ucast_positive: "\<not> bit (i :: 12 word) 11 \<Longrightarrow> (ucast (scast i :: u16) :: u32) = scast i"
  by (rule bit_word_eqI) (auto simp: bit_simps min_def)

lemma low_add: "(ucast (a + b :: u64) :: u32) = ucast a + ucast b"
  by (simp add: word_unat_eq_iff unsigned_ucast_eq unat_word_ariths take_bit_eq_mod mod_mod_cancel mod_add_eq)

lemma low_sub: "(ucast (a - b :: u64) :: u32) = ucast a - ucast b"
  using low_add [of "a - b" b] by (simp add: eq_diff_eq)

lemma low_mul: "(ucast (a * b :: u64) :: u32) = ucast a * ucast b"
  by (simp add: word_unat_eq_iff unsigned_ucast_eq unat_word_ariths take_bit_eq_mod mod_mod_cancel mod_mult_eq)

lemma low_scast: "(ucast (scast (i :: 12 word) :: u64) :: u32) = scast i"
  by (rule bit_word_eqI) (auto simp: bit_simps min_def)

lemma low_word: "(ucast (scast (w :: u32) :: u64) :: u32) = w"
proof (rule bit_word_eqI)
  fix n assume n: "n < LENGTH(32)"
  then have "min n 31 = n" by simp
  with n show "bit (ucast (scast w :: u64) :: u32) n = bit w n" by (simp add: bit_simps)
qed

lemma unat_low: "w < 0x100000000 \<Longrightarrow> unat (ucast (w :: u64) :: u32) = unat w"
  by (simp add: unsigned_ucast_eq take_bit_nat_eq_self word_less_nat_alt)

lemmas low_simps = low_add low_sub low_mul low_scast low_word

lemma guest_ofD: "guest_of A g \<Longrightarrow> r \<noteq> 15 \<Longrightarrow> a_gpr A (ucast r) = ucast (rv_x g r)"
  "guest_of A g \<Longrightarrow> a_mem A = rv_mem g"
  by (simp_all add: guest_of_def)

lemma guest_of_write:
  "guest_of A g \<Longrightarrow> d \<noteq> 15 \<Longrightarrow> w = ucast v \<Longrightarrow> guest_of (a_write (ucast d) w A) (rv_set d v g)"
  by (auto simp: guest_of_def a_write_def rv_set_def reg4_0 reg4_inj)

lemma guest_of_result:
  "guest_of A g \<Longrightarrow> d \<noteq> 15 \<Longrightarrow> w = ucast v \<Longrightarrow> guest_of (a_result (ucast d) w A) (rv_set d v g)"
  using guest_of_write [of A g d w v] by (simp add: a_result_def guest_of_def)

lemma guest_of_temp: "guest_of A g \<Longrightarrow> guest_of (a_write 15 v A) g"
  by (auto simp: guest_of_def a_write_def reg4_15)

lemma guest_of_store: "guest_of A g \<Longrightarrow> guest_of (A\<lparr>a_mem := mem\<rparr>) (g\<lparr>rv_mem := mem\<rparr>)"
  by (simp add: guest_of_def)

text \<open>The address a load or store of the translation uses.\<close>

lemma guest_addr:
  assumes "guest_of A g" and "a \<noteq> 15" and "rv_x g a + scast i < 0x100000000"
  shows "unat (a_gpr A (ucast a) + scast (i :: 12 word)) = unat (rv_x g a + scast i)"
  using unat_low [OF assms(3)] guest_ofD(1) [OF assms(1,2)] by (simp add: low_simps)

lemma instr_simulates:
  assumes "rv_ok i" and "rv_low i g" and "guest_of A g"
  shows "rel_option guest_of (exec_words fp (map assemble (rv_translation i)) A) (rv_exec i g)"
proof (cases i)
  case (RvAddi d a k)
  let ?A = "a_write 15 (scast k) A"
  from RvAddi assms have t: "guest_of ?A g" by (simp add: guest_of_temp)
  have "a_gpr ?A 15 = scast k" by (simp add: a_write_def)
  with RvAddi assms guest_of_result [OF t, of d _ "rv_x g a + scast k"] guest_ofD(1) [OF t, of a] show ?thesis
    by (simp add: assembled_exec reg4_reg5 ucast_positive low_simps del: assemble.simps)
next
  case (RvLw d a k)
  then have ok: "d \<noteq> 15" "a \<noteq> 15" and ad: "unat (a_gpr A (ucast a) + scast k) = unat (rv_x g a + scast k)"
    using assms guest_addr [OF assms(3), of a k] by simp_all
  let ?w = "le_word32 (slice (unat (rv_x g a + scast k)) 4 (rv_mem g))"
  have "guest_of (a_write (ucast d) ?w A) (rv_set d (scast ?w) g)"
    using assms(3) ok(1) by (rule guest_of_write) (simp add: low_word)
  with RvLw ok show ?thesis
    by (simp add: assembled_exec reg4_reg5 scast_chain guest_ofD(2) [OF assms(3)] Let_def in_range_def ad del: assemble.simps)
next
  case (RvSw b a k)
  then have ok: "b \<noteq> 15" "a \<noteq> 15" and ad: "unat (a_gpr A (ucast a) + scast k) = unat (rv_x g a + scast k)"
    using assms guest_addr [OF assms(3), of a k] by simp_all
  with RvSw guest_of_store [OF assms(3)] show ?thesis
    by (simp add: assembled_exec reg4_reg5 scast_chain guest_ofD [OF assms(3)] Let_def in_range_def ad del: assemble.simps)
qed (use assms in \<open>auto simp: assembled_exec reg4_reg5 guest_ofD low_simps intro!: guest_of_result simp del: assemble.simps\<close>)

interpretation rv_native: straight_line rv_exec "exec_word fp" "\<lambda>i. map assemble (rv_translation i)" rv_ok rv_low guest_of
  for fp
  by unfold_locales (use instr_simulates in \<open>simp add: exec_words_def\<close>)

lemma translated_program:
  "fst (translate_bytes RISCV64 (bytes_of_words (map rv_encode is))) =
   concat (map (\<lambda>i. map assemble (rv_translation i)) is)"
  by (simp add: words_of_bytes_of_words emit_all_words words_for_def translate_encoded comp_def)

section \<open>Properties\<close>

text \<open>
  C11. Translated straight-line RISC-V code is correct for six instructions: take any sequence
  of \<open>ADD\<close>, \<open>SUB\<close>, \<open>MUL\<close>, \<open>ADDI\<close> with an immediate that is not negative, \<open>LW\<close> and \<open>SW\<close> on \<open>x0\<close>
  to \<open>x14\<close>, encode it as the RISC-V manual says, hand the bytes to \<open>translate_bytes\<close> and
  execute the words it returns on the instruction set. Let the loads and stores of the guest
  program go to addresses below 4 GB. From states that match (each 32-bit register holds the
  low half of the 64-bit guest register, the memories are equal) it fails exactly when the
  guest program fails (an access outside memory), and otherwise ends in states that match.
\<close>

theorem riscv_program_correct:
  assumes "list_all rv_ok is" and "rv_all_low is g" and "guest_of A g"
  shows "rel_option guest_of
     (exec_words fp (fst (translate_bytes RISCV64 (bytes_of_words (map rv_encode is)))) A) (rv_run is g)"
  unfolding translated_program exec_words_def rv_run_def
  using assms unfolding rv_all_low_def by (rule rv_native.program_simulates)

definition rv_demo :: arch where
  "rv_demo = \<lparr>a_gpr = (\<lambda>_. 0), a_vr = (\<lambda>_. []), a_pc = 0, a_halt = False,
     a_flags = flags_of status_init, a_mem = replicate 16 0, a_dram = []\<rparr>"

definition rv_guest :: rv_state where
  "rv_guest = \<lparr>rv_x = (\<lambda>_. 0), rv_mem = replicate 16 0\<rparr>"

lemma rv_demo_guest_of: "guest_of rv_demo rv_guest"
  by (simp add: guest_of_def rv_demo_def rv_guest_def)

text \<open>\<open>x1 := 5; x2 := x1 - 2 * x1; x4 := x2 * x2\<close> over memory: \<open>x3\<close> is \<open>-5\<close> in 64 bits.\<close>

definition rv_code :: "rv list" where
  "rv_code = [RvAddi 1 0 5, RvAdd 2 1 1, RvSub 2 1 2, RvSw 2 0 8, RvLw 3 0 8, RvMul 4 3 3]"

theorem riscv_program_correct_witness:
  "rel_option guest_of
     (exec_words (h_fpu demo_host) (fst (translate_bytes RISCV64 (bytes_of_words (map rv_encode rv_code)))) rv_demo)
     (rv_run rv_code rv_guest)
   \<and> map_option (\<lambda>g. (rv_x g 3, rv_x g 4, rv_mem g ! 8)) (rv_run rv_code rv_guest) = Some (- 5, 25, 0xFB)"
proof -
  have "map_option (\<lambda>g. (rv_x g 3, rv_x g 4, rv_mem g ! 8)) (rv_run rv_code rv_guest) = Some (- 5, 25, 0xFB)" by code_simp
  moreover have "list_all rv_ok rv_code" "rv_all_low rv_code rv_guest" by code_simp+
  ultimately show ?thesis using riscv_program_correct [OF _ _ rv_demo_guest_of] by blast
qed

lemma ucast_negative: "bit (i :: 12 word) 11 \<Longrightarrow> (ucast (scast i :: u16) :: u32) = scast i + 0x10000"
proof -
  assume neg: "bit i 11"
  have "(scast i :: u32) = NOT (mask 16) OR ucast (scast i :: u16)"
    using neg by (intro bit_word_eqI) (auto simp: bit_simps min_def)
  moreover have "NOT (mask 16) OR w = NOT (mask 16) + w" if "w AND NOT (mask 16) = 0" for w :: u32
    using that by (simp add: disjunctive_add_eq_or and.commute)
  moreover have "(ucast (scast i :: u16) :: u32) AND NOT (mask 16) = 0"
    by (rule bit_word_eqI) (auto simp: bit_simps)
  ultimately show ?thesis by (simp add: mask_eq_exp_minus_1)
qed

text \<open>
  \<open>ADDI\<close> with a negative immediate is translated wrongly: the immediate goes through
  \<open>MOVI\<close>, which does not extend the sign, so the result is too large by \<open>0x10000\<close>.
\<close>

theorem riscv_addi_negative:
  assumes "d \<noteq> 0" and "a \<noteq> 15" and "bit i 11"
  shows "map_option (\<lambda>A'. a_gpr A' (ucast d)) (exec_words fp (the (translate_one_riscv (rv_encode (RvAddi d a i)))) A)
     = Some (a_gpr A (ucast a) + scast i + 0x10000)"
  using assms by (simp add: translate_encoded assembled_exec reg4_reg5 a_result_def a_write_def reg4_0 reg4_15
      ucast_negative del: assemble.simps rv_encode.simps)

theorem riscv_addi_negative_witness:
  "map_option (\<lambda>A'. a_gpr A' 1) (exec_words (h_fpu demo_host) (the (translate_one_riscv (rv_encode (RvAddi 1 0 0xFFF)))) rv_demo)
     = Some 0xFFFF"
  using riscv_addi_negative [of 1 0 "0xFFF" "h_fpu demo_host" rv_demo] by (simp add: rv_demo_def)

text \<open>
  Translated control transfers miss their targets. \<open>beq x0, x0, +8\<close> becomes a branch with
  an offset of one (word), which the executor adds to the program counter as one byte; \<open>jal x0,
  +8\<close> becomes a jump to the absolute address 8, wherever the instruction stands.
\<close>

theorem riscv_control_misdirected:
  "map_option a_pc (exec_words fp (the (translate_one_riscv 0x00000463)) (A\<lparr>a_pc := p + 4\<rparr>)) = Some (p + 5)
   \<and> map_option a_pc (exec_words fp (the (translate_one_riscv 0x0080006F)) (A\<lparr>a_pc := p + 4\<rparr>)) = Some 8"
proof -
  have "translate_one_riscv 0x00000463 = Some [assemble (Beq 0 0 1)]"
    and "translate_one_riscv 0x0080006F = Some [assemble (Jmp 8)]" by code_simp+
  then show ?thesis
    by (simp add: exec_words_def exec_word_def enc_unfold field_lemmas named_opcodes_def)
qed

end
