(* ===== verification/Unseen.thy ===== *)
theory Unseen
  imports Emu_Inv
begin

text \<open>
  Parts of the emulator that executing instructions neither reads nor writes. The locale takes
  an update of such parts: one that keeps every field the operations look at and commutes with
  their updates. Inside it, every handler, fetch, execute, the interrupt check and the peripheral
  tick are blind to the update. The block cache is such a part (\<open>Fast\<close>), and so are the
  verbose flag and the snapshot that the log is made from (\<open>Console\<close>).
\<close>

named_theorems unseen_ops \<open>operations that do not look at a part of the emulator\<close>

locale unseen =
  fixes u :: "emu \<Rightarrow> emu"
  assumes sel:
    "e_scratchpad (u s) = e_scratchpad s" "e_main_ram (u s) = e_main_ram s"
    "e_regs (u s) = e_regs s" "e_csr (u s) = e_csr s" "e_mmu (u s) = e_mmu s"
    "e_bus (u s) = e_bus s" "e_axi (u s) = e_axi s" "e_pcie (u s) = e_pcie s" "e_cxi (u s) = e_cxi s"
    "e_interconnect (u s) = e_interconnect s" "e_timer (u s) = e_timer s"
    "e_uart (u s) = e_uart s" "e_profiler (u s) = e_profiler s"
    "e_intc (u s) = e_intc s" "e_target (u s) = e_target s" "e_accel (u s) = e_accel s"
    "e_tick_accum (u s) = e_tick_accum s" "e_debugger (u s) = e_debugger s" "e_shared (u s) = e_shared s"
  and upd:
    "(u s)\<lparr>e_regs := r\<rparr> = u (s\<lparr>e_regs := r\<rparr>)"
    "(u s)\<lparr>e_scratchpad := m\<rparr> = u (s\<lparr>e_scratchpad := m\<rparr>)"
    "(u s)\<lparr>e_main_ram := d\<rparr> = u (s\<lparr>e_main_ram := d\<rparr>)"
    "(u s)\<lparr>e_csr := q\<rparr> = u (s\<lparr>e_csr := q\<rparr>)"
    "(u s)\<lparr>e_intc := i\<rparr> = u (s\<lparr>e_intc := i\<rparr>)"
    "(u s)\<lparr>e_mmu := w\<rparr> = u (s\<lparr>e_mmu := w\<rparr>)"
    "(u s)\<lparr>e_axi := ic\<rparr> = u (s\<lparr>e_axi := ic\<rparr>)"
    "(u s)\<lparr>e_pcie := ic\<rparr> = u (s\<lparr>e_pcie := ic\<rparr>)"
    "(u s)\<lparr>e_cxi := ic\<rparr> = u (s\<lparr>e_cxi := ic\<rparr>)"
    "(u s)\<lparr>e_interconnect := ic\<rparr> = u (s\<lparr>e_interconnect := ic\<rparr>)"
    "(u s)\<lparr>e_timer := t\<rparr> = u (s\<lparr>e_timer := t\<rparr>)"
    "(u s)\<lparr>e_uart := v\<rparr> = u (s\<lparr>e_uart := v\<rparr>)"
    "(u s)\<lparr>e_shared := sh\<rparr> = u (s\<lparr>e_shared := sh\<rparr>)"
    "(u s)\<lparr>e_profiler := p\<rparr> = u (s\<lparr>e_profiler := p\<rparr>)"
    "(u s)\<lparr>e_tick_accum := n\<rparr> = u (s\<lparr>e_tick_accum := n\<rparr>)"
begin

lemma blind_gets_parts [unseen_ops]:
  "blind u (gets (\<lambda>s. pc (e_regs s)))" "blind u (gets (\<lambda>s. mmu_enabled (e_mmu s)))"
  "blind u (gets e_bus)" "blind u (gets e_accel)"
  "blind u (gets (\<lambda>s. mtvec_base (e_csr s)))"
  "blind u (gets (\<lambda>s. (pc (e_regs s), csr_read (e_csr s) CSR_MTVEC)))"
  by (simp_all add: blind_gets sel)

lemma blind_prims [unseen_ops]:
  "blind u (rd_gpr i)" "blind u (wr_gpr i v)" "blind u (set_pc a)"
  "blind u (upd_flags ov w)" "blind u (vr_ptr i)" "blind u (upd_vrs f)"
  "blind u (prof_record op n d)" "blind u (emu_take_trap t)"
  unfolding rd_gpr_def wr_gpr_def set_pc_def upd_flags_def vr_ptr_def upd_vrs_def prof_record_def
    emu_take_trap_def
  by (auto intro!: blind_lift_res blind_update_res blind_modify simp: sel upd take_trap_def)

lemma blind_issue [unseen_ops]: "blind u (axi_issue a n w)"
  by (auto intro!: blindI simp: axi_issue_def Let_def sel upd split: res.split)

lemma blind_translate [unseen_ops]: "blind u (emu_translate a w x)"
  by (auto intro!: blindI simp: emu_translate_def sel upd split: res.split)

lemma blind_devices [unseen_ops]:
  "blind u (dev_read_call t a)" "blind u (dev_write_call t a v)"
  by (cases t; auto simp: blind_def sel upd update_res_def split: prod.split res.split)+

lemma blind_bus [unseen_ops]:
  "blind u (emu_bus_read32 a)" "blind u (emu_bus_write32 a v)"
  unfolding emu_bus_read32_def emu_bus_write32_def bus_read32_def bus_write32_def
  by (intro blind_intros unseen_ops blind_lift_res blind_update_res; simp add: sel upd)+

lemma blind_trap [unseen_ops]: "blind u (enter_trap t)"
  unfolding enter_trap_def by (intro blind_intros unseen_ops)

lemma blind_scalar_ops [unseen_ops]:
  "blind u (op_nop i)" "blind u (op_jmp i)" "blind u (op_halt i)"
  "blind u (op_beq i)" "blind u (op_bne i)"
  "blind u (op_add i)" "blind u (op_sub i)"
  "blind u (op_mul i)" "blind u (op_mov i)" "blind u (op_movi i)"
  unfolding op_nop_def op_jmp_def op_halt_def op_beq_def op_bne_def op_add_def op_sub_def op_mul_def
    op_mov_def op_movi_def take_branch_def Let_def
  by (intro blind_intros unseen_ops blind_modify; simp add: sel upd)+

lemma blind_load_store [unseen_ops]:
  "blind u (op_load i)" "blind u (op_store i)"
  unfolding op_load_def op_store_def Let_def by (intro blind_intros unseen_ops)+

lemma blind_vector_ops [unseen_ops]:
  "blind u (op_load_vr i)" "blind u (op_store_vr i)"
  "blind u (op_vec_add h i)" "blind u (op_matmul_tile h i)"
  unfolding op_load_vr_def op_store_vr_def op_vec_add_def op_matmul_tile_def Let_def
  by (intro blind_intros unseen_ops blind_lift_res blind_update_res; simp add: sel upd)+

lemma blind_dma_translate [unseen_ops]:
  assumes "\<And>d a. blind u (f d a)"
  shows "blind u (dma_translate d a b f)"
  unfolding dma_translate_def
  by (intro blind_intros unseen_ops) (auto intro!: assms blind_intros unseen_ops split: option.split)

lemma blind_dma_ops [unseen_ops]:
  "blind u (op_dma_load i)" "blind u (op_dma_store i)"
  unfolding op_dma_load_def op_dma_store_def Let_def
  by (intro blind_intros unseen_ops blind_gets blind_lift_res blind_update_res; simp add: sel upd)+

lemma blind_dispatch: "dispatch h op = Some f \<Longrightarrow> blind u (f i)"
  by (cases op) (auto intro: unseen_ops)

lemma blind_execute [unseen_ops]: "blind u (execute h i)"
proof (cases "dispatch h (instr_opcode i)")
  case None
  then show ?thesis
    unfolding execute_def Let_def None option.case by (intro blind_intros unseen_ops)
next
  case (Some f)
  then show ?thesis
    unfolding execute_def Let_def Some option.case
    by (intro blind_intros unseen_ops blind_modify blind_dispatch [OF Some]) (simp add: sel upd)
qed

lemma tick_once_unseen: "tick_once (u s) = u (tick_once s)"
  by (simp add: tick_once_def Let_def sel upd)

lemma tick_unseen: "tick_peripherals (u s) = u (tick_peripherals s)"
proof -
  have "(tick_once ^^ n) (u s) = u ((tick_once ^^ n) s)" for n
    by (induction n) (simp_all add: tick_once_unseen)
  then show ?thesis by (simp add: tick_peripherals_funpow sel)
qed

lemma blind_tick [unseen_ops]: "blind u (modify tick_peripherals)"
  by (rule blind_modify) (rule tick_unseen)

lemma blind_fetch [unseen_ops]: "blind u fetch"
  unfolding fetch_def
  by (intro blind_intros unseen_ops blind_gets blind_lift_res) (auto intro!: blind_intros unseen_ops blind_lift_res simp: sel split: option.split)

lemma blind_interrupts [unseen_ops]: "blind u check_interrupts"
  unfolding check_interrupts_def
  by (intro blind_intros unseen_ops blind_gets) (auto intro!: blind_intros unseen_ops blind_gets simp: sel split: option.split)

end

end
