(* ===== verification/Fast.thy ===== *)
theory Fast
  imports Isa_Spec Unseen
begin

text \<open>
  The two run loops of \<^verbatim>\<open>src/emulator.cpp\<close> against each other: \<open>run\<close>, which fetches every
  instruction, and \<open>run_fast\<close>, which replays decoded blocks from the block cache. They agree
  on a quiet machine (no translation, no interrupts, no trap handler) that is not verbose, as
  long as the program stays in a text region of whole cache lines and does not overwrite it.
\<close>

section \<open>No operation but the fast loop looks at the block cache\<close>

definition set_bc :: "block_cache \<Rightarrow> emu \<Rightarrow> emu" where
  "set_bc c s = s\<lparr>e_block_cache := c\<rparr>"

lemma set_bc_sel [simp]:
  "e_scratchpad (set_bc c s) = e_scratchpad s" "e_main_ram (set_bc c s) = e_main_ram s"
  "e_regs (set_bc c s) = e_regs s" "e_csr (set_bc c s) = e_csr s" "e_mmu (set_bc c s) = e_mmu s"
  "e_bus (set_bc c s) = e_bus s" "e_axi (set_bc c s) = e_axi s" "e_timer (set_bc c s) = e_timer s"
  "e_uart (set_bc c s) = e_uart s" "e_profiler (set_bc c s) = e_profiler s"
  "e_intc (set_bc c s) = e_intc s" "e_target (set_bc c s) = e_target s"
  "e_accel (set_bc c s) = e_accel s" "e_verbose (set_bc c s) = e_verbose s"
  "e_tick_accum (set_bc c s) = e_tick_accum s" "e_debugger (set_bc c s) = e_debugger s"
  "e_block_cache (set_bc c s) = c" "set_bc d (set_bc c s) = set_bc d s"
  by (simp_all add: set_bc_def)

interpretation bc: unseen "set_bc c" for c
  by unfold_locales (simp_all add: set_bc_def)

section \<open>A quiet machine stays quiet, and only control instructions set the program counter\<close>

definition kept :: "emu \<Rightarrow> u32 option \<Rightarrow> emu \<Rightarrow> bool" where
  "kept s0 p s \<longleftrightarrow> quiet s0 \<and> frame s0 s \<and> (\<forall>a. p = Some a \<longrightarrow> pc (e_regs s) = a)"

lemma kept_quiet: "kept s0 p s \<Longrightarrow> quiet s"
  by (auto simp: kept_def intro: quiet_frame)

named_theorems keep \<open>operations that keep a machine quiet\<close>

lemma keep_prims [keep]:
  "preserves (kept s0 p) (rd_gpr i)" "preserves (kept s0 p) (wr_gpr i v)"
  "preserves (kept s0 p) (upd_flags ov w)" "preserves (kept s0 p) (vr_ptr i)"
  "preserves (kept s0 p) (upd_vrs f)" "preserves (kept s0 p) (prof_record op n d)"
  "preserves (kept s0 None) (set_pc a)"
  unfolding rd_gpr_def wr_gpr_def set_pc_def upd_flags_def vr_ptr_def upd_vrs_def prof_record_def
  by (auto intro!: pres preserves_update_res preserves_modify dest: write_gpr_frame
      simp: kept_def frame_def update_flags_u32_def)

lemma keep_issue [keep]: "preserves (kept s0 p) (axi_issue a n w)"
  by (rule preservesI) (auto simp: axi_issue_def Let_def kept_def frame_def split: res.splits)

lemma keep_devices [keep]:
  "preserves (kept s0 p) (dev_read_call t a)" "preserves (kept s0 p) (dev_write_call t a v)"
  by (cases t; auto simp: preserves_def kept_def frame_def update_res_def split: prod.splits res.splits)+

lemma keep_bus [keep]:
  "preserves (kept s0 p) (emu_bus_read32 a)" "preserves (kept s0 p) (emu_bus_write32 a v)"
  unfolding emu_bus_read32_def emu_bus_write32_def
  by (intro pres keep preserves_bus_read32 preserves_bus_write32; auto simp: kept_def frame_def)+

text \<open>Translation is off, so that the branch behind the MMU is never taken.\<close>

lemma keep_mmu_off:
  assumes "preserves (kept s0 p) k"
  shows "preserves (kept s0 p) (bind (gets (\<lambda>s. mmu_enabled (e_mmu s))) (\<lambda>en. if en then m else k))"
  by (rule preserves_bind_post [OF preserves_gets, of _ _ Not])
    (use assms in \<open>auto dest: kept_quiet simp: quiet_def\<close>)

lemma keep_plain_ops [keep]:
  "preserves (kept s0 p) (op_nop i)" "preserves (kept s0 p) (op_add i)"
  "preserves (kept s0 p) (op_sub i)" "preserves (kept s0 p) (op_mul i)"
  "preserves (kept s0 p) (op_mov i)" "preserves (kept s0 p) (op_movi i)"
  unfolding op_nop_def op_add_def op_sub_def op_mul_def op_mov_def op_movi_def Let_def
  by (intro pres keep)+

lemma keep_load_store [keep]:
  "preserves (kept s0 p) (op_load i)" "preserves (kept s0 p) (op_store i)"
  unfolding op_load_def op_store_def Let_def
  by (rule preserves_bind [OF keep_prims(1)], rule keep_mmu_off, intro pres keep)+

lemma keep_vector_ops [keep]:
  "preserves (kept s0 p) (op_load_vr i)" "preserves (kept s0 p) (op_store_vr i)"
  "preserves (kept s0 p) (op_vec_add h i)" "preserves (kept s0 p) (op_matmul_tile h i)"
  unfolding op_load_vr_def op_store_vr_def op_vec_add_def op_matmul_tile_def Let_def
  by (intro pres keep preserves_update_res; simp add: kept_def frame_def)+

lemma keep_dma_translate [keep]:
  assumes "\<And>d a. preserves (kept s0 p) (f d a)"
  shows "preserves (kept s0 p) (dma_translate d a b f)"
  unfolding dma_translate_def by (rule keep_mmu_off) (rule assms)

lemma keep_dma_ops [keep]:
  "preserves (kept s0 p) (op_dma_load i)" "preserves (kept s0 p) (op_dma_store i)"
  unfolding op_dma_load_def op_dma_store_def Let_def
  by (intro pres keep; auto intro!: pres keep preserves_update_res simp: kept_def frame_def)+

lemma keep_control_ops [keep]:
  "preserves (kept s0 None) (op_jmp i)" "preserves (kept s0 None) (op_beq i)"
  "preserves (kept s0 None) (op_bne i)" "preserves (kept s0 None) (op_halt i)"
  unfolding op_jmp_def op_beq_def op_bne_def op_halt_def take_branch_def
  by (intro pres keep preserves_modify; simp add: kept_def frame_def)+

lemma keep_dispatch:
  assumes "dispatch h op = Some f" and "is_control op \<Longrightarrow> p = None"
  shows "preserves (kept s0 p) (f i)"
  using assms by (cases op) (auto intro: keep simp: is_control_def)

lemma keep_execute:
  assumes "is_control (instr_opcode i) \<Longrightarrow> p = None"
  shows "preserves (kept s0 p) (execute h i)"
proof (cases "dispatch h (instr_opcode i)")
  case None
  show ?thesis
    unfolding execute_def Let_def None option.case
    by (rule preserves_bind_post [OF preserves_gets, of _ _ "\<lambda>(q, mtvec). mtvec = 0"])
      (auto intro: pres dest!: kept_quiet simp: quiet_def csr_mtvec_def)
next
  case (Some f)
  show ?thesis
    unfolding execute_def Let_def Some option.case
    by (intro pres keep keep_dispatch [OF Some] preserves_modify)
      (use assms in \<open>auto simp: kept_def frame_def\<close>)
qed

lemma tick_pc: "pc (e_regs (tick_peripherals s)) = pc (e_regs s)"
  using tick_frame [of s] by (metis arch_of_sel(1))

lemma keep_tick: "preserves (kept s0 p) (modify tick_peripherals)"
  by (rule preserves_modify) (use tick_frame tick_pc in \<open>auto simp: kept_def intro: frame_trans\<close>)

section \<open>The text region\<close>

definition text_region :: "nat \<Rightarrow> nat \<Rightarrow> bool" where
  "text_region t m \<longleftrightarrow> 64 dvd t \<and> t \<le> m \<and> t \<le> unat MMIO_BASE"

definition in_text :: "nat \<Rightarrow> u32 \<Rightarrow> bool" where
  "in_text t a \<longleftrightarrow> unat a < t \<and> 4 dvd unat a"

definition text_of :: "nat \<Rightarrow> emu \<Rightarrow> u8 list" where
  "text_of t s = take t (sram_data (e_scratchpad s))"

lemma in_text_fits: "text_region t m \<Longrightarrow> in_text t a \<Longrightarrow> unat a + 4 \<le> t"
  by (auto simp: text_region_def in_text_def elim!: dvdE)

lemma in_text_next:
  assumes r: "text_region t m" and a: "in_text t a" and line: "(a + 4) AND 0x3F \<noteq> 0"
  shows "in_text t (a + 4)"
proof -
  have le: "unat a + 4 \<le> t" by (rule in_text_fits [OF r a])
  have "t < 2 ^ 32" using r by (simp add: text_region_def MMIO_BASE_def)
  with le have eq: "unat (a + 4) = unat a + 4" by (simp add: unat_word_ariths)
  have "unat ((a + 4) AND 0x3F) = unat (a + 4) mod 64"
    by (simp only: mask_0x3F unsigned_take_bit_eq flip: take_bit_eq_mask) (simp add: take_bit_eq_mod)
  with line eq have "(unat a + 4) mod 64 \<noteq> 0" by (metis unat_eq_zero)
  then have "unat a + 4 \<noteq> t" using r by (auto simp: text_region_def)
  with le eq a show ?thesis by (auto simp: in_text_def)
qed

lemma run_of_text:
  assumes "text_region t m" and "in_text t a" and "run_of rd a is" and "i < length is"
  shows "in_text t (pc_at a i)"
  using assms(4)
proof (induction i)
  case (Suc i)
  then have "in_text t (pc_at a i)" by simp
  moreover have "pc_at a i + 4 AND 0x3F \<noteq> 0"
    using assms(3) Suc.prems by (simp add: run_of_def flip: pc_at_Suc)
  ultimately show ?case using in_text_next [OF assms(1)] by (simp add: pc_at_Suc)
qed (use assms(2) in simp)

lemma run_of_cong:
  assumes "text_region t m" and "in_text t a" and "\<And>b. in_text t b \<Longrightarrow> rd' b = rd b" and "run_of rd a is"
  shows "run_of rd' a is"
  using assms(4) run_of_text [OF assms(1,2,4)] assms(3) by (simp add: run_of_def)

lemma run_of_tl:
  assumes "run_of rd a (i # is)"
  shows "run_of rd (a + 4) is"
proof -
  have "rd (pc_at (a + 4) j) = Ok (raw (is ! j))" if "j < length is" for j
    using assms that by (auto simp: run_of_def pc_at_shift dest: spec [of _ "Suc j"])
  moreover have "\<not> is_control (instr_opcode (is ! j)) \<and> pc_at (a + 4) (Suc j) AND 0x3F \<noteq> 0"
    if "Suc j < length is" for j
    using assms that by (auto simp: run_of_def pc_at_shift dest: spec [of _ "Suc j"])
  ultimately show ?thesis by (simp add: run_of_def)
qed

lemma decode_defined:
  assumes "text_region t m" and "\<And>b. in_text t b \<Longrightarrow> \<exists>w. rd b = Ok w" and "in_text t cur"
  shows "\<exists>blk'. decode_loop rd n cur blk = Ok blk'"
  using assms(3)
proof (induction n arbitrary: cur blk)
  case (Suc n)
  then obtain w where w: "rd cur = Ok w" using assms(2) by blast
  show ?case
  proof (cases "is_control (instr_opcode \<lparr>raw = w\<rparr>) \<or> (cur + 4) AND 0x3F = 0")
    case False
    then have "in_text t (cur + 4)" using in_text_next [OF assms(1) Suc.prems] by simp
    from Suc.IH [OF this] w False show ?thesis by (simp add: Let_def)
  qed (use w in \<open>auto simp: Let_def\<close>)
qed simp

text \<open>The words of the text region are readable, and determined by its bytes.\<close>

lemma text_read:
  assumes "emu_inv m k s" and "text_region t m" and "in_text t a"
  shows "sram_read32 (e_scratchpad s) a = Ok (le_word32 (slice (unat a) 4 (text_of t s)))"
proof -
  have le: "unat a + 4 \<le> t" by (rule in_text_fits [OF assms(2,3)])
  moreover have "t \<le> length (sram_data (e_scratchpad s))"
    using assms(1,2) by (simp add: emu_inv_def text_region_def)
  moreover have "slice (unat a) 4 (text_of t s) = slice (unat a) 4 (sram_data (e_scratchpad s))"
    using le by (simp add: slice_def text_of_def drop_take)
  ultimately show ?thesis
    using inv_parts(5) [OF assms(1)] by (simp add: sram_read32_eq)
qed

lemma text_same:
  assumes "emu_inv m k s" and "emu_inv m k s1" and "text_region t m" and "text_of t s1 = text_of t s"
    and "in_text t b"
  shows "sram_read32 (e_scratchpad s1) b = sram_read32 (e_scratchpad s) b"
  using text_read [OF assms(1,3,5)] text_read [OF assms(2,3,5)] assms(4) by simp

lemma text_not_device: "text_region t m \<Longrightarrow> in_text t a \<Longrightarrow> \<not> device_addr a"
  by (auto simp: text_region_def in_text_def device_addr_def word_le_nat_alt)

section \<open>One instruction\<close>

text \<open>What the loops need of the machine, beside the program: well-formed, quiet, not verbose.\<close>

definition fast_ok :: "nat \<Rightarrow> nat \<Rightarrow> emu \<Rightarrow> bool" where
  "fast_ok m k s \<longleftrightarrow> emu_inv m k s \<and> quiet s \<and> \<not> e_verbose s"

text \<open>The part of a turn behind the fetch, which both loops share.\<close>

definition exec_one :: "host_env \<Rightarrow> instruction \<Rightarrow> unit emu_op" where
  "exec_one h i = bind (gets (\<lambda>s. pc (e_regs s))) (\<lambda>p. bind (set_pc (p + 4)) (\<lambda>_.
     bind (execute h i) (\<lambda>_. modify tick_peripherals)))"

lemma blind_exec_one: "blind (set_bc c) (exec_one h i)"
  unfolding exec_one_def by (intro blind_intros unseen_ops)

lemma step_exec_one:
  assumes "fast_ok m k s" and "text_region t m" and "in_text t (pc (e_regs s))" and "\<not> stopped s"
    and "sram_read32 (e_scratchpad s) (pc (e_regs s)) = Ok (raw i)"
  shows "step h s = exec_one h i s"
proof -
  have inv: "emu_inv m k s" and q: "quiet s" and v: "\<not> e_verbose s"
    using assms(1) by (simp_all add: fast_ok_def)
  have len: "length (sram_data (e_scratchpad s)) = m" using inv by (simp add: emu_inv_def)
  then have "in_range (a_mem (arch_of s)) (pc (e_regs s)) 4"
    using in_text_fits [OF assms(2,3)] assms(2) by (simp add: in_range_def text_region_def)
  moreover have "fetched (arch_of s) = i"
    using assms(5) inv_parts(5) [OF inv] by (auto simp: fetched_def sram_read32_eq split: if_splits)
  ultimately have "fetch s = (Ok i, s\<lparr>e_regs := (e_regs s)\<lparr>pc := pc (e_regs s) + 4\<rparr>\<rparr>)"
    using fetch_arch [OF inv q text_not_device [OF assms(2,3)]] by simp
  moreover have "snd (save_verbose s) = s" using v by (simp add: save_verbose_def)
  ultimately show ?thesis
    using assms(4) step_eq [OF _ q, of h] by (simp add: stopped_def bind_eq exec_one_def set_pc_def)
qed

lemma exec_one_keeps:
  assumes "fast_ok m k s" and "exec_one h i s = (Ok (), s')"
  shows "fast_ok m k s'" and "\<not> is_control (instr_opcode i) \<Longrightarrow> pc (e_regs s') = pc (e_regs s) + 4"
proof -
  let ?s1 = "s\<lparr>e_regs := (e_regs s)\<lparr>pc := pc (e_regs s) + 4\<rparr>\<rparr>"
  have inv: "emu_inv m k s" and q: "quiet s" and v: "\<not> e_verbose s"
    using assms(1) by (simp_all add: fast_ok_def)
  have ex: "bind (execute h i) (\<lambda>_. modify tick_peripherals) ?s1 = (Ok (), s')"
    using assms(2) by (simp add: exec_one_def set_pc_def bind_eq)
  have pres: "preserves (kept s p) (bind (execute h i) (\<lambda>_. modify tick_peripherals))"
    if "is_control (instr_opcode i) \<Longrightarrow> p = None" for p
    using that by (intro preserves_bind keep_execute keep_tick)
  have "kept s None ?s1" using q by (simp add: kept_def)
  from preservesD [OF pres this] ex have "kept s None s'" by simp
  moreover have "emu_inv m k s'"
    using preservesD [OF preserves_bind [OF pres_execute pres_tick], of True m k ?s1 h i] ex inv
    by (simp add: inv_frames inv_parts)
  ultimately show "fast_ok m k s'"
    using v kept_quiet [of s None s'] by (simp add: fast_ok_def kept_def frame_def)
  show "pc (e_regs s') = pc (e_regs s) + 4" if "\<not> is_control (instr_opcode i)"
  proof -
    have "kept s (Some (pc (e_regs s) + 4)) ?s1" using q by (simp add: kept_def)
    from preservesD [OF pres this] ex that show ?thesis by (simp add: kept_def)
  qed
qed

section \<open>A block\<close>

text \<open>
  A run that never leaves the text region and never changes it, followed for \<open>n\<close> turns.
\<close>

fun stable :: "host_env \<Rightarrow> nat \<Rightarrow> nat \<Rightarrow> emu \<Rightarrow> bool" where
  "stable h t n s \<longleftrightarrow> stopped s \<or> (in_text t (pc (e_regs s)) \<and>
     (case n of 0 \<Rightarrow> True
      | Suc j \<Rightarrow> (case step h s of
          (Ok _, s') \<Rightarrow> text_of t s' = text_of t s \<and> stable h t j s'
        | _ \<Rightarrow> True)))"

declare stable.simps [simp del]

lemma replay_Cons:
  "replay h (i # is) s = (if stopped s then (Ok (), s) else
     bind (exec_one h i) (\<lambda>_. if is_control (instr_opcode i) then ret () else replay h is) s)"
  by (simp add: exec_one_def bind_assoc)

text \<open>Replaying a block follows the run: what is left of the run is the run of what is left.\<close>

lemma replay_run:
  assumes "fast_ok m k s" and reg: "text_region t m" and "stable h t n s"
    and "run_of (sram_read32 (e_scratchpad s)) (pc (e_regs s)) is"
    and "run_loop h n s = Some (r, s')"
  shows "case replay h is (set_bc c s) of
     (Ok _, x) \<Rightarrow> \<exists>s1 n1. x = set_bc c s1 \<and> fast_ok m k s1 \<and> text_of t s1 = text_of t s
        \<and> stable h t n1 s1 \<and> run_loop h n1 s1 = Some (r, s') \<and> n1 \<le> n
        \<and> (is \<noteq> [] \<and> \<not> stopped s \<longrightarrow> n1 < n)
   | (e, x) \<Rightarrow> e = r \<and> x = set_bc c s'"
  using assms(1,3-5)
proof (induction "is" arbitrary: n s)
  case Nil
  then show ?case by auto
next
  case (Cons i "is")
  have st: "stopped (set_bc c s) = stopped s" by (simp add: stopped_def)
  show ?case
  proof (cases "stopped s")
    case True
    with Cons.prems show ?thesis by (auto simp: replay_Cons st simp del: replay.simps)
  next
    case False
    then obtain j where n: "n = Suc j"
      using Cons.prems(4) by (cases n) (simp_all add: run_loop.simps [of h 0])
    have pct: "in_text t (pc (e_regs s))"
      using Cons.prems(2) False by (simp add: stable.simps [of h t n])
    have rd0: "sram_read32 (e_scratchpad s) (pc (e_regs s)) = Ok (raw i)"
      using Cons.prems(3) by (auto simp: run_of_def dest: spec [of _ "0 :: nat"])
    note step = step_exec_one [OF Cons.prems(1) reg pct False rd0, of h]
    obtain r1 s1 where ex: "exec_one h i s = (r1, s1)" by force
    note exc = blindD [OF blind_exec_one ex, of c]
    show ?thesis
    proof (cases r1)
      case (Ok u)
      have run1: "run_loop h j s1 = Some (r, s')"
        using Cons.prems(4) False step ex Ok n by (simp add: run_loop.simps [of h "Suc j"])
      have stab1: "stable h t j s1" and text1: "text_of t s1 = text_of t s"
        using Cons.prems(2) False step ex Ok n by (simp_all add: stable.simps [of h t "Suc j"])
      from ex Ok have ex': "exec_one h i s = (Ok (), s1)" by simp
      note ok1 = exec_one_keeps [OF Cons.prems(1) ex']
      show ?thesis
      proof (cases "is_control (instr_opcode i)")
        case True
        with exc Ok False ok1(1) run1 stab1 text1 n show ?thesis
          by (auto simp: replay_Cons st bind_eq simp del: replay.simps intro!: exI [of _ s1] exI [of _ j])
      next
        case ctl: False
        have same: "sram_read32 (e_scratchpad s1) b = sram_read32 (e_scratchpad s) b" if "in_text t b" for b
          using text_same [OF _ _ reg text1 that, of k] ok1(1) Cons.prems(1) by (simp add: fast_ok_def)
        have "run_of (sram_read32 (e_scratchpad s1)) (pc (e_regs s)) (i # is)"
          by (rule run_of_cong [OF reg pct same Cons.prems(3)])
        from run_of_tl [OF this] ok1(2) [OF ctl]
        have "run_of (sram_read32 (e_scratchpad s1)) (pc (e_regs s1)) is" by simp
        note IH = Cons.IH [OF ok1(1) stab1 this run1]
        have "replay h (i # is) (set_bc c s) = replay h is (set_bc c s1)"
          using exc Ok False ctl by (simp add: replay_Cons st bind_eq del: replay.simps)
        moreover obtain r2 x2 where rx: "replay h is (set_bc c s1) = (r2, x2)" by force
        ultimately have rep: "replay h (i # is) (set_bc c s) = (r2, x2)" by simp
        show ?thesis
        proof (cases r2)
          case (Ok u2)
          with IH rx obtain s2 n2 where "x2 = set_bc c s2" "fast_ok m k s2" "text_of t s2 = text_of t s1"
            "stable h t n2 s2" "run_loop h n2 s2 = Some (r, s')" "n2 \<le> j" by auto
          with rep Ok text1 n show ?thesis
            by (simp del: replay.simps, intro exI [of _ s2] conjI exI [of _ n2]) simp_all
        qed (use IH rx rep in \<open>auto simp del: replay.simps\<close>)
      qed
    next
      case (Err e)
      with exc ex step False Cons.prems(4) n show ?thesis
        by (auto simp: replay_Cons st bind_def run_loop.simps [of h "Suc j"] simp del: replay.simps)
    next
      case Undef
      with exc ex step False Cons.prems(4) n show ?thesis
        by (auto simp: replay_Cons st bind_def run_loop.simps [of h "Suc j"] simp del: replay.simps)
    qed
  qed
qed

section \<open>The loop\<close>

text \<open>The cached blocks of the text region agree with the memory; others may be stale.\<close>

definition text_block :: "nat \<Rightarrow> emu \<Rightarrow> u32 \<Rightarrow> decoded_block \<Rightarrow> bool" where
  "text_block t s a blk \<longleftrightarrow> (in_text t a \<longrightarrow> block_ok (sram_read32 (e_scratchpad s)) 32 a blk)"

definition cache_ok :: "nat \<Rightarrow> emu \<Rightarrow> block_cache \<Rightarrow> bool" where
  "cache_ok t s c \<longleftrightarrow> coherent (text_block t s) (cached c)"

lemma cache_ok_text:
  assumes "cache_ok t s c" and "emu_inv m k s" and "emu_inv m k s1" and reg: "text_region t m"
    and "text_of t s1 = text_of t s"
  shows "cache_ok t s1 c"
proof -
  have same: "sram_read32 (e_scratchpad s1) b = sram_read32 (e_scratchpad s) b" if "in_text t b" for b
    by (rule text_same [OF assms(2,3) reg assms(5) that])
  have "text_block t s1 a blk" if "text_block t s a blk" for a blk
    using that run_of_cong [OF reg _ same] by (auto simp: text_block_def block_ok_def)
  with assms(1) show ?thesis
    unfolding cache_ok_def by (rule block_memo.coherent_weaken)
qed

lemma emu_block_ok:
  assumes inv: "emu_inv m k s" and reg: "text_region t m" and pc: "in_text t (pc (e_regs s))"
    and c: "cache_ok t s c"
  shows "\<exists>blk c1. emu_block (set_bc c s) = (Ok blk, set_bc c1 s) \<and> cache_ok t s c1
     \<and> ops blk \<noteq> [] \<and> run_of (sram_read32 (e_scratchpad s)) (pc (e_regs s)) (ops blk)"
proof -
  let ?rd = "sram_read32 (e_scratchpad s)" and ?a = "pc (e_regs s)"
  have eb: "emu_block (set_bc c s) = (case block_translate ?rd ?a 32 c of (r, c1) \<Rightarrow> (r, set_bc c1 s))"
    by (simp add: emu_block_def set_bc_def)
  show ?thesis
  proof (cases "bc_find c ?a")
    case (Some blk)
    from block_memo.lookup_coherent [OF c [unfolded cache_ok_def] this] pc
    have "block_ok ?rd 32 ?a blk" by (simp add: text_block_def)
    with Some c eb show ?thesis
      by (auto simp: block_translate_def bc_find_def block_ok_def cache_ok_def cached_def)
  next
    case None
    let ?b0 = "\<lparr>start_pc = ?a, end_pc = 0, ops = [], ends_with_branch = False, ends_with_halt = False\<rparr>"
    obtain blk where blk: "decode_block ?rd ?a 32 = Ok blk"
      using decode_defined [OF reg _ pc, of ?rd 32 ?b0] text_read [OF inv reg]
      by (auto simp: decode_block_def)
    then have ok: "block_ok ?rd 32 ?a blk" by (intro decode_block_ok) simp
    let ?c1 = "block_put ?a blk (c\<lparr>bc_misses := bc_misses c + 1\<rparr>)"
    have "coherent (text_block t s) (cached (c\<lparr>bc_misses := bc_misses c + 1\<rparr>))"
      using c by (simp add: cache_ok_def cached_def bc_find_def)
    then have "cache_ok t s ?c1"
      unfolding cache_ok_def by (rule block_memo.fill_coherent) (simp add: text_block_def ok)
    with None blk ok eb show ?thesis
      by (auto simp: block_translate_def bc_find_def block_ok_def bind_def)
  qed
qed

lemma fast_loop_mono: "fast_loop h n s = Some x \<Longrightarrow> n \<le> n' \<Longrightarrow> fast_loop h n' s = Some x"
proof (induction n arbitrary: n' s)
  case 0
  then show ?case
    by (cases "stopped s") (simp_all add: fast_loop.simps [of h n'] fast_loop.simps [of h 0])
next
  case (Suc n)
  then obtain j where n': "n' = Suc j" "n \<le> j" by (cases n') auto
  show ?case
  proof (cases "stopped s")
    case True
    with Suc.prems show ?thesis by (simp add: fast_loop.simps [of h n'] fast_loop.simps [of h "Suc n"])
  next
    case False
    obtain r s1 where "fast_turn h s = (r, s1)" by force
    with False Suc.prems n' Suc.IH [of s1 j] show ?thesis
      by (cases r) (auto simp: fast_loop.simps [of h "Suc j"] fast_loop.simps [of h "Suc n"])
  qed
qed

lemma fast_loop_run:
  assumes "fast_ok m k s" and reg: "text_region t m" and "stable h t n s" and "cache_ok t s c"
    and "run_loop h n s = Some (r, s')"
  shows "\<exists>c'. fast_loop h n (set_bc c s) = Some (r, set_bc c' s')"
  using assms(1,3-5)
proof (induction n arbitrary: s c rule: less_induct)
  case (less n)
  have st: "stopped (set_bc c s) = stopped s" by (simp add: stopped_def)
  show ?case
  proof (cases "stopped s")
    case True
    with less.prems(4) have "r = Ok ()" "s' = s" by (auto simp: run_loop.simps [of h n s])
    with True st show ?thesis by (auto simp: fast_loop.simps [of h n "set_bc c s"])
  next
    case False
    then obtain j where n: "n = Suc j"
      using less.prems(4) by (cases n) (simp_all add: run_loop.simps [of h 0])
    have inv: "emu_inv m k s" using less.prems(1) by (simp add: fast_ok_def)
    have pct: "in_text t (pc (e_regs s))"
      using less.prems(2) False by (simp add: stable.simps [of h t n])
    from emu_block_ok [OF inv reg pct less.prems(3)] obtain blk c1 where
      b: "emu_block (set_bc c s) = (Ok blk, set_bc c1 s)" "cache_ok t s c1" "ops blk \<noteq> []"
      "run_of (sram_read32 (e_scratchpad s)) (pc (e_regs s)) (ops blk)" by blast
    have turn: "fast_turn h (set_bc c s) = replay h (ops blk) (set_bc c1 s)"
      using b(1) less.prems(1) by (simp add: fast_turn_def bind_eq fast_ok_def)
    note rep = replay_run [OF less.prems(1) reg less.prems(2) b(4) less.prems(4), of c1]
    obtain r1 x where rx: "replay h (ops blk) (set_bc c1 s) = (r1, x)" by force
    show ?thesis
    proof (cases r1)
      case (Ok u)
      with rep rx b(3) False obtain s1 n1 where s1: "x = set_bc c1 s1" "fast_ok m k s1"
        "text_of t s1 = text_of t s" "stable h t n1 s1" "run_loop h n1 s1 = Some (r, s')" "n1 < n"
        by auto
      have "cache_ok t s1 c1"
        using cache_ok_text [OF b(2) inv _ reg s1(3)] s1(2) by (simp add: fast_ok_def)
      from less.IH [OF s1(6,2,4) this s1(5)] obtain c' where
        "fast_loop h n1 (set_bc c1 s1) = Some (r, set_bc c' s')" by blast
      then have "fast_loop h j (set_bc c1 s1) = Some (r, set_bc c' s')"
        by (rule fast_loop_mono) (use s1(6) n in simp)
      with False st turn rx Ok s1(1) n have "fast_loop h n (set_bc c s) = Some (r, set_bc c' s')"
        by (simp add: fast_loop.simps [of h "Suc j" "set_bc c s"])
      then show ?thesis by blast
    next
      case (Err e)
      with rep rx have "r = Err e" "x = set_bc c1 s'" by simp_all
      with Err rx False st turn n have "fast_loop h n (set_bc c s) = Some (r, set_bc c1 s')"
        by (simp add: fast_loop.simps [of h "Suc j" "set_bc c s"])
      then show ?thesis by blast
    next
      case Undef
      with rep rx have "r = Undef" "x = set_bc c1 s'" by simp_all
      with Undef rx False st turn n have "fast_loop h n (set_bc c s) = Some (r, set_bc c1 s')"
        by (simp add: fast_loop.simps [of h "Suc j" "set_bc c s"])
      then show ?thesis by blast
    qed
  qed
qed

lemma run_fast_same:
  assumes "fast_ok m k s" and "text_region t m" and "stable h t n s" and "cache_ok t s (e_block_cache s)"
    and "run h n s = Some (r, s')"
  shows "\<exists>c. run_fast h n s = Some (r, s'\<lparr>e_block_cache := c\<rparr>)"
proof -
  from assms(5) obtain r1 s1 where l: "run_loop h n s = Some (r1, s1)" and fl: "flush_uart (r1, s1) = (r, s')"
    by (auto simp: run_def)
  have "set_bc (e_block_cache s) s = s" by (simp add: set_bc_def)
  with fast_loop_run [OF assms(1-4) l] obtain c where
    "fast_loop h n s = Some (r1, set_bc c s1)" by auto
  moreover have "flush_uart (r1, set_bc c s1) = (r, set_bc c s')"
    using fl by (cases r1) (auto simp: flush_uart_def bc.upd)
  ultimately show ?thesis by (auto simp: run_fast_def set_bc_def)
qed

text \<open>
  C3. The fast path has the semantics of the interpreter: on a well-formed quiet machine that
  is not verbose, whose program stays in a text region of whole cache lines below the device
  window without changing it, and whose cached blocks of that region agree with the memory
  (an empty cache does), \<open>run_fast\<close> ends whenever \<open>run\<close> does, within the same number of
  turns, with the same outcome, exceptions included, and the same state in every part but the
  block cache.
\<close>

theorem run_fast_equals_run:
  assumes "fast_ok m k s" and "text_region t m" and "stable h t n s" and "cache_ok t s (e_block_cache s)"
    and "run h n s = Some (r, s')"
  shows "\<exists>c. run_fast h n s = Some (r, s'\<lparr>e_block_cache := c\<rparr>)"
  using assms by (rule run_fast_same)

section \<open>Witness\<close>

text \<open>One cache line of text: a short program, padded with \<open>NOP\<close>.\<close>

definition line_emu :: emu where
  "line_emu = (emu_new 64 0)\<lparr>e_scratchpad :=
     \<lparr>sram_data = bytes_of_words [enc_movi 1 5, enc_halt] @ replicate 56 0\<rparr>\<rparr>"

lemma line_stable: "stable demo_host 64 2 line_emu"
  by code_simp

lemma line_run: "map_option (\<lambda>(r, s). (r, gpr (e_regs s) ! 1)) (run demo_host 2 line_emu) = Some (Ok (), 5)"
  by code_simp

lemma line_ok: "fast_ok 64 0 line_emu" "text_region 64 64" "cache_ok 64 line_emu (e_block_cache line_emu)"
proof -
  have "emu_inv 64 0 line_emu"
    using emu_inv_new [of 64 0] by (simp add: line_emu_def inv_defs vec64_def)
  moreover have "quiet line_emu" "\<not> e_verbose line_emu"
    using demo_quiet by (simp_all add: quiet_def line_emu_def demo_emu_def emu_new_def)
  ultimately show "fast_ok 64 0 line_emu" by (simp add: fast_ok_def)
  show "text_region 64 64" by (simp add: text_region_def MMIO_BASE_def)
  show "cache_ok 64 line_emu (e_block_cache line_emu)"
    by (simp add: cache_ok_def coherent_def cached_def bc_find_def line_emu_def emu_new_def
        block_cache_init_def)
qed

theorem run_fast_equals_run_witness:
  "\<exists>s' c. run demo_host 2 line_emu = Some (Ok (), s') \<and> gpr (e_regs s') ! 1 = 5
     \<and> run_fast demo_host 2 line_emu = Some (Ok (), s'\<lparr>e_block_cache := c\<rparr>)"
proof -
  obtain s' where s': "run demo_host 2 line_emu = Some (Ok (), s')" "gpr (e_regs s') ! 1 = 5"
    using line_run by auto
  with run_fast_equals_run [OF line_ok(1,2) line_stable line_ok(3) s'(1)] show ?thesis by blast
qed

end
