(* ===== verification/Emu_Props.thy ===== *)
theory Emu_Props
  imports Fast
begin

text \<open>
  Properties of the whole emulator: the states a caller can reach, cycle accounting, the
  peripheral tick, the device window, traps and interrupts, reset, loading and serialisation,
  and the behaviours of the sources that their comments do not announce.
\<close>

section \<open>Reachable states\<close>

text \<open>
  What a client of \<open>class Emulator\<close> can do. \<open>public_op\<close> has the operations of the class
  and the methods of the parts it hands out by reference, with the arguments the parts are made
  for. \<open>raw_op\<close> has the calls that change what the emulator relies on: a \<open>State\<close> put together
  by hand whose opcode histogram does not fit its instruction count, another configuration of the AXI fabric,
  further devices on the bus, a UART restored with any buffer. An operation may throw; what
  follows undefined behaviour is not a state.

  A reference to a memory, the timer, the block cache, the translator, the debugger, the CSRs, the
  interrupt controller or a fabric other than AXI is taken to be able to bring about any value
  of that part (for the memories, any contents of the same size, which \<open>ptr\<close> allows). Not
  expressible are devices with closures other than those of the sources, an MMU that is pointed
  to another memory or register file (\<open>attach_ram\<close>, \<open>set_csr\<close>), and the assignment of a whole
  new object through a reference.
\<close>

definition state_shape :: "emu_state \<Rightarrow> bool" where
  "state_shape st \<longleftrightarrow> length (st_gpr st) = NUM_GPR \<and> wf_vrs (st_vr st)
     \<and> length (ps_opcode_hist (st_profiler st)) = NUM_OPCODES"

inductive public_op :: "host_env \<Rightarrow> emu \<Rightarrow> emu \<Rightarrow> bool" for h where
  step: "step h s = (r, s') \<Longrightarrow> r \<noteq> Undef \<Longrightarrow> public_op h s s'"
| run: "run h n s = Some (r, s') \<Longrightarrow> r \<noteq> Undef \<Longrightarrow> public_op h s s'"
| run_fast: "run_fast h n s = Some (r, s') \<Longrightarrow> r \<noteq> Undef \<Longrightarrow> public_op h s s'"
| reset: "public_op h s (emu_reset s)"
| program: "load_program ws n s = (r, s') \<Longrightarrow> r \<noteq> Undef \<Longrightarrow> public_op h s s'"
| program_bytes: "load_program_bytes bs n s = (r, s') \<Longrightarrow> r \<noteq> Undef \<Longrightarrow> public_op h s s'"
| data: "load_data a bs n s = (r, s') \<Longrightarrow> r \<noteq> Undef \<Longrightarrow> public_op h s s'"
| dram: "load_main_ram a bs n s = (r, s') \<Longrightarrow> r \<noteq> Undef \<Longrightarrow> public_op h s s'"
| tensor: "load_tensor a fs n s = (r, s') \<Longrightarrow> r \<noteq> Undef \<Longrightarrow> public_op h s s'"
| verbose: "public_op h s (set_verbose v s)"
| accel: "public_op h s (set_acceleration v s)"
| target: "wf_target p \<Longrightarrow> public_op h s (set_target p s)"
| target_kind: "public_op h s (set_target_kind tk s)"
| write_gpr: "wr_gpr i v s = (r, s') \<Longrightarrow> r \<noteq> Undef \<Longrightarrow> public_op h s s'"
| restore: "state_shape st \<Longrightarrow> sum_list (ps_opcode_hist (st_profiler st)) = ps_instr_count (st_profiler st) \<Longrightarrow>
    public_op h s (restore_state st s)"
| debugger: "public_op h s (s\<lparr>e_debugger := d\<rparr>)"
| csr: "public_op h s (s\<lparr>e_csr := c\<rparr>)"
| irq: "public_op h s (s\<lparr>e_intc := ic\<rparr>)"
| mmu_on: "public_op h s (s\<lparr>e_mmu := set_enabled b (e_mmu s)\<rparr>)"
| mmu_flush: "public_op h s (s\<lparr>e_mmu := tlb_flush (e_mmu s)\<rparr>)"
| mmu_flush_va: "public_op h s (s\<lparr>e_mmu := tlb_flush_va va (e_mmu s)\<rparr>)"
| mmu_map: "public_op h s (s\<lparr>e_mmu := identity_map va pa n perms (e_mmu s)\<rparr>)"
| mmu_translate: "mmu_translate (Some (e_scratchpad s)) (Some (e_csr s)) va w x cause (e_mmu s) = Ok (pa, c', u) \<Longrightarrow>
    public_op h s (s\<lparr>e_mmu := u\<rparr>)"
| bus_read: "emu_bus_read32 a s = (r, s') \<Longrightarrow> r \<noteq> Undef \<Longrightarrow> public_op h s s'"
| bus_write: "emu_bus_write32 a v s = (r, s') \<Longrightarrow> r \<noteq> Undef \<Longrightarrow> public_op h s s'"
| memory: "length (sram_data r) = length (sram_data (e_scratchpad s)) \<Longrightarrow> public_op h s (s\<lparr>e_scratchpad := r\<rparr>)"
| main_ram: "length (ram_data r) = length (ram_data (e_main_ram s)) \<Longrightarrow> public_op h s (s\<lparr>e_main_ram := r\<rparr>)"
| timer: "public_op h s (s\<lparr>e_timer := t\<rparr>)"
| uart_write: "public_op h s (s\<lparr>e_uart := uart_write_reg off v (e_uart s)\<rparr>)"
| uart_flush: "public_op h s (s\<lparr>e_uart := uart_flush (e_uart s)\<rparr>)"
| blocks: "public_op h s (s\<lparr>e_block_cache := bc\<rparr>)"
| translator: "public_op h s (s\<lparr>e_translator := isa\<rparr>)"
| axi_issue: "fabric_issue t c (e_axi s) = Ok (ok, ic) \<Longrightarrow> public_op h s (s\<lparr>e_axi := ic\<rparr>)"
| axi_tick: "public_op h s (s\<lparr>e_axi := fabric_tick c (e_axi s)\<rparr>)"
| axi_reset: "public_op h s (s\<lparr>e_axi := fabric_reset (e_axi s)\<rparr>)"
| fabric: "public_op h s (s\<lparr>e_interconnect := ic\<rparr>)"
| pcie: "public_op h s (s\<lparr>e_pcie := ic\<rparr>)"
| cxi: "public_op h s (s\<lparr>e_cxi := ic\<rparr>)"

inductive raw_op :: "emu \<Rightarrow> emu \<Rightarrow> bool" where
  restore_any: "state_shape st \<Longrightarrow> raw_op s (restore_state st s)"
| axi_configure: "raw_op s (s\<lparr>e_axi := fabric_configure c (e_axi s)\<rparr>)"
| add_device: "raw_op s (s\<lparr>e_bus := bus_add_device base sz rd wr (e_bus s)\<rparr>)"
| uart_restore: "raw_op s (s\<lparr>e_uart := u\<rparr>)"

text \<open>The states of an emulator made with the sizes \<open>m\<close> and \<open>k\<close>; with \<open>strict\<close>, by public operations only.\<close>

inductive reach :: "bool \<Rightarrow> host_env \<Rightarrow> size_t \<Rightarrow> size_t \<Rightarrow> emu \<Rightarrow> bool" for strict h m k where
  new: "reach strict h m k (emu_new m k)"
| op: "reach strict h m k s \<Longrightarrow> public_op h s s' \<Longrightarrow> reach strict h m k s'"
| raw: "reach strict h m k s \<Longrightarrow> \<not> strict \<Longrightarrow> raw_op s s' \<Longrightarrow> reach strict h m k s'"

abbreviation reachable :: "host_env \<Rightarrow> size_t \<Rightarrow> size_t \<Rightarrow> emu \<Rightarrow> bool" where
  "reachable \<equiv> reach True"

lemmas reach_step = reach.op [OF _ public_op.step]
lemmas reach_run = reach.op [OF _ public_op.run]
lemmas reach_run_fast = reach.op [OF _ public_op.run_fast]
lemmas reach_reset = reach.op [OF _ public_op.reset]
lemmas reach_program = reach.op [OF _ public_op.program]
lemmas reach_data = reach.op [OF _ public_op.data]
lemmas reach_dram = reach.op [OF _ public_op.dram]
lemmas reach_tensor = reach.op [OF _ public_op.tensor]
lemmas reach_bus = reach.op [OF _ public_op.bus_read] reach.op [OF _ public_op.bus_write]
lemmas reach_config = reach.op [OF _ public_op.verbose] reach.op [OF _ public_op.accel]
  reach.op [OF _ public_op.target_kind] reach.op [OF _ public_op.debugger]

lemma kept_reset: "emu_kept strict m k s \<Longrightarrow> emu_kept strict m k (emu_reset s)"
proof -
  have "length (opcode_hist (profiler_reset p)) = length (opcode_hist p)" for p
    by (simp add: profiler_reset_def)
  then show "emu_kept strict m k s \<Longrightarrow> emu_kept strict m k (emu_reset s)"
    by (auto simp: kept_defs emu_reset_def vec64_def fabric_reset_def set_enabled_def tlb_flush_def profiler_reset_eq)
qed

lemma inv_reset: "emu_inv m k s \<Longrightarrow> emu_inv m k (emu_reset s)"
  by (rule kept_reset)

lemma kept_restore:
  assumes "emu_kept strict m k s" and "state_shape st"
    and "strict \<Longrightarrow> sum_list (ps_opcode_hist (st_profiler st)) = ps_instr_count (st_profiler st)"
  shows "emu_kept strict m k (restore_state st s)"
proof -
  have "wf_regs ((e_regs s)\<lparr>status := f, gpr := (st_gpr st)[0 := 0], vr := st_vr st, pc := a\<rparr>)" for f a
    using assms(2) by (simp add: state_shape_def wf_regs_def wf_vrs_def)
  with assms show ?thesis
    by (simp add: kept_defs restore_state_def profiler_restore_def state_shape_def wf_profiler_def)
qed

lemma save_state_shape:
  assumes "emu_inv m k s"
  shows "state_shape (save_state s)"
    and "sum_list (ps_opcode_hist (st_profiler (save_state s))) = ps_instr_count (st_profiler (save_state s))"
  using inv_parts [OF assms]
  by (simp_all add: state_shape_def save_state_def profiler_save_def wf_regs_def wf_vrs_def wf_profiler_def)

lemma pres_loads [inv_pres]:
  "preserves (emu_kept strict m k) (load_program ws n)" "preserves (emu_kept strict m k) (load_data a bs n)"
  "preserves (emu_kept strict m k) (load_main_ram a bs n)" "preserves (emu_kept strict m k) (load_tensor a fs n)"
  "preserves (emu_kept strict m k) (load_program_bytes bs n)"
proof -
  have sram: "sram_load r a bs n = Ok r' \<Longrightarrow> length (sram_data r') = length (sram_data r)" for r r' a bs n
    by (auto simp: sram_load_def sram_check_bounds_def mem_read_def mem_write_def split: if_splits)
  have ram: "ram_write r a bs n = Ok r' \<Longrightarrow> length (ram_data r') = length (ram_data r)" for r r' a bs n
    by (auto simp: ram_write_def ram_check_bounds_def mem_read_def mem_write_def split: if_splits)
  show "preserves (emu_kept strict m k) (load_program_bytes bs n)" "preserves (emu_kept strict m k) (load_program ws n)"
    unfolding load_program_def load_program_bytes_def
    by (intro pres preserves_update_res preserves_modify; auto intro: inv_set_sram sram inv_frames)+
  show "preserves (emu_kept strict m k) (load_data a bs n)" "preserves (emu_kept strict m k) (load_tensor a fs n)"
    unfolding load_data_def load_tensor_def
    by (intro preserves_update_res; auto intro: inv_set_sram sram)+
  show "preserves (emu_kept strict m k) (load_main_ram a bs n)"
    unfolding load_main_ram_def by (intro preserves_update_res) (auto intro: inv_set_ram ram)
qed

lemma preserves_outcome: "preserves P f \<Longrightarrow> P s \<Longrightarrow> f s = (r, s') \<Longrightarrow> r \<noteq> Undef \<Longrightarrow> P s'"
  by (auto dest: preservesD)

lemma flush_undef: "flush_uart (r, s) = (r', s') \<Longrightarrow> r' \<noteq> Undef \<Longrightarrow> r \<noteq> Undef"
  by (auto simp: flush_uart_def)

lemma run_inv: "emu_kept strict m k s \<Longrightarrow> run h n s = Some (r, s') \<Longrightarrow> r \<noteq> Undef \<Longrightarrow> emu_kept strict m k s'"
  by (auto simp: run_def dest: flush_undef intro: inv_flush_uart run_loop_inv)

lemma run_fast_inv: "emu_kept strict m k s \<Longrightarrow> run_fast h n s = Some (r, s') \<Longrightarrow> r \<noteq> Undef \<Longrightarrow> emu_kept strict m k s'"
  by (auto simp: run_fast_def dest: flush_undef intro: inv_flush_uart fast_loop_inv)

lemma inv_config:
  "emu_kept strict m k s \<Longrightarrow> emu_kept strict m k (set_verbose v s)"
  "emu_kept strict m k s \<Longrightarrow> emu_kept strict m k (set_acceleration v s)"
  "emu_kept strict m k s \<Longrightarrow> wf_target p \<Longrightarrow> emu_kept strict m k (set_target p s)"
  "emu_kept strict m k s \<Longrightarrow> emu_kept strict m k (set_target_kind tk s)"
  "emu_kept strict m k s \<Longrightarrow> emu_kept strict m k (s\<lparr>e_debugger := d\<rparr>)"
  "emu_kept strict m k s \<Longrightarrow> emu_kept strict m k (s\<lparr>e_mmu := set_enabled b (e_mmu s)\<rparr>)"
  "emu_kept strict m k s \<Longrightarrow> emu_kept strict m k (s\<lparr>e_mmu := tlb_flush (e_mmu s)\<rparr>)"
  "emu_kept strict m k s \<Longrightarrow> emu_kept strict m k (s\<lparr>e_mmu := tlb_flush_va va (e_mmu s)\<rparr>)"
  "emu_kept strict m k s \<Longrightarrow> emu_kept strict m k (s\<lparr>e_mmu := identity_map va pa n perms (e_mmu s)\<rparr>)"
  "emu_kept strict m k s \<Longrightarrow> emu_kept strict m k (s\<lparr>e_translator := isa\<rparr>)"
  "emu_kept strict m k s \<Longrightarrow> emu_kept strict m k (s\<lparr>e_interconnect := ic\<rparr>)"
  "emu_kept strict m k s \<Longrightarrow> emu_kept strict m k (s\<lparr>e_pcie := ic\<rparr>)"
  "emu_kept strict m k s \<Longrightarrow> emu_kept strict m k (s\<lparr>e_cxi := ic\<rparr>)"
  by (simp_all add: kept_defs set_verbose_def set_acceleration_def set_target_def set_target_kind_def
      set_enabled_def tlb_flush_def tlb_flush_va_def identity_map_def split: target_kind.split)

lemma kept_axi:
  "emu_kept strict m k s \<Longrightarrow> fabric_issue t c (e_axi s) = Ok (ok, ic) \<Longrightarrow> emu_kept strict m k (s\<lparr>e_axi := ic\<rparr>)"
  "emu_kept strict m k s \<Longrightarrow> emu_kept strict m k (s\<lparr>e_axi := fabric_tick c (e_axi s)\<rparr>)"
  "emu_kept strict m k s \<Longrightarrow> emu_kept strict m k (s\<lparr>e_axi := fabric_reset (e_axi s)\<rparr>)"
  by (auto simp: kept_defs fabric_tick_axi fabric_reset_def dest: fabric_issue_axi)

lemma kept_translate:
  "emu_kept strict m k s \<Longrightarrow> mmu_translate ram csr va w x cause (e_mmu s) = Ok (pa, c', u) \<Longrightarrow>
   emu_kept strict m k (s\<lparr>e_mmu := u\<rparr>)"
  by (auto simp: kept_defs dest: translate_tlb_length)

lemmas inv_outcomes = preserves_outcome [OF pres_step] preserves_outcome [OF pres_loads(1)]
  preserves_outcome [OF pres_loads(2)] preserves_outcome [OF pres_loads(3)]
  preserves_outcome [OF pres_loads(4)] preserves_outcome [OF pres_loads(5)] preserves_outcome [OF pres_wr_gpr]
  preserves_outcome [OF pres_bus_read] preserves_outcome [OF pres_bus_write]

lemma public_op_kept: "public_op h s s' \<Longrightarrow> emu_kept strict m k s \<Longrightarrow> emu_kept strict m k s'"
  by (induction rule: public_op.induct)
    (blast intro: inv_outcomes run_inv run_fast_inv kept_reset kept_restore inv_frames inv_config kept_axi
      kept_translate inv_set_sram inv_set_ram kept_uart uart_write_ok uart_flush_ok)+

lemma raw_op_kept: "raw_op s s' \<Longrightarrow> emu_kept False m k s \<Longrightarrow> emu_kept False m k s'"
  by (induction rule: raw_op.induct) (auto intro!: kept_restore kept_uart, simp_all add: kept_defs)

lemma reach_kept: "reach strict h m k s \<Longrightarrow> emu_kept strict (unat m) (unat k) s"
proof (induction rule: reach.induct)
  case new
  from emu_inv_new [of m k] show ?case by (simp add: emu_kept_def)
qed (auto intro: public_op_kept raw_op_kept)

lemma reachable_inv: "reachable h m k s \<Longrightarrow> emu_inv (unat m) (unat k) s"
  by (rule reach_kept)

text \<open>
  C4. Whatever a client does with an emulator, through its own operations or through the
  methods of the parts it hands out, whatever the guest program does and also after exceptions,
  the emulator keeps its shape: \<open>r0\<close> holds zero, the register files, the TLB and the opcode
  histogram have their lengths, and the memories have the sizes they were created with. As long
  as the client restores only states whose opcode histogram adds up to their instruction count,
  as saved ones do, leaves the configuration of the AXI fabric and the devices of the bus as
  they are and does not restore the UART (\<open>strict\<close>), the bookkeeping is right as well: the
  histogram adds up to the instruction count, at most eight AXI transactions are in flight,
  fewer than 256 bytes wait in the UART, and the bus has its two devices.
\<close>

theorem reachable_wf:
  assumes "reach strict h m k s"
  shows "gpr (e_regs s) ! 0 = 0 \<and> length (gpr (e_regs s)) = 16 \<and> wf_vrs (vr (e_regs s))
     \<and> length (sram_data (e_scratchpad s)) = unat m \<and> length (ram_data (e_main_ram s)) = unat k
     \<and> length (opcode_hist (e_profiler s)) = 64 \<and> length (tlb (e_mmu s)) = 32
     \<and> (strict \<longrightarrow> emu_wf s \<and> sum_list (opcode_hist (e_profiler s)) = instr_count (e_profiler s)
          \<and> length (in_flight (e_axi s)) \<le> 8 \<and> length (tx_buffer (e_uart s)) < 256
          \<and> e_bus s = mmio_devices)"
  using reach_kept [OF assms]
  by (auto simp: kept_defs wf_regs_def wf_vrs_def wf_profiler_def uart_ok_def TLB_SIZE_def)

text \<open>
  Two clients: one resets the machine; the other restores a state that counts an instruction
  the histogram does not have, and configures the fabric anew.
\<close>

definition odd_state :: emu_state where
  "odd_state = (save_state (emu_new 64 0))\<lparr>st_profiler := (profiler_save profiler_init)\<lparr>ps_instr_count := 1\<rparr>\<rparr>"

definition odd_emu :: emu where
  "odd_emu = (let s = restore_state odd_state (emu_new 64 0) in s\<lparr>e_axi := fabric_configure pcie_config (e_axi s)\<rparr>)"

theorem reachable_wf_witness:
  "emu_wf (emu_reset (emu_new 64 0)) \<and> length (sram_data (e_scratchpad (emu_reset (emu_new 64 0)))) = 64
   \<and> length (sram_data (e_scratchpad odd_emu)) = 64 \<and> gpr (e_regs odd_emu) ! 0 = 0
   \<and> sum_list (opcode_hist (e_profiler odd_emu)) \<noteq> instr_count (e_profiler odd_emu)"
proof -
  have r: "reachable demo_host 64 0 (emu_reset (emu_new 64 0))"
    by (intro reach_reset reach.new)
  have "state_shape odd_state"
    by (simp add: state_shape_def odd_state_def save_state_def emu_new_def regs_init_def wf_vrs_def
        profiler_save_def profiler_init_def list_all_iff)
  then have o: "reach False demo_host 64 0 odd_emu"
    unfolding odd_emu_def Let_def
    by (auto intro!: reach.raw [OF _ _ raw_op.axi_configure] reach.raw [OF _ _ raw_op.restore_any] reach.new)
  have "sum_list (opcode_hist (e_profiler odd_emu)) = 0" "instr_count (e_profiler odd_emu) = 1"
    by (simp_all add: odd_emu_def odd_state_def restore_state_def profiler_restore_def profiler_save_def
        profiler_init_def Let_def sum_list_replicate)
  with reachable_wf [OF r] reachable_wf [OF o] show ?thesis by simp
qed

section \<open>Cycle accounting\<close>

definition counted :: "profiler \<Rightarrow> u64 \<Rightarrow> emu \<Rightarrow> bool" where
  "counted p a s \<longleftrightarrow> e_profiler s = p \<and> e_tick_accum s = a"

named_theorems count \<open>operations that leave the counters alone\<close>

lemma count_prims [count]:
  "preserves (counted p a) (rd_gpr i)" "preserves (counted p a) (wr_gpr i v)"
  "preserves (counted p a) (upd_flags ov w)" "preserves (counted p a) (vr_ptr i)"
  "preserves (counted p a) (upd_vrs f)" "preserves (counted p a) (set_pc q)"
  "preserves (counted p a) (emu_take_trap t)"
  unfolding rd_gpr_def wr_gpr_def set_pc_def upd_flags_def vr_ptr_def upd_vrs_def emu_take_trap_def
  by (auto intro!: pres preserves_update_res preserves_modify simp: counted_def split: prod.splits)

lemma count_issue [count]: "preserves (counted p a) (axi_issue b n w)"
  by (rule preservesI) (auto simp: axi_issue_def Let_def counted_def split: res.splits)

lemma count_translate [count]: "preserves (counted p a) (emu_translate va w x)"
  by (rule preservesI) (auto simp: emu_translate_def counted_def split: res.splits)

lemma count_devices [count]:
  "preserves (counted p a) (dev_read_call t b)" "preserves (counted p a) (dev_write_call t b v)"
  by (cases t; auto simp: preserves_def counted_def update_res_def split: prod.splits res.splits)+

lemma count_bus [count]:
  "preserves (counted p a) (emu_bus_read32 b)" "preserves (counted p a) (emu_bus_write32 b v)"
  unfolding emu_bus_read32_def emu_bus_write32_def
  by (intro pres count preserves_bus_read32 preserves_bus_write32; auto simp: counted_def)+

lemma count_trap [count]: "preserves (counted p a) (enter_trap t)"
  unfolding enter_trap_def by (intro pres count)

lemma count_ops [count]:
  "preserves (counted p a) (op_nop i)" "preserves (counted p a) (op_halt i)"
  "preserves (counted p a) (op_jmp i)" "preserves (counted p a) (op_beq i)"
  "preserves (counted p a) (op_bne i)" "preserves (counted p a) (op_add i)"
  "preserves (counted p a) (op_sub i)" "preserves (counted p a) (op_mul i)"
  "preserves (counted p a) (op_load i)" "preserves (counted p a) (op_store i)"
  "preserves (counted p a) (op_mov i)" "preserves (counted p a) (op_movi i)"
  "preserves (counted p a) (op_load_vr i)" "preserves (counted p a) (op_store_vr i)"
  "preserves (counted p a) (op_vec_add h i)" "preserves (counted p a) (op_matmul_tile h i)"
  unfolding op_nop_def op_halt_def op_jmp_def op_beq_def op_bne_def op_add_def op_sub_def op_mul_def
    op_load_def op_store_def op_mov_def op_movi_def op_load_vr_def op_store_vr_def op_vec_add_def
    op_matmul_tile_def take_branch_def Let_def
  by (intro pres count preserves_update_res preserves_modify; simp add: counted_def)+

lemma count_dma_store [count]: "preserves (counted p a) (op_dma_store i)"
  unfolding op_dma_store_def dma_translate_def Let_def
  by (intro pres count)
    (auto intro!: pres count preserves_update_res simp: counted_def split: option.split)

lemma count_dispatch: "dispatch h op = Some f \<Longrightarrow> op \<noteq> DMA_LOAD \<Longrightarrow> preserves (counted p a) (f i)"
  by (cases op) (auto intro: count)

text \<open>
  Every executed instruction is accounted once: a handler that returns \<open>c\<close> cycles adds one
  instruction and \<open>c\<close> cycles to the profiler, one to the histogram entry of its opcode, and \<open>c\<close>
  cycles to the peripheral clock. The exception is a stalled DMA_LOAD, which is recorded twice.
\<close>

theorem execute_accounting:
  assumes "dispatch h (instr_opcode i) \<noteq> None" and "instr_opcode i \<noteq> DMA_LOAD"
    and "execute h i s = (Ok c, s')"
  shows "instr_count (e_profiler s') = instr_count (e_profiler s) + 1
     \<and> cycle_count (e_profiler s') = cycle_count (e_profiler s) + ucast c
     \<and> opcode_hist (e_profiler s') = (opcode_hist (e_profiler s))
          [unat (opcode_code (instr_opcode i)) := opcode_hist (e_profiler s) ! unat (opcode_code (instr_opcode i)) + 1]
     \<and> e_tick_accum s' = e_tick_accum s + ucast c"
proof -
  obtain f where f: "dispatch h (instr_opcode i) = Some f" using assms(1) by blast
  obtain r s1 where r: "f i s = (r, s1)" by force
  then obtain c' where r': "r = Ok c'"
    using assms(3) f by (cases r) (auto simp: execute_def Let_def bind_def)
  have "counted (e_profiler s) (e_tick_accum s) s1"
    using preserves_outcome [OF count_dispatch [OF f assms(2)] _ r] r' by (simp add: counted_def)
  with assms(3) f r r' show ?thesis
    by (auto simp: execute_def Let_def bind_def prof_record_def update_res_def counted_def
        profiler_record_def arr_get_def arr_set_def split: res.splits if_splits prod.splits)
qed

text \<open>The instruction \<open>MUL\<close> on the demonstration machine.\<close>

lemma demo_execute: "\<exists>s'. execute demo_host \<lparr>raw = enc_mul 3 1 2\<rparr> demo_emu = (Ok 3, s')"
proof -
  have "fst (execute demo_host \<lparr>raw = enc_mul 3 1 2\<rparr> demo_emu) = Ok 3" by code_simp
  then show ?thesis by (metis prod.collapse)
qed

theorem execute_accounting_witness:
  "\<exists>s'. execute demo_host \<lparr>raw = enc_mul 3 1 2\<rparr> demo_emu = (Ok 3, s')
     \<and> cycle_count (e_profiler s') = 3 \<and> instr_count (e_profiler s') = 1"
proof -
  obtain s' where s': "execute demo_host \<lparr>raw = enc_mul 3 1 2\<rparr> demo_emu = (Ok 3, s')"
    using demo_execute by blast
  have "instr_opcode \<lparr>raw = enc_mul 3 1 2\<rparr> = MUL" by code_simp
  with execute_accounting [of demo_host "\<lparr>raw = enc_mul 3 1 2\<rparr>", OF _ _ s'] s' show ?thesis
    by (auto simp: demo_emu_def emu_new_def profiler_init_def)
qed

section \<open>The peripheral tick\<close>

lemma tick_once_funpow:
  "e_timer ((tick_once ^^ n) s) = (timer_tick CYCLES_PER_TICK ^^ n) (e_timer s)"
  "e_axi ((tick_once ^^ n) s) = (fabric_tick CYCLES_PER_TICK ^^ n) (e_axi s)"
  "e_tick_accum ((tick_once ^^ n) s) = e_tick_accum s - of_nat n * CYCLES_PER_TICK"
  by (induction n) (simp_all add: tick_once_def Let_def algebra_simps)

text \<open>
  The tick loop terminates and passes time on exactly: the timer and the fabrics are ticked
  once per full thousand of accumulated cycles, the remainder stays in the accumulator, and
  registers and memories are untouched. If at least one tick was due, the timer line of the
  interrupt controller then shows the timer's pending flag.
\<close>

theorem tick_peripherals_exact:
  "let n = unat (e_tick_accum s) div 1000; s' = tick_peripherals s in
     e_timer s' = (timer_tick CYCLES_PER_TICK ^^ n) (e_timer s)
     \<and> e_axi s' = (fabric_tick CYCLES_PER_TICK ^^ n) (e_axi s)
     \<and> unat (e_tick_accum s') = unat (e_tick_accum s) mod 1000
     \<and> arch_of s' = arch_of s
     \<and> (n = 0 \<or> bit (mip (e_intc s')) 7 = t_irq_pending (e_timer s'))"
proof -
  let ?n = "unat (e_tick_accum s) div 1000" and ?s' = "tick_peripherals s"
  have s': "?s' = (tick_once ^^ ?n) s" by (rule tick_peripherals_funpow)
  have "unat (of_nat ?n * CYCLES_PER_TICK :: u64) = ?n * 1000"
  proof -
    have le: "?n * 1000 \<le> unat (e_tick_accum s)" by simp
    then have "?n * 1000 < 2 ^ 64" using unsigned_less [of "e_tick_accum s", where 'a = nat] by simp
    then show ?thesis by (simp add: CYCLES_PER_TICK_def unat_word_ariths unat_of_nat take_bit_nat_eq_self)
  qed
  moreover have "of_nat ?n * CYCLES_PER_TICK \<le> e_tick_accum s"
    unfolding word_le_nat_alt calculation by simp
  ultimately have acc: "unat (e_tick_accum ?s') = unat (e_tick_accum s) mod 1000"
    by (simp add: s' tick_once_funpow unat_sub minus_div_mult_eq_mod)
  have "bit (mip (e_intc (tick_once t))) 7 = t_irq_pending (e_timer (tick_once t))" for t
    by (simp add: tick_once_def Let_def raise_timer_def clear_timer_def bit_simps)
  then have "?n = 0 \<or> bit (mip (e_intc ?s')) 7 = t_irq_pending (e_timer ?s')"
    unfolding s' by (cases ?n) simp_all
  with acc show ?thesis
    using tick_frame [of s] by (simp add: Let_def s' tick_once_funpow)
qed

section \<open>The device window\<close>

lemma route_timer: "off < 0x1000 \<Longrightarrow> bus_route mmio_devices (MMIO_BASE + off) =
   Some \<lparr>dev_base = MMIO_BASE, dev_size = 0x1000, dev_read = Some TimerDev, dev_write = Some TimerDev\<rparr>"
  by (simp add: bus_route_def mmio_devices_def bus_add_device_def dev_match_def config_defs
      word_less_nat_alt word_le_nat_alt unat_word_ariths)

lemma route_uart: "off < 0x1000 \<Longrightarrow> bus_route mmio_devices (MMIO_BASE + UART_BASE + off) =
   Some \<lparr>dev_base = MMIO_BASE + UART_BASE, dev_size = 0x1000, dev_read = Some UartDev, dev_write = Some UartDev\<rparr>"
  by (simp add: bus_route_def mmio_devices_def bus_add_device_def dev_match_def config_defs
      word_less_nat_alt word_le_nat_alt unat_word_ariths)

text \<open>
  The device window is decoded as configured: on a well-formed machine a word access to
  the first page of the MMIO region is an access to the timer register of that offset, one to
  the second page an access to the UART, and neither touches the scratchpad.
\<close>

theorem device_window:
  assumes "emu_wf s" and "off < 0x1000"
  shows "emu_bus_write32 (MMIO_BASE + off) v s = (Ok (), s\<lparr>e_timer := timer_write_reg off v (e_timer s)\<rparr>)
    \<and> emu_bus_read32 (MMIO_BASE + off) s =
        (Ok (fst (timer_read_reg off (e_timer s))), s\<lparr>e_timer := snd (timer_read_reg off (e_timer s))\<rparr>)
    \<and> emu_bus_write32 (MMIO_BASE + UART_BASE + off) v s = (Ok (), s\<lparr>e_uart := uart_write_reg off v (e_uart s)\<rparr>)
    \<and> emu_bus_read32 (MMIO_BASE + UART_BASE + off) s = (Ok (uart_read_reg off (e_uart s)), s)"
proof -
  have "MMIO_BASE + UART_BASE + off - MMIO_BASE - UART_BASE = off" by simp
  with assms show ?thesis
    by (simp add: emu_bus_write32_def emu_bus_read32_def bus_write32_def bus_read32_def emu_wf_def
        route_timer route_uart split: prod.split)
qed

theorem device_window_witness:
  "emu_bus_write32 (MMIO_BASE + UART_BASE + UART_TX) 65 demo_emu =
     (Ok (), demo_emu\<lparr>e_uart := \<lparr>tx_buffer = [65], rx_buffer = [], uart_lines = []\<rparr>\<rparr>)"
proof -
  have "emu_wf demo_emu" using demo_inv by (simp add: emu_inv_def)
  moreover have "uart_write_reg UART_TX 65 (e_uart demo_emu) = \<lparr>tx_buffer = [65], rx_buffer = [], uart_lines = []\<rparr>"
    by (simp add: uart_write_reg_def uart_init_def demo_emu_def emu_new_def)
  ultimately show ?thesis
    using device_window [of demo_emu UART_TX 65] by (simp add: UART_TX_def)
qed

section \<open>Traps and interrupts\<close>

lemma enter_trap_eq:
  "enter_trap t s = (Ok (), s\<lparr>e_csr := take_trap_csr t (e_csr s),
     e_intc := (e_intc s)\<lparr>trap_count := trap_count (e_intc s) + 1\<rparr>,
     e_regs := (e_regs s)\<lparr>pc := mtvec_base (e_csr s)\<rparr>\<rparr>)"
  by (simp add: enter_trap_def emu_take_trap_def take_trap_def set_pc_def mtvec_base_def
      take_trap_csr_reads)

text \<open>
  C31. An opcode without a handler traps precisely when the guest has installed a trap handler:
  the faulting address and word are in \<open>mepc\<close> and \<open>mtval\<close>, the cause is 2, interrupts are
  masked, execution continues at the base of \<open>mtvec\<close> after two cycles and the instruction is not
  counted. With \<open>mtvec = 0\<close> the emulator throws and nothing has changed.
\<close>

theorem illegal_instruction:
  assumes "dispatch h (instr_opcode i) = None"
  shows "if csr_mtvec (e_csr s) = 0
     then execute h i s = (Err (UnknownOpcode (opcode_code (instr_opcode i))), s)
     else (\<exists>s'. execute h i s = (Ok 2, s') \<and> pc (e_regs s') = mtvec_base (e_csr s)
        \<and> csr_mepc (e_csr s') = ucast (pc (e_regs s) - 4) \<and> csr_read (e_csr s') CSR_MTVAL = ucast (raw i)
        \<and> csr_read (e_csr s') CSR_MCAUSE = 2 \<and> \<not> csr_mstatus_mie (e_csr s')
        \<and> priv (e_csr s') = Machine \<and> gpr (e_regs s') = gpr (e_regs s)
        \<and> e_profiler s' = e_profiler s \<and> e_scratchpad s' = e_scratchpad s)"
  using assms
  by (simp add: execute_def csr_mtvec_def csr_mepc_def bind_eq enter_trap_eq take_trap_csr_reads
      take_trap_masks illegal_inst_trap_def)

theorem illegal_instruction_witness:
  "execute demo_host \<lparr>raw = 0xFC000000\<rparr> demo_emu = (Err (UnknownOpcode 63), demo_emu)"
proof -
  have "dispatch demo_host (instr_opcode \<lparr>raw = 0xFC000000\<rparr>) = None"
    "opcode_code (instr_opcode \<lparr>raw = 0xFC000000\<rparr>) = 63"
    by (simp_all add: instr_opcode_def opcode_of_def named_opcodes_def field_defs)
  with illegal_instruction [of demo_host "\<lparr>raw = 0xFC000000\<rparr>" demo_emu] demo_quiet show ?thesis
    by (simp add: quiet_def)
qed

text \<open>
  An instruction fetch that the MMU refuses becomes an instruction page fault: cause 12,
  with the program counter in \<open>mepc\<close> and \<open>mtval\<close>; execution continues at the trap vector with
  a \<open>NOP\<close> in place of the instruction, and no register or memory is touched.
\<close>

theorem fetch_page_fault:
  assumes "mmu_enabled (e_mmu s)"
    and "emu_translate (pc (e_regs s)) False True s = (Ok None, s1)"
  shows "\<exists>s'. fetch s = (Ok \<lparr>raw = enc_nop\<rparr>, s') \<and> pc (e_regs s') = mtvec_base (e_csr s)
     \<and> csr_mepc (e_csr s') = ucast (pc (e_regs s)) \<and> csr_read (e_csr s') CSR_MTVAL = ucast (pc (e_regs s))
     \<and> csr_read (e_csr s') CSR_MCAUSE = 12 \<and> gpr (e_regs s') = gpr (e_regs s)
     \<and> e_scratchpad s' = e_scratchpad s \<and> e_main_ram s' = e_main_ram s"
proof -
  have "e_csr s1 = e_csr s" "e_regs s1 = e_regs s" "e_scratchpad s1 = e_scratchpad s"
    "e_main_ram s1 = e_main_ram s"
    using assms(2) by (auto simp: emu_translate_def split: res.splits)
  with assms show ?thesis
    by (simp add: fetch_def bind_eq enter_trap_eq take_trap_csr_reads csr_mepc_def page_fault_trap_def)
qed

lemma mret_pc: "fst (mret (Some c)) = csr_read c CSR_MEPC"
  by (simp add: mret_def Let_def csr_read_write csr_addrs)

text \<open>
  C40. Taking an interrupt loses the interrupted program counter: whatever interrupt is pending,
  \<open>mepc\<close> is zero afterwards, so that \<open>mret\<close> resumes at address zero.
\<close>

theorem interrupt_saves_no_pc:
  assumes "pending_interrupt (Some (e_csr s)) (e_intc s) = Some t"
  shows "\<exists>s'. check_interrupts s = (Ok (), s') \<and> pc (e_regs s') = irq_vector (e_csr s) t
     \<and> csr_mepc (e_csr s') = 0 \<and> fst (mret (Some (e_csr s'))) = 0 \<and> \<not> csr_mstatus_mie (e_csr s')"
proof -
  have "csr_read (take_trap_csr t (e_csr s)) CSR_MEPC = 0"
    using pending_interrupt_pc [OF assms] by (simp add: take_trap_csr_reads)
  with assms show ?thesis
    by (simp add: check_interrupts_def bind_eq emu_take_trap_def take_trap_def set_pc_def csr_mepc_def
        take_trap_masks irq_vector_def mtvec_base_def take_trap_csr_reads(5) mret_pc)
qed

text \<open>A machine with translation on and an empty page table, and one with a timer interrupt pending.\<close>

definition unmapped_emu :: emu where
  "unmapped_emu = (emu_new 8 0)\<lparr>e_mmu := paged_mmu, e_csr := paging_csr Machine\<rparr>"

definition irq_emu :: emu where
  "irq_emu = demo_emu\<lparr>e_csr := csr_write CSR_MIE 0x80 (csr_write CSR_MSTATUS 8 (e_csr demo_emu)),
     e_intc := raise_timer intc_init\<rparr>"

theorem fetch_page_fault_witness:
  "\<exists>s'. fetch unmapped_emu = (Ok \<lparr>raw = enc_nop\<rparr>, s') \<and> csr_read (e_csr s') CSR_MCAUSE = 12"
proof -
  have "fst (emu_translate (pc (e_regs unmapped_emu)) False True unmapped_emu) = Ok None" by code_simp
  then obtain s1 where t: "emu_translate (pc (e_regs unmapped_emu)) False True unmapped_emu = (Ok None, s1)"
    by (metis prod.collapse)
  have "mmu_enabled (e_mmu unmapped_emu)"
    by (simp add: unmapped_emu_def paged_mmu_enabled)
  from fetch_page_fault [OF this t] show ?thesis by blast
qed

theorem interrupt_saves_no_pc_witness:
  "\<exists>s'. check_interrupts irq_emu = (Ok (), s') \<and> csr_mepc (e_csr s') = 0"
proof -
  have "map_option trap_cause (pending_interrupt (Some (e_csr irq_emu)) (e_intc irq_emu)) = Some MachineTimer"
    by code_simp
  then obtain t where "pending_interrupt (Some (e_csr irq_emu)) (e_intc irq_emu) = Some t" by auto
  from interrupt_saves_no_pc [OF this] show ?thesis by blast
qed

section \<open>Reset, loading and serialisation\<close>

text \<open>
  \<open>reset\<close> returns a reachable emulator to the state of a new one of the same sizes, except
  for what it leaves alone: the timer, the UART, the MMU's linear map, counters and last fault,
  the target, the acceleration flag, the guest ISA and the fabrics' configurations.
\<close>

theorem reset_is_new:
  assumes "reachable h m k s"
  shows "let s' = emu_reset s; n = emu_new m k in
     e_scratchpad s' = e_scratchpad n \<and> e_main_ram s' = e_main_ram n \<and> e_regs s' = e_regs n
     \<and> csr_regs (e_csr s') = csr_regs (e_csr n) \<and> priv (e_csr s') = priv (e_csr n)
     \<and> e_profiler s' = e_profiler n \<and> e_intc s' = e_intc n \<and> e_debugger s' = e_debugger n
     \<and> e_block_cache s' = e_block_cache n \<and> e_bus s' = e_bus n \<and> e_axi s' = e_axi n
     \<and> e_tick_accum s' = 0 \<and> e_last_gpr s' = e_last_gpr n \<and> \<not> e_verbose s'
     \<and> \<not> mmu_enabled (e_mmu s') \<and> (\<forall>e \<in> set (tlb (e_mmu s')). \<not> tlb_valid e)"
proof -
  note inv = reachable_inv [OF assms, unfolded inv_defs]
  have "sram_clear (e_scratchpad s) = sram_new m" "ram_clear (e_main_ram s) = ram_new k"
    using inv by (simp_all add: sram_clear_def sram_new_def ram_clear_def ram_new_def)
  then show ?thesis
    using inv
    by (simp add: Let_def emu_reset_def emu_new_def regs_reset_eq profiler_reset_eq csr_reset_def
        intc_reset_def intc_init_def dbg_disable_single_step_def dbg_clear_breakpoints_def
        debugger_init_def bc_clear_def block_cache_init_def fabric_reset_def fabric_new_def
        set_enabled_def tlb_flush_def)
qed

theorem reset_is_new_witness:
  "e_regs (emu_reset (set_verbose True (emu_new 64 0))) = e_regs (emu_new 64 0)"
proof -
  have "reachable demo_host 64 0 (set_verbose True (emu_new 64 0))"
    by (intro reach_config reach.new)
  from reset_is_new [OF this] show ?thesis by (simp add: Let_def)
qed

lemma load_program_outcome:
  assumes "emu_inv m k s" and "length ws < 2 ^ 30"
  shows "case load_program ws (of_nat (length ws)) s of
     (Ok _, s') \<Rightarrow> 4 * length ws \<le> unat TEXT_SIZE
        \<and> (\<forall>i < length ws. sram_read32 (e_scratchpad s') (of_nat (4 * i)) = Ok (ws ! i))
        \<and> drop (4 * length ws) (sram_data (e_scratchpad s')) = drop (4 * length ws) (sram_data (e_scratchpad s))
        \<and> blocks (e_block_cache s') = Map.empty \<and> e_regs s' = e_regs s
   | (Err e, s') \<Rightarrow> s' = s \<and> (unat TEXT_SIZE < 4 * length ws \<or> m < 4 * length ws)
   | (Undef, _) \<Rightarrow> False"
proof -
  let ?n = "of_nat (length ws) * 4 :: size_t" and ?bs = "bytes_of_words ws"
  note v = inv_parts(5) [OF assms(1)]
  have n: "unat ?n = 4 * length ws"
    using assms(2) by (simp add: unat_word_ariths unat_of_nat take_bit_nat_eq_self)
  have nw: "no_wrap 0 ?n" using n assms(2) by (simp add: no_wrap_def)
  have big: "TEXT_SIZE < ?n \<longleftrightarrow> unat TEXT_SIZE < 4 * length ws" by (simp add: word_less_nat_alt n)
  have mm: "length (sram_data (e_scratchpad s)) = m" using assms(1) by (simp add: emu_inv_def)
  have src: "mem_read ?bs 0 (unat ?n) = Ok ?bs" using mem_read_all [of ?bs] by (simp add: n)
  show ?thesis
  proof (cases "unat TEXT_SIZE < 4 * length ws \<or> m < 4 * length ws")
    case True
    then show ?thesis
      using bounds_iff [OF v nw] big n mm
      by (auto simp: load_program_def load_program_bytes_def bind_def update_res_def sram_load_def
          sram_check_bounds_def sram_size_def TEXT_BASE_def)
  next
    case False
    let ?m' = "(e_scratchpad s)\<lparr>sram_data := splice_at 0 ?bs (sram_data (e_scratchpad s))\<rparr>"
    have ld: "sram_load (e_scratchpad s) 0 ?bs ?n = Ok ?m'"
      using bounds_iff [OF v nw] n mm False src
      by (simp add: sram_load_def sram_check_bounds_def sram_size_def mem_write_def)
    then have lw: "sram_load_words (e_scratchpad s) 0 ws (of_nat (length ws)) = Ok ?m'"
      by (simp add: sram_load_words_def)
    have "sram_read32 ?m' (0 + of_nat (4 * i)) = Ok (ws ! i)" if "i < length ws" for i
      using sram_load_words_read [OF v nw _ lw that] that n assms(2) by simp
    moreover have "drop (4 * length ws) (sram_data ?m') = drop (4 * length ws) (sram_data (e_scratchpad s))"
      by (simp add: splice_at_def)
    ultimately show ?thesis
      using ld big False
      by (simp add: load_program_def load_program_bytes_def bind_def update_res_def TEXT_BASE_def bc_clear_def)
  qed
qed

text \<open>
  C35. Loading a program: on a well-formed machine \<open>load_program\<close> refuses a program larger than
  the text region without changing anything; a program it accepts can be read back word by word
  from address zero, the rest of the scratchpad is unchanged, and no decoded block of the old
  program is left.
\<close>

theorem load_program_correct:
  assumes "emu_inv m k s" and "length ws < 2 ^ 30"
  shows "case load_program ws (of_nat (length ws)) s of
     (Ok _, s') \<Rightarrow> 4 * length ws \<le> unat TEXT_SIZE
        \<and> (\<forall>i < length ws. sram_read32 (e_scratchpad s') (of_nat (4 * i)) = Ok (ws ! i))
        \<and> drop (4 * length ws) (sram_data (e_scratchpad s')) = drop (4 * length ws) (sram_data (e_scratchpad s))
        \<and> blocks (e_block_cache s') = Map.empty \<and> e_regs s' = e_regs s
   | (Err e, s') \<Rightarrow> s' = s \<and> (unat TEXT_SIZE < 4 * length ws \<or> m < 4 * length ws)
   | (Undef, _) \<Rightarrow> False"
  using load_program_outcome [OF assms] .

text \<open>
  A snapshot restores the architectural registers: after \<open>restore_state\<close> of a state saved
  from a reachable emulator, the registers, flags, program counter, tick accumulator and
  profiler are those of the snapshot, a new snapshot is equal to the old one, and the memories
  of the restored emulator are its own.
\<close>

theorem restore_save_state:
  assumes "reachable h m k s"
  shows "save_state (restore_state (save_state s) s2) = save_state s
     \<and> e_regs (restore_state (save_state s) s2) = (e_regs s)\<lparr>halt := halt (e_regs s2)\<rparr>
     \<and> e_profiler (restore_state (save_state s) s2) = e_profiler s
     \<and> e_scratchpad (restore_state (save_state s) s2) = e_scratchpad s2
     \<and> e_main_ram (restore_state (save_state s) s2) = e_main_ram s2"
proof -
  have "gpr (e_regs s) ! 0 = 0"
    using reachable_inv [OF assms] by (simp add: inv_defs wf_regs_def)
  then have "(gpr (e_regs s))[0 := 0] = gpr (e_regs s)" by (metis list_update_id)
  then show ?thesis
    by (simp add: save_state_def restore_state_def profiler_restore_save profiler_save_restore)
qed

theorem restore_save_state_witness:
  "e_regs (restore_state (save_state (emu_new 64 0)) demo_emu) = (e_regs (emu_new 64 0))\<lparr>halt := False\<rparr>"
  using restore_save_state [OF reach.new [of True demo_host 64 0], of demo_emu]
  by (simp add: demo_emu_def emu_new_def regs_init_def)

theorem load_program_correct_witness:
  "\<exists>s'. load_program demo_program 4 demo_emu = (Ok (), s') \<and> sram_read32 (e_scratchpad s') 12 = Ok enc_halt"
proof -
  have "fst (load_program demo_program 4 demo_emu) = Ok ()" by code_simp
  then obtain s' where s': "load_program demo_program 4 demo_emu = (Ok (), s')" by (metis prod.collapse)
  have len: "length demo_program = 4" "demo_program ! 3 = enc_halt" by (simp_all add: demo_program_def)
  from load_program_correct [OF demo_inv, of demo_program] s' len
  have "\<forall>i < 4. sram_read32 (e_scratchpad s') (of_nat (4 * i)) = Ok (demo_program ! i)" by simp
  from this [rule_format, of 3] s' len show ?thesis by simp
qed

section \<open>What the comments do not announce\<close>

text \<open>
  ADD and SUB never report an overflow: the flag they compute from the signs is cleared
  again by \<open>update_flags_u32\<close> before they return.
\<close>

theorem overflow_flag_lost:
  "(case op_add i s of (Ok _, s') \<Rightarrow> \<not> sf_overflow (status (e_regs s')) | _ \<Rightarrow> True)
   \<and> (case op_sub i s of (Ok _, s') \<Rightarrow> \<not> sf_overflow (status (e_regs s')) | _ \<Rightarrow> True)"
proof -
  let ?clear = "\<lambda>r :: u32 res \<times> emu. \<forall>c s'. r = (Ok c, s') \<longrightarrow> \<not> sf_overflow (status (e_regs s'))"
  have fl: "?clear (bind (wr_gpr d v) (\<lambda>_. bind (upd_flags ov v) (\<lambda>_. ret c)) s)" for d v ov c
    by (auto simp: bind_def upd_flags_def update_flags_u32_def split: prod.splits res.splits)
  have two: "?clear (bind (rd_gpr x) (\<lambda>a. bind (rd_gpr y) (\<lambda>b. g a b)) s)"
    if "\<And>a b. ?clear (g a b s)" for x y g
    using that by (auto simp: bind_def rd_gpr_def split: prod.splits res.splits)
  have "?clear (op_add i s)" "?clear (op_sub i s)"
    unfolding op_add_def op_sub_def Let_def by (intro two fl)+
  then show ?thesis by (auto split: prod.splits res.splits)
qed

text \<open>
  The bounds checks of DMA_LOAD wrap: with translation off, a destination near the top of
  the 32-bit address space whose sum with the byte count wraps to a value inside the scratchpad
  passes the check, and the copy then writes outside the scratchpad (undefined behaviour).
\<close>

theorem dma_load_wraps:
  assumes "emu_inv m k s" and "\<not> mmu_enabled (e_mmu s)"
    and "gpr_ok (instr_rd i)" and "gpr_ok (instr_ra i)"
    and "dest = a_gpr (arch_of s) (instr_rd i)" and "src = a_gpr (arch_of s) (instr_ra i)"
    and "unat (dest + ucast (instr_func i)) \<le> m" and "m < unat dest"
    and "unat src + unat (instr_func i) < 2 ^ 32" and "unat src + unat (instr_func i) \<le> k"
  shows "fst (op_dma_load i s) = Undef"
proof -
  let ?f = "instr_func i" and ?mem = "sram_data (e_scratchpad s)" and ?dram = "ram_data (e_main_ram s)"
  note inv = assms(1)
  have len: "length ?mem = m" "length ?dram = k" using inv by (simp_all add: emu_inv_def)
  have rd: "rd_gpr (instr_ra i) s = (Ok src, s)" "rd_gpr (instr_rd i) s = (Ok dest, s)"
    using assms(3-6) inv_parts(1) [OF inv] by (simp_all add: rd_gpr_arch)
  have pass: "\<not> sram_size (e_scratchpad s) < ucast (dest + ucast ?f)"
    using assms(7) unat_size_u64 [OF inv_parts(5) [OF inv]] len(1)
    by (simp add: sram_size_def word_less_nat_alt)
  have pass2: "\<not> ram_size (e_main_ram s) < ucast (src + ucast ?f)"
    using dma_bound_iff [OF inv_parts(6) [OF inv] assms(9)] assms(10) len
    by (simp add: ram_size_def in_range_def)
  from axi_issue_ok [OF inv] obtain ok ic where
    ax: "axi_issue dest (ucast ?f) False s = (Ok ok, s\<lparr>e_axi := ic\<rparr>)" by blast
  obtain p where p: "(if ok then ret () else prof_record DMA_LOAD 1 0) (s\<lparr>e_axi := ic\<rparr>) =
      (Ok (), s\<lparr>e_axi := ic, e_profiler := p\<rparr>)"
  proof (cases ok)
    case False
    then show ?thesis
      using that inv_parts(2) [OF inv]
      by (auto intro: prof_record_ok [of "s\<lparr>e_axi := ic\<rparr>" DMA_LOAD 1 0])
  qed (auto intro: that [of "e_profiler s"])
  have "dma_copy_host ?mem (unat dest) ?dram (unat src) (unat ?f) = Undef"
    using assms(8,10) len by (simp add: dma_copy_host_def mem_read_def mem_write_def)
  then show ?thesis
    using assms(2)
    by (simp add: op_dma_load_def dma_translate_def bind_eq rd Let_def pass pass2 ax p)
      (simp add: bind_def update_res_def)
qed

definition wrap_emu :: emu where
  "wrap_emu = (emu_new 16 1)\<lparr>e_regs := regs_init\<lparr>gpr := (replicate 16 0)[1 := 0xFFFFFFFF]\<rparr>\<rparr>"

theorem dma_load_wraps_witness:
  "fst (op_dma_load \<lparr>raw = enc_dma_load 1 0 1\<rparr> wrap_emu) = Undef"
proof -
  let ?i = "\<lparr>raw = enc_dma_load 1 0 1\<rparr>"
  have inv: "emu_inv 16 1 wrap_emu"
    using emu_inv_new [of 16 1]
    by (simp add: wrap_emu_def inv_defs wf_regs_def regs_init_def list_all_length)
  have off: "\<not> mmu_enabled (e_mmu wrap_emu)"
    by (simp add: wrap_emu_def emu_new_def mmu_init_def)
  have flds: "instr_rd ?i = 1" "instr_ra ?i = 0" "instr_func ?i = 1" by code_simp+
  have regs: "a_gpr (arch_of wrap_emu) 1 = 0xFFFFFFFF" "a_gpr (arch_of wrap_emu) 0 = 0"
    by (simp_all add: arch_of_def gprs_def wrap_emu_def)
  show ?thesis
    by (rule dma_load_wraps [OF inv off _ _ refl refl]) (simp_all add: flds regs gpr_ok_def)
qed

text \<open>
  The five-bit register fields are not checked against the sixteen registers: on a
  well-formed machine a MOV whose source field is 16 or more reads outside the register array.
\<close>

theorem register_field_unchecked:
  assumes "emu_inv m k s" and "16 \<le> instr_ra i"
  shows "op_mov i s = (Undef, s)"
  using assms(2) read_gpr_Undef_iff [OF inv_parts(1) [OF assms(1)], of "instr_ra i"]
  by (simp add: op_mov_def rd_gpr_def bind_def)

theorem register_field_unchecked_witness:
  "op_mov \<lparr>raw = enc_mov 1 16\<rparr> demo_emu = (Undef, demo_emu)"
proof -
  have "16 \<le> instr_ra \<lparr>raw = enc_mov 1 16\<rparr>" by code_simp
  from register_field_unchecked [OF demo_inv this] show ?thesis .
qed

end
