(* ===== verification/Coremark.thy ===== *)
theory Coremark
  imports Emu_Props
begin

text \<open>
  The benchmark of \<^verbatim>\<open>include/aiasm/coremark.h\<close> and \<^verbatim>\<open>src/coremark.cpp\<close>: the guest program of an
  iteration and the loop that loads, runs and checks it; the figures computed at its end and the
  report are in the theory \<open>Score\<close>. The check of the matrix result has no effect in the sources,
  so its flag stays set.

  Programs are verified here on the instruction-set specification: \<open>rom_run\<close> executes a program
  given as a list of words symbolically and checks on the way that its text is not overwritten;
  the refinement theorems then transfer the result to the interpreter and to the fast path.
\<close>

section \<open>The program\<close>

definition build_iteration :: "u32 \<Rightarrow> u32 \<Rightarrow> u32 list" where
  "build_iteration scratch_a scratch_b = [
     enc_movi 1 0, enc_movi 2 5, enc_movi 4 1, enc_movi 3 0,
     enc_add 1 1 4, enc_add 3 3 1, enc_bne 1 2 (- 12),
     enc_movi 5 (ucast scratch_a), enc_movi 6 (ucast scratch_b),
     enc_movi 7 0, enc_movi 8 64,
     enc_dma_load 5 7 64, enc_dma_load 6 8 64,
     enc_load_vr 0 5 0, enc_load_vr 1 6 0,
     enc_vec_add 2 0 1,
     enc_matmul_tile 3 0 1 4,
     enc_store_vr 3 5 0,
     enc_movi 10 0x5A5A, enc_add 11 10 3, enc_mul 12 11 3,
     enc_halt]"

section \<open>The benchmark loop\<close>

record cm_result =
  cm_iterations :: u32
  cm_total_cycles :: u64
  cm_total_instrs :: u64
  cm_crc_ok :: bool
  cm_list_ok :: bool
  cm_matrix_ok :: bool
  cm_target_name :: string

text \<open>A matrix argument is the sixteen floats it points to, or null.\<close>

definition mat_bytes :: "f32 list option \<Rightarrow> u8 list" where
  "mat_bytes m = (case m of Some fs \<Rightarrow> bytes_of_words fs | None \<Rightarrow> [])"

definition load_mat :: "u32 \<Rightarrow> f32 list option \<Rightarrow> unit emu_op" where
  "load_mat addr m = (case m of Some fs \<Rightarrow> load_main_ram addr (bytes_of_words fs) 64 | None \<Rightarrow> ret ())"

definition write_scratch :: "u32 \<Rightarrow> u8 list \<Rightarrow> unit emu_op" where
  "write_scratch addr bs = update_res (\<lambda>s. sram_write_bytes (e_scratchpad s) addr bs 64) (\<lambda>m s. s\<lparr>e_scratchpad := m\<rparr>)"

definition cm_setup :: "f32 list option \<Rightarrow> f32 list option \<Rightarrow> unit emu_op" where
  "cm_setup a b = (let prog = build_iteration 0x1000 0x1040 in
     bind (load_program prog (of_nat (length prog))) (\<lambda>_.
     bind (load_mat 0 a) (\<lambda>_. bind (load_mat 0x40 b) (\<lambda>_.
     bind (write_scratch 0x1000 (mat_bytes a)) (\<lambda>_. write_scratch 0x1040 (mat_bytes b))))))"

text \<open>The counters and checks after a run: cycles, instructions, list check and halt check.\<close>

type_synonym cm_acc = "u64 \<times> u64 \<times> bool \<times> bool"

definition cm_check :: "cm_acc \<Rightarrow> cm_acc emu_op" where
  "cm_check acc = (case acc of (cyc, ins, list_ok, crc_ok) \<Rightarrow>
     bind (gets (\<lambda>s. (cycle_count (e_profiler s), instr_count (e_profiler s)))) (\<lambda>(c, n).
     bind (rd_gpr 3) (\<lambda>r3.
     bind (lift_res (\<lambda>s. sram_read_bytes (e_scratchpad s) 0x1000 64)) (\<lambda>_.
     bind (gets (\<lambda>s. halt (e_regs s))) (\<lambda>hl.
     ret (cyc + c, ins + n, list_ok \<and> r3 = 15, crc_ok \<and> hl))))))"

fun cm_loop :: "host_env \<Rightarrow> nat \<Rightarrow> bool \<Rightarrow> f32 list option \<Rightarrow> f32 list option \<Rightarrow> nat \<Rightarrow> cm_acc \<Rightarrow> emu \<Rightarrow> (cm_acc res \<times> emu) option" where
  "cm_loop h fuel use_fast a b 0 acc s = Some (Ok acc, s)"
| "cm_loop h fuel use_fast a b (Suc n) acc s = (case cm_setup a b s of
     (Ok _, s1) \<Rightarrow> (case (if use_fast then run_fast h fuel s1 else run h fuel s1) of
         None \<Rightarrow> None
       | Some (Ok _, s2) \<Rightarrow> (case cm_check acc s2 of
            (Ok acc', s3) \<Rightarrow> cm_loop h fuel use_fast a b n acc' (emu_reset s3)
          | (r, s3) \<Rightarrow> Some (r, s3))
       | Some (Err e, s2) \<Rightarrow> Some (Err e, s2)
       | Some (Undef, s2) \<Rightarrow> Some (Undef, s2))
   | (Err e, s1) \<Rightarrow> Some (Err e, s1)
   | (Undef, s1) \<Rightarrow> Some (Undef, s1))"

definition coremark_run :: "host_env \<Rightarrow> nat \<Rightarrow> u32 \<Rightarrow> bool \<Rightarrow> f32 list option \<Rightarrow> f32 list option \<Rightarrow> emu \<Rightarrow> (cm_result res \<times> emu) option" where
  "coremark_run h fuel iterations use_fast a b s =
    (case (if a \<noteq> None \<and> b \<noteq> None then bind (load_mat 0 a) (\<lambda>_. load_mat 0x40 b) s else (Ok (), s)) of
       (Ok _, s1) \<Rightarrow> map_option (\<lambda>(r, s2). (map_res (\<lambda>(cyc, ins, list_ok, crc_ok).
           \<lparr>cm_iterations = iterations, cm_total_cycles = cyc, cm_total_instrs = ins, cm_crc_ok = crc_ok,
            cm_list_ok = list_ok, cm_matrix_ok = True, cm_target_name = target_name (e_target s)\<rparr>) r, s2))
         (cm_loop h fuel use_fast a b (unat iterations) (0, 0, True, True) s1)
     | (Err e, s1) \<Rightarrow> Some (Err e, s1)
     | (Undef, s1) \<Rightarrow> Some (Undef, s1))"

section \<open>Symbolic execution of a program\<close>

text \<open>
  The instruction set with the instructions taken from a list of words at address zero. Every
  step checks the operands and that the first \<open>t\<close> bytes of memory are kept.
\<close>

fun rom_run :: "fpu \<Rightarrow> nat \<Rightarrow> u32 list \<Rightarrow> nat \<Rightarrow> arch \<Rightarrow> arch option" where
  "rom_run fp t ws 0 A = (if a_halt A then Some A else None)"
| "rom_run fp t ws (Suc n) A =
    (if a_halt A then Some A
     else let i = unat (a_pc A) div 4; w = \<lparr>raw = ws ! i\<rparr> in
       if 4 * i = unat (a_pc A) \<and> i < length ws \<and> operands_ok (instr_opcode w) w (advance A)
       then (case isa_exec fp (instr_opcode w) w (advance A) of
           Some B \<Rightarrow> if take t (a_mem B) = take t (a_mem A) then rom_run fp t ws n B else None
         | None \<Rightarrow> None)
       else None)"

declare rom_run.simps(2) [simp del]

definition holds_text :: "nat \<Rightarrow> u32 list \<Rightarrow> arch \<Rightarrow> bool" where
  "holds_text t ws A \<longleftrightarrow> 4 * length ws \<le> t \<and> t \<le> length (a_mem A) \<and> t \<le> unat MMIO_BASE
     \<and> take (4 * length ws) (a_mem A) = bytes_of_words ws"

lemma slice_take: "a + n \<le> k \<Longrightarrow> slice a n (take k xs) = slice a n xs"
  by (simp add: slice_def drop_take min_def)

lemma holds_text_fetch:
  assumes "holds_text t ws A" and "4 * i = unat (a_pc A)" and "i < length ws"
  shows "fetched A = \<lparr>raw = ws ! i\<rparr>" and "in_range (a_mem A) (a_pc A) 4" and "\<not> device_addr (a_pc A)"
proof -
  have "slice (4 * i) 4 (a_mem A) = slice (4 * i) 4 (bytes_of_words ws)"
    using assms(1,3) slice_take [of "4 * i" 4 "4 * length ws" "a_mem A"] by (simp add: holds_text_def)
  then show "fetched A = \<lparr>raw = ws ! i\<rparr>"
    unfolding fetched_def assms(2) [symmetric] by (simp add: slice_bytes_of_words [OF assms(3)])
  show "in_range (a_mem A) (a_pc A) 4" using assms by (simp add: holds_text_def in_range_def)
  have "unat (a_pc A) < unat MMIO_BASE" using assms by (simp add: holds_text_def)
  then show "\<not> device_addr (a_pc A)" by (simp add: device_addr_def word_le_nat_alt)
qed

lemma holds_text_keep:
  assumes "holds_text t ws A" and "take t (a_mem B) = take t (a_mem A)"
  shows "holds_text t ws B"
proof -
  have "t \<le> length (a_mem B)"
    using arg_cong [OF assms(2), of length] assms(1) by (simp add: holds_text_def min_def split: if_splits)
  moreover have "take (4 * length ws) (a_mem B) = take (4 * length ws) (a_mem A)"
    using arg_cong [OF assms(2), of "take (4 * length ws)"] assms(1) by (simp add: holds_text_def min_def)
  ultimately show ?thesis using assms(1) by (simp add: holds_text_def)
qed

text \<open>A successful turn of the symbolic execution is a step of the specification.\<close>

lemma rom_run_step:
  assumes "rom_run fp t ws (Suc n) A = Some B" and "\<not> a_halt A" and "holds_text t ws A"
  obtains A1 where "isa_ready A" "isa_step fp A = Some A1" "take t (a_mem A1) = take t (a_mem A)"
    "rom_run fp t ws n A1 = Some B" "holds_text t ws A1" "unat (a_pc A) + 4 \<le> t" "4 dvd unat (a_pc A)"
proof -
  let ?i = "unat (a_pc A) div 4"
  let ?w = "\<lparr>raw = ws ! ?i\<rparr>"
  from assms(1,2) obtain A1 where i: "4 * ?i = unat (a_pc A)" "?i < length ws"
    and ops: "operands_ok (instr_opcode ?w) ?w (advance A)"
    and ex: "isa_exec fp (instr_opcode ?w) ?w (advance A) = Some A1"
    and tk: "take t (a_mem A1) = take t (a_mem A)" and r: "rom_run fp t ws n A1 = Some B"
    by (auto simp: rom_run.simps(2) Let_def split: if_splits option.splits)
  note f = holds_text_fetch [OF assms(3) i]
  show ?thesis
  proof (rule that)
    show "isa_ready A" using f ops by (simp add: isa_ready_def advance_def)
    show "isa_step fp A = Some A1" using f ex assms(2) by (simp add: isa_step_def advance_def)
    show "unat (a_pc A) + 4 \<le> t" using i assms(3) by (simp add: holds_text_def)
    show "4 dvd unat (a_pc A)" using i by (metis dvd_triv_left)
  qed (use tk r holds_text_keep [OF assms(3) tk] in auto)
qed

lemma rom_run_isa:
  "rom_run fp t ws n A = Some B \<Longrightarrow> holds_text t ws A \<Longrightarrow> isa_safe fp n A \<and> isa_run fp n A = Some B"
proof (induction n arbitrary: A)
  case (Suc n)
  show ?case
  proof (cases "a_halt A")
    case True
    with Suc.prems show ?thesis by (simp add: rom_run.simps(2))
  next
    case False
    from rom_run_step [OF Suc.prems(1) False Suc.prems(2)] obtain A1 where
      "isa_ready A" "isa_step fp A = Some A1" "rom_run fp t ws n A1 = Some B" "holds_text t ws A1" by blast
    with Suc.IH [of A1] False show ?thesis by simp
  qed
qed simp

section \<open>The fields of encoded instructions\<close>

lemma enc_fields:
  "reg5 d \<Longrightarrow> instr_opcode \<lparr>raw = enc_movi d k\<rparr> = MOVI" "reg5 d \<Longrightarrow> instr_rd \<lparr>raw = enc_movi d k\<rparr> = d"
  "reg5 d \<Longrightarrow> instr_imm16 \<lparr>raw = enc_movi d k\<rparr> = k"
  "instr_opcode \<lparr>raw = enc_halt\<rparr> = HALT"
  "reg5 a \<Longrightarrow> reg5 b \<Longrightarrow> instr_opcode \<lparr>raw = enc_bne a b off\<rparr> = BNE"
  "reg5 a \<Longrightarrow> reg5 b \<Longrightarrow> instr_rd \<lparr>raw = enc_bne a b off\<rparr> = a"
  "reg5 a \<Longrightarrow> reg5 b \<Longrightarrow> instr_ra \<lparr>raw = enc_bne a b off\<rparr> = b"
  by (simp_all add: enc_unfold field_lemmas named_opcodes_def)

lemma enc_r_fields:
  assumes "reg5 d" and "reg5 a" and "reg5 b"
  shows "instr_opcode \<lparr>raw = enc_add d a b\<rparr> = ADD" "instr_rd \<lparr>raw = enc_add d a b\<rparr> = d"
    "instr_ra \<lparr>raw = enc_add d a b\<rparr> = a" "instr_rb \<lparr>raw = enc_add d a b\<rparr> = b"
    "instr_opcode \<lparr>raw = enc_mul d a b\<rparr> = MUL" "instr_rd \<lparr>raw = enc_mul d a b\<rparr> = d"
    "instr_ra \<lparr>raw = enc_mul d a b\<rparr> = a" "instr_rb \<lparr>raw = enc_mul d a b\<rparr> = b"
    "instr_opcode \<lparr>raw = enc_vec_add d a b\<rparr> = VEC_ADD" "instr_rd \<lparr>raw = enc_vec_add d a b\<rparr> = d"
    "instr_ra \<lparr>raw = enc_vec_add d a b\<rparr> = a" "instr_rb \<lparr>raw = enc_vec_add d a b\<rparr> = b"
    "instr_opcode \<lparr>raw = enc_matmul_tile d a b n\<rparr> = MATMUL_TILE" "instr_rd \<lparr>raw = enc_matmul_tile d a b n\<rparr> = d"
    "instr_ra \<lparr>raw = enc_matmul_tile d a b n\<rparr> = a" "instr_rb \<lparr>raw = enc_matmul_tile d a b n\<rparr> = b"
  using assms by (simp_all add: enc_unfold field_lemmas named_opcodes_def)

lemma enc_m_fields:
  assumes "reg5 d" and "reg5 a"
  shows "instr_opcode \<lparr>raw = enc_load_vr d a k\<rparr> = LOAD_VR" "instr_rd \<lparr>raw = enc_load_vr d a k\<rparr> = d"
    "instr_ra \<lparr>raw = enc_load_vr d a k\<rparr> = a" "instr_simm16 \<lparr>raw = enc_load_vr d a k\<rparr> = scast k"
    "instr_opcode \<lparr>raw = enc_store_vr d a k\<rparr> = STORE_VR" "instr_rd \<lparr>raw = enc_store_vr d a k\<rparr> = d"
    "instr_ra \<lparr>raw = enc_store_vr d a k\<rparr> = a" "instr_simm16 \<lparr>raw = enc_store_vr d a k\<rparr> = scast k"
    "instr_opcode \<lparr>raw = enc_dma_load d a n\<rparr> = DMA_LOAD" "instr_rd \<lparr>raw = enc_dma_load d a n\<rparr> = d"
    "instr_ra \<lparr>raw = enc_dma_load d a n\<rparr> = a"
  using assms by (simp_all add: enc_unfold field_lemmas named_opcodes_def)

lemma enc_constants:
  "instr_offset \<lparr>raw = enc_bne 1 2 (- 12)\<rparr> = - 12" "instr_func \<lparr>raw = enc_dma_load 5 7 64\<rparr> = 64"
  "instr_func \<lparr>raw = enc_dma_load 6 8 64\<rparr> = 64" "tile_n \<lparr>raw = enc_matmul_tile 3 0 1 4\<rparr> = 4"
  by code_simp+

lemma reg5_numerals: "reg5 0" "reg5 1" "reg5 (numeral k) \<longleftrightarrow> (numeral k :: u8) < 32"
  by (simp_all add: reg5_def)

lemma take_splice_at: "n \<le> off \<Longrightarrow> off \<le> length xs \<Longrightarrow> take n (splice_at off src xs) = take n xs"
  by (simp add: splice_at_def)

lemma rom_run_numeral:
  "rom_run fp t ws (numeral k) A =
    (if a_halt A then Some A
     else let i = unat (a_pc A) div 4; w = \<lparr>raw = ws ! i\<rparr> in
       if 4 * i = unat (a_pc A) \<and> i < length ws \<and> operands_ok (instr_opcode w) w (advance A)
       then (case isa_exec fp (instr_opcode w) w (advance A) of
           Some B \<Rightarrow> if take t (a_mem B) = take t (a_mem A) then rom_run fp t ws (pred_numeral k) B else None
         | None \<Rightarrow> None)
       else None)"
  by (simp add: numeral_eq_Suc rom_run.simps(2))

lemmas rom_run_one = rom_run.simps(2) [of _ _ _ 0]

abbreviation iteration :: "u32 list" where
  "iteration \<equiv> build_iteration 0x1000 0x1040"

lemma iteration_words:
  "length iteration = 22" "iteration ! 0 = enc_movi 1 0" "iteration ! Suc 0 = enc_movi 2 5" "iteration ! 2 = enc_movi 4 1"
  "iteration ! 3 = enc_movi 3 0" "iteration ! 4 = enc_add 1 1 4" "iteration ! 5 = enc_add 3 3 1"
  "iteration ! 6 = enc_bne 1 2 (- 12)" "iteration ! 7 = enc_movi 5 0x1000" "iteration ! 8 = enc_movi 6 0x1040"
  "iteration ! 9 = enc_movi 7 0" "iteration ! 10 = enc_movi 8 64" "iteration ! 11 = enc_dma_load 5 7 64"
  "iteration ! 12 = enc_dma_load 6 8 64" "iteration ! 13 = enc_load_vr 0 5 0" "iteration ! 14 = enc_load_vr 1 6 0"
  "iteration ! 15 = enc_vec_add 2 0 1" "iteration ! 16 = enc_matmul_tile 3 0 1 4" "iteration ! 17 = enc_store_vr 3 5 0"
  "iteration ! 18 = enc_movi 10 0x5A5A" "iteration ! 19 = enc_add 11 10 3" "iteration ! 20 = enc_mul 12 11 3"
  "iteration ! 21 = enc_halt"
  by (simp_all add: build_iteration_def)

lemmas sym_exec = rom_run_numeral rom_run_one enc_fields enc_r_fields enc_m_fields enc_constants reg5_numerals
  advance_def a_write_def a_result_def gpr_ok_def vr_ok_def ea_def in_range_def take_splice_at Let_def

text \<open>
  One iteration on any memories that are large enough: 34 instructions, after which \<open>r3\<close> is the
  sum of one to five and the first buffer holds the product of the two matrices in main memory.
\<close>

definition product :: "fpu \<Rightarrow> f32 list \<Rightarrow> f32 list \<Rightarrow> f32 list" where
  "product fp x y = map (\<lambda>k. dot fp x y 4 (k div 4) (k mod 4)) [0..<16]"

lemma matmul_ref_product: "length old = 16 \<Longrightarrow> matmul_ref fp 4 x y old = product fp x y"
  by (simp add: matmul_ref_def product_def)

lemma length_product [simp]: "length (product fp x y) = 16"
  by (simp add: product_def)

lemma iteration_runs:
  assumes "0x1080 \<le> length m" and "0x80 \<le> length d" and "length (V 3) = 16"
  shows "\<exists>B. rom_run fp 128 iteration 34
      \<lparr>a_gpr = g0, a_vr = V, a_pc = 0, a_halt = False, a_flags = f0, a_mem = m, a_dram = d\<rparr> = Some B
    \<and> a_halt B \<and> a_gpr B 3 = 15
    \<and> slice 0x1000 64 (a_mem B) = bytes_of_words (product fp (words_of_bytes (slice 0 64 d)) (words_of_bytes (slice 64 64 d)))"
proof -
  have buf: "slice 0x1000 64 (splice_at 0x1040 x (splice_at 0x1000 y m)) = y"
    "slice 0x1040 64 (splice_at 0x1040 x (splice_at 0x1000 y m)) = x"
    if "length x = 64" "length y = 64" for x y
    using assms(1) that slice_splice_at_same [of "0x1000" y m] slice_splice_at_same [of "0x1040" x "splice_at 0x1000 y m"]
      slice_splice_at_disjoint [where off = "0x1040" and src = x and xs = "splice_at 0x1000 y m" and a = "0x1000" and n = 64]
    by simp_all
  have out: "slice 0x1000 64 (splice_at 0x1000 z n) = z" if "length z = 64" "0x1080 \<le> length n" for z n :: "u8 list"
    using that slice_splice_at_same [of "0x1000" z n] by simp
  show ?thesis using assms by (simp add: sym_exec iteration_words matmul_ref_product buf out)
qed

section \<open>From the specification to the emulator\<close>

text \<open>A machine that runs a symbolic program keeps its text, as the fast path requires.\<close>

lemma rom_run_stable:
  assumes "emu_inv m k s" and "quiet s" and "breakpoints (e_debugger s) = {}" and "holds_text t ws (arch_of s)"
    and "rom_run (h_fpu h) t ws n (arch_of s) = Some B"
  shows "stable h t n s"
  using assms
proof (induction n arbitrary: s)
  case 0
  then show ?case by (simp add: stable.simps [of h t 0] stopped_def split: if_splits)
next
  case (Suc n)
  show ?case
  proof (cases "halt (e_regs s)")
    case True
    then show ?thesis by (simp add: stable.simps [of h t "Suc n"] stopped_def)
  next
    case False
    then have "\<not> a_halt (arch_of s)" by simp
    from rom_run_step [OF Suc.prems(5) this Suc.prems(4)] obtain A1 where
      A1: "isa_ready (arch_of s)" "isa_step (h_fpu h) (arch_of s) = Some A1"
      "take t (a_mem A1) = take t (a_mem (arch_of s))" "rom_run (h_fpu h) t ws n A1 = Some B" "holds_text t ws A1"
      "unat (a_pc (arch_of s)) + 4 \<le> t" "4 dvd unat (a_pc (arch_of s))" by blast
    from step_implements [OF Suc.prems(1,2) A1(1) False, of h] A1(2) obtain s1 where
      s1: "step h s = (Ok (), s1)" "arch_of s1 = A1" "frame s s1" by auto
    have "emu_inv m k s1" using preservesD [OF pres_step Suc.prems(1), of h] s1(1) by simp
    moreover have "breakpoints (e_debugger s1) = {}" using s1(3) Suc.prems(3) by (simp add: frame_def)
    ultimately have "stable h t n s1"
      using Suc.IH [of s1] quiet_frame [OF s1(3) Suc.prems(2)] s1(2) A1(4,5) by simp
    moreover have "text_of t s1 = text_of t s" using A1(3) s1(2) by (auto simp: text_of_def)
    moreover have "in_text t (pc (e_regs s))" using A1(6,7) by (simp add: in_text_def)
    ultimately show ?thesis using s1(1) by (simp add: stable.simps [of h t "Suc n"])
  qed
qed

text \<open>Both run loops execute the program to the end that the symbolic execution finds.\<close>

lemma rom_run_interp:
  assumes "emu_inv m k s" and "quiet s" and "breakpoints (e_debugger s) = {}"
    and "holds_text t ws (arch_of s)" and "rom_run (h_fpu h) t ws n (arch_of s) = Some B"
  shows "\<exists>s'. run h n s = Some (Ok (), s') \<and> arch_of s' = B \<and> emu_inv m k s'"
proof -
  from rom_run_isa [OF assms(5,4)] run_loop_implements [OF assms(1-3)] obtain s0 where
    "run_loop h n s = Some (Ok (), s0)" "arch_of s0 = B" by blast
  then obtain s' where s': "run h n s = Some (Ok (), s')" "arch_of s' = B"
    by (simp add: run_def flush_uart_def)
  with run_inv [OF assms(1) s'(1)] show ?thesis by simp
qed

lemma rom_run_both:
  assumes "fast_ok m k s" and "breakpoints (e_debugger s) = {}" and "text_region t m"
    and "holds_text t ws (arch_of s)" and "cache_ok t s (e_block_cache s)"
    and "rom_run (h_fpu h) t ws n (arch_of s) = Some B"
  shows "\<exists>s'. (if use_fast then run_fast h n s else run h n s) = Some (Ok (), s') \<and> arch_of s' = B \<and> emu_inv m k s'"
proof -
  have inv: "emu_inv m k s" "quiet s" using assms(1) by (simp_all add: fast_ok_def)
  from rom_run_interp [OF inv assms(2,4,6)] obtain s' where
    s': "run h n s = Some (Ok (), s')" "arch_of s' = B" and inv': "emu_inv m k s'" by blast
  show ?thesis
  proof (cases use_fast)
    case True
    from run_fast_same [OF assms(1,3) rom_run_stable [OF inv assms(2,4,6)] assms(5) s'(1)] obtain c where
      "run_fast h n s = Some (Ok (), s'\<lparr>e_block_cache := c\<rparr>)" by blast
    with True s' inv' show ?thesis by (auto intro: inv_frames)
  next
    case False
    with s' inv' show ?thesis by auto
  qed
qed

section \<open>Setting up an iteration\<close>

text \<open>A machine that is ready for the benchmark: as \<open>reset\<close> leaves it, or a new one.\<close>

definition cm_fresh :: "nat \<Rightarrow> nat \<Rightarrow> emu \<Rightarrow> bool" where
  "cm_fresh m k s \<longleftrightarrow> fast_ok m k s \<and> breakpoints (e_debugger s) = {} \<and> pc (e_regs s) = 0 \<and> \<not> halt (e_regs s)"

lemma cm_fresh_upd:
  "cm_fresh m k s \<Longrightarrow> length d = m \<Longrightarrow> cm_fresh m k (s\<lparr>e_scratchpad := (e_scratchpad s)\<lparr>sram_data := d\<rparr>\<rparr>)"
  "cm_fresh m k s \<Longrightarrow> length d = k \<Longrightarrow> cm_fresh m k (s\<lparr>e_main_ram := (e_main_ram s)\<lparr>ram_data := d\<rparr>\<rparr>)"
  "cm_fresh m k s \<Longrightarrow> cm_fresh m k (s\<lparr>e_block_cache := c\<rparr>)"
  by (auto simp: cm_fresh_def fast_ok_def inv_defs quiet_def vec64_def)

lemma cm_fresh_reset: "emu_inv m k s \<Longrightarrow> cm_fresh m k (emu_reset s)"
  using inv_reset [of m k s]
  by (simp add: cm_fresh_def fast_ok_def quiet_def emu_reset_def set_enabled_def dbg_clear_breakpoints_def
      dbg_disable_single_step_def csr_mstatus_mie_def csr_mtvec_def csr_read_def csr_reset_def csr_addrs regs_reset_def)

lemma cm_fresh_sizes:
  "cm_fresh m k s \<Longrightarrow> length (sram_data (e_scratchpad s)) = m" "cm_fresh m k s \<Longrightarrow> length (ram_data (e_main_ram s)) = k"
  "cm_fresh m k s \<Longrightarrow> vec64 (sram_data (e_scratchpad s))" "cm_fresh m k s \<Longrightarrow> vec64 (ram_data (e_main_ram s))"
  by (simp_all add: cm_fresh_def fast_ok_def inv_defs)

lemma load_mat_ok:
  assumes "cm_fresh m k s" and "unat addr + 64 \<le> k" and "length fs = 16"
  defines "s' \<equiv> s\<lparr>e_main_ram := (e_main_ram s)\<lparr>ram_data := splice_at (unat addr) (bytes_of_words fs) (ram_data (e_main_ram s))\<rparr>\<rparr>"
  shows "load_mat addr (Some fs) s = (Ok (), s') \<and> cm_fresh m k s'"
proof -
  have "\<not> ucast addr + 64 > ram_size (e_main_ram s)"
    using bounds_iff [OF cm_fresh_sizes(4) [OF assms(1)] no_wrap_64, of addr] assms(2) cm_fresh_sizes(2) [OF assms(1)]
    by (simp add: ram_size_def)
  moreover have "mem_read (bytes_of_words fs) 0 64 = Ok (bytes_of_words fs)"
    using mem_read_all [of "bytes_of_words fs"] assms(3) by simp
  ultimately show ?thesis
    using assms cm_fresh_sizes(2) [OF assms(1)]
    by (simp add: load_mat_def load_main_ram_def update_res_def ram_write_def ram_check_bounds_def mem_write_def cm_fresh_upd)
qed

lemma write_scratch_ok:
  assumes "cm_fresh m k s" and "unat addr + 64 \<le> m" and "length fs = 16"
  defines "s' \<equiv> s\<lparr>e_scratchpad := (e_scratchpad s)\<lparr>sram_data := splice_at (unat addr) (bytes_of_words fs) (sram_data (e_scratchpad s))\<rparr>\<rparr>"
  shows "write_scratch addr (bytes_of_words fs) s = (Ok (), s') \<and> cm_fresh m k s'"
proof -
  have "\<not> ucast addr + 64 > sram_size (e_scratchpad s)"
    using bounds_iff [OF cm_fresh_sizes(3) [OF assms(1)] no_wrap_64, of addr] assms(2) cm_fresh_sizes(1) [OF assms(1)]
    by (simp add: sram_size_def)
  moreover have "mem_read (bytes_of_words fs) 0 64 = Ok (bytes_of_words fs)"
    using mem_read_all [of "bytes_of_words fs"] assms(3) by simp
  ultimately show ?thesis
    using assms cm_fresh_sizes(1) [OF assms(1)]
    by (simp add: write_scratch_def update_res_def sram_write_bytes_def sram_check_bounds_def mem_write_def cm_fresh_upd)
qed

lemma load_words_ok:
  assumes "cm_fresh m k s" and "4 * length ws \<le> m" and "4 * length ws \<le> 128"
  defines "s' \<equiv> s\<lparr>e_scratchpad := (e_scratchpad s)\<lparr>sram_data := splice_at 0 (bytes_of_words ws) (sram_data (e_scratchpad s))\<rparr>,
     e_block_cache := bc_clear (e_block_cache s)\<rparr>"
  shows "load_program ws (of_nat (length ws)) s = (Ok (), s') \<and> cm_fresh m k s'"
proof -
  let ?n = "of_nat (length ws) * 4 :: size_t"
  have n: "unat ?n = 4 * length ws"
    using assms(3) by (simp add: unat_word_ariths unat_of_nat take_bit_nat_eq_self)
  have "\<not> ?n > sram_size (e_scratchpad s)"
    using cm_fresh_sizes(1) [OF assms(1)] unat_size_u64 [OF cm_fresh_sizes(3) [OF assms(1)]] assms(2)
    by (simp add: sram_size_def word_less_nat_alt n)
  moreover have "\<not> TEXT_SIZE < ?n" using assms(3) by (simp add: word_less_nat_alt n TEXT_SIZE_def)
  moreover have "mem_read (bytes_of_words ws) 0 (unat ?n) = Ok (bytes_of_words ws)"
    using mem_read_all [of "bytes_of_words ws"] by (simp add: n)
  ultimately show ?thesis
    using assms cm_fresh_sizes(1) [OF assms(1)] cm_fresh_upd(3) [OF cm_fresh_upd(1)]
    by (simp add: load_program_def load_program_bytes_def TEXT_BASE_def bind_def update_res_def sram_load_def
        sram_check_bounds_def mem_write_def cm_fresh_upd)
qed

text \<open>A program of at most 32 words that the symbolic execution runs to its \<open>HALT\<close> runs on the machine.\<close>

lemma loaded_runs:
  assumes "cm_fresh m k s" and "128 \<le> m" and "4 * length ws \<le> 128"
    and "take (4 * length ws) (sram_data (e_scratchpad s)) = bytes_of_words ws" and "blocks (e_block_cache s) = Map.empty"
    and "rom_run (h_fpu h) 128 ws n (arch_of s) = Some B"
  shows "\<exists>s'. (if use_fast then run_fast h n s else run h n s) = Some (Ok (), s') \<and> arch_of s' = B \<and> emu_inv m k s'"
proof (rule rom_run_both [OF _ _ _ _ _ assms(6)])
  show "fast_ok m k s" "breakpoints (e_debugger s) = {}" using assms(1) by (simp_all add: cm_fresh_def)
  show "holds_text 128 ws (arch_of s)"
    using assms(2-4) cm_fresh_sizes(1) [OF assms(1)] by (simp add: holds_text_def MMIO_BASE_def)
  show "text_region 128 m" using assms(2) by (simp add: text_region_def MMIO_BASE_def)
  show "cache_ok 128 s (e_block_cache s)"
    using assms(5) by (simp add: cache_ok_def coherent_def cached_def bc_find_def)
qed

lemma cm_fresh_vr: "cm_fresh m k s \<Longrightarrow> length (vrs (vr (e_regs s)) 3) = 16"
  using wf_vrs_nth [OF wf_regs_vrs, of "e_regs s" 3] by (simp add: cm_fresh_def fast_ok_def inv_defs vrs_def)

lemma cm_setup_ok:
  assumes "cm_fresh m k s" and "0x1080 \<le> m" and "0x80 \<le> k" and "length a = 16" and "length b = 16"
  shows "\<exists>s1. cm_setup (Some a) (Some b) s = (Ok (), s1) \<and> cm_fresh m k s1
     \<and> take 88 (sram_data (e_scratchpad s1)) = bytes_of_words iteration
     \<and> slice 0 64 (ram_data (e_main_ram s1)) = bytes_of_words a \<and> slice 64 64 (ram_data (e_main_ram s1)) = bytes_of_words b
     \<and> blocks (e_block_cache s1) = Map.empty"
proof -
  note len = cm_fresh_sizes(1,2) [OF assms(1)]
  from load_words_ok [OF assms(1), of iteration] assms(2) obtain s1 where s1: "load_program iteration 22 s = (Ok (), s1)" "cm_fresh m k s1"
    "sram_data (e_scratchpad s1) = splice_at 0 (bytes_of_words iteration) (sram_data (e_scratchpad s))"
    "blocks (e_block_cache s1) = Map.empty" by (simp add: bc_clear_def iteration_words)
  from load_mat_ok [OF s1(2), of 0 a] assms(3,4) obtain s2 where s2: "load_mat 0 (Some a) s1 = (Ok (), s2)" "cm_fresh m k s2"
    "ram_data (e_main_ram s2) = splice_at 0 (bytes_of_words a) (ram_data (e_main_ram s1))"
    "e_scratchpad s2 = e_scratchpad s1" "e_block_cache s2 = e_block_cache s1" by simp
  from load_mat_ok [OF s2(2), of "0x40" b] assms(3,5) obtain s3 where s3: "load_mat 0x40 (Some b) s2 = (Ok (), s3)" "cm_fresh m k s3"
    "ram_data (e_main_ram s3) = splice_at 64 (bytes_of_words b) (ram_data (e_main_ram s2))"
    "e_scratchpad s3 = e_scratchpad s2" "e_block_cache s3 = e_block_cache s2" by simp
  from write_scratch_ok [OF s3(2), of "0x1000" a] assms(2,4) obtain s4 where
    s4: "write_scratch 0x1000 (bytes_of_words a) s3 = (Ok (), s4)" "cm_fresh m k s4"
    "sram_data (e_scratchpad s4) = splice_at 0x1000 (bytes_of_words a) (sram_data (e_scratchpad s3))"
    "e_main_ram s4 = e_main_ram s3" "e_block_cache s4 = e_block_cache s3" by simp
  from write_scratch_ok [OF s4(2), of "0x1040" b] assms(2,5) obtain s5 where
    s5: "write_scratch 0x1040 (bytes_of_words b) s4 = (Ok (), s5)" "cm_fresh m k s5"
    "sram_data (e_scratchpad s5) = splice_at 0x1040 (bytes_of_words b) (sram_data (e_scratchpad s4))"
    "e_main_ram s5 = e_main_ram s4" "e_block_cache s5 = e_block_cache s4" by simp
  have "cm_setup (Some a) (Some b) s = (Ok (), s5)"
    using s1(1) s2(1) s3(1) s4(1) s5(1) by (simp add: cm_setup_def Let_def mat_bytes_def iteration_words bind_def)
  moreover have "take 88 (sram_data (e_scratchpad s5)) = bytes_of_words iteration"
    using s1(3) s2(4) s3(4) s4(3) s5(3) len assms(2) by (simp add: take_splice_at iteration_words) (simp add: splice_at_def iteration_words)
  moreover have "slice 0 64 (ram_data (e_main_ram s5)) = bytes_of_words a" "slice 64 64 (ram_data (e_main_ram s5)) = bytes_of_words b"
    using s2(3) s3(3) s4(4) s5(4) cm_fresh_sizes(2) [OF s1(2)] assms(3-5)
      slice_splice_at_same [of 0 "bytes_of_words a" "ram_data (e_main_ram s1)"]
      slice_splice_at_same [of 64 "bytes_of_words b" "ram_data (e_main_ram s2)"]
      slice_splice_at_disjoint [where off = 64 and src = "bytes_of_words b" and xs = "ram_data (e_main_ram s2)" and a = 0 and n = 64]
    by simp_all
  ultimately show ?thesis using s5(2,5) s4(5) s3(5) s2(5) s1(4) by auto
qed

lemma cm_iteration_ok:
  assumes "cm_fresh m k s" and "0x1080 \<le> m" and "0x80 \<le> k" and "length a = 16" and "length b = 16"
  shows "\<exists>s1 s2. cm_setup (Some a) (Some b) s = (Ok (), s1)
     \<and> (if use_fast then run_fast h 34 s1 else run h 34 s1) = Some (Ok (), s2)
     \<and> emu_inv m k s2 \<and> halt (e_regs s2) \<and> gpr (e_regs s2) ! 3 = 15
     \<and> slice 0x1000 64 (sram_data (e_scratchpad s2)) = bytes_of_words (product (h_fpu h) a b)"
proof -
  from cm_setup_ok [OF assms] obtain s1 where s1: "cm_setup (Some a) (Some b) s = (Ok (), s1)" "cm_fresh m k s1"
    "take 88 (sram_data (e_scratchpad s1)) = bytes_of_words iteration"
    "slice 0 64 (ram_data (e_main_ram s1)) = bytes_of_words a" "slice 64 64 (ram_data (e_main_ram s1)) = bytes_of_words b"
    "blocks (e_block_cache s1) = Map.empty" by blast
  note sz = cm_fresh_sizes [OF s1(2)]
  from iteration_runs [of "sram_data (e_scratchpad s1)" "ram_data (e_main_ram s1)" "vrs (vr (e_regs s1))" "h_fpu h"
      "gprs (gpr (e_regs s1))" "flags_of (status (e_regs s1))"] cm_fresh_vr [OF s1(2)] sz assms(2,3) s1(2,4,5)
  obtain B where B: "rom_run (h_fpu h) 128 iteration 34 (arch_of s1) = Some B" "a_halt B" "a_gpr B 3 = 15"
    "slice 0x1000 64 (a_mem B) = bytes_of_words (product (h_fpu h) a b)"
    by (auto simp: arch_of_def words_of_bytes_of_words cm_fresh_def)
  from loaded_runs [OF s1(2) _ _ _ s1(6) B(1)] s1(3) assms(2) obtain s2 where
    s2: "(if use_fast then run_fast h 34 s1 else run h 34 s1) = Some (Ok (), s2)" "arch_of s2 = B" "emu_inv m k s2"
    by (auto simp: iteration_words)
  have "gpr (e_regs s2) ! 3 = a_gpr (arch_of s2) 3" by (simp add: arch_of_def gprs_def)
  with s1(1) s2 B(2-4) show ?thesis by auto
qed

section \<open>Properties\<close>

text \<open>
  C6. The benchmark program computes what its comments say, on every host: on a new or reset
  machine with a scratchpad of at least 4224 bytes and a main memory of at least 128, setting up
  an iteration with any two matrices succeeds, and both the interpreter and the fast path then
  run the program to its \<open>HALT\<close> in at most 34 instructions, leaving the sum \<open>15\<close> in \<open>r3\<close> and
  the product of the two matrices, in the arithmetic of the host's floating-point unit, in the
  first buffer.
\<close>

theorem coremark_iteration_correct:
  assumes "cm_fresh m k s" and "0x1080 \<le> m" and "0x80 \<le> k" and "length a = 16" and "length b = 16"
  shows "\<exists>s1 s2. cm_setup (Some a) (Some b) s = (Ok (), s1)
     \<and> (if use_fast then run_fast h 34 s1 else run h 34 s1) = Some (Ok (), s2)
     \<and> halt (e_regs s2) \<and> gpr (e_regs s2) ! 3 = 15
     \<and> slice 0x1000 64 (sram_data (e_scratchpad s2)) = bytes_of_words (product (h_fpu h) a b)"
  using cm_iteration_ok [OF assms] by blast

lemma cm_fresh_new: "cm_fresh (unat m) (unat k) (emu_new m k)"
  using emu_inv_new [of m k]
  by (simp add: cm_fresh_def fast_ok_def quiet_def emu_new_def mmu_init_def csr_mstatus_mie_def csr_mtvec_def
      csr_read_def csr_reset_def csr_addrs debugger_init_def regs_init_def)

theorem coremark_iteration_correct_witness:
  "\<exists>s1 s2. cm_setup (Some (replicate 16 1)) (Some (replicate 16 2)) (emu_new 0x2000 0x100) = (Ok (), s1)
     \<and> run demo_host 34 s1 = Some (Ok (), s2) \<and> halt (e_regs s2) \<and> gpr (e_regs s2) ! 3 = 15
     \<and> slice 0x1000 64 (sram_data (e_scratchpad s2)) = bytes_of_words (replicate 16 8)"
proof -
  have "product (h_fpu demo_host) (replicate 16 1) (replicate 16 2) = replicate 16 8" by code_simp
  then show ?thesis
    using coremark_iteration_correct [OF cm_fresh_new [of "0x2000" "0x100"], of "replicate 16 1" "replicate 16 2" False demo_host]
    by simp
qed

lemma cm_check_ok:
  assumes "emu_inv m k s" and "0x1080 \<le> m" and "halt (e_regs s)" and "gpr (e_regs s) ! 3 = 15"
  shows "\<exists>c n. cm_check (cyc, ins, True, True) s = (Ok (c, n, True, True), s)"
proof -
  have "rd_gpr 3 s = (Ok 15, s)"
    using rd_gpr_arch [OF inv_parts(1) [OF assms(1)], of 3] assms(4) by (simp add: gpr_ok_def arch_of_def gprs_def)
  moreover have "\<not> ucast (0x1000 :: u32) + 64 > sram_size (e_scratchpad s)"
    using bounds_iff [OF inv_parts(5) [OF assms(1)] no_wrap_64, of "0x1000"] assms(1,2) by (simp add: sram_size_def inv_defs)
  ultimately show ?thesis
    using assms by (simp add: cm_check_def bind_def sram_read_bytes_def sram_check_bounds_def mem_read_def inv_defs)
qed

text \<open>
  The benchmark passes: for every number of iterations, in both modes, \<open>coremark::run\<close> on a new
  or reset machine of sufficient size returns, without an exception, a result in which the
  list, matrix and CRC checks are all set.
\<close>

lemma coremark_passes:
  assumes "cm_fresh m k s" and "0x1080 \<le> m" and "0x80 \<le> k" and "length a = 16" and "length b = 16"
  shows "\<exists>r s'. coremark_run h 34 n use_fast (Some a) (Some b) s = Some (Ok r, s')
     \<and> cm_iterations r = n \<and> cm_list_ok r \<and> cm_matrix_ok r \<and> cm_crc_ok r
     \<and> cm_target_name r = target_name (e_target s)"
proof -
  have loop: "\<exists>c i s'. cm_loop h 34 use_fast (Some a) (Some b) j (cyc, ins, True, True) s = Some (Ok (c, i, True, True), s')"
    if "cm_fresh m k s" for j cyc ins s
    using that
  proof (induction j arbitrary: cyc ins s)
    case (Suc j)
    from cm_iteration_ok [OF Suc.prems assms(2-5), of use_fast h] obtain s1 s2 where
      it: "cm_setup (Some a) (Some b) s = (Ok (), s1)" "(if use_fast then run_fast h 34 s1 else run h 34 s1) = Some (Ok (), s2)"
      "emu_inv m k s2" "halt (e_regs s2)" "gpr (e_regs s2) ! 3 = 15" by blast
    from cm_check_ok [OF it(3) assms(2) it(4,5), of cyc ins] obtain c i where
      "cm_check (cyc, ins, True, True) s2 = (Ok (c, i, True, True), s2)" by blast
    with it Suc.IH [OF cm_fresh_reset [OF it(3)], of c i] show ?case by simp
  qed simp
  from load_mat_ok [OF assms(1), of 0 a] assms(3,4) obtain s1 where s1: "load_mat 0 (Some a) s = (Ok (), s1)" "cm_fresh m k s1"
    by simp
  from load_mat_ok [OF this(2), of "0x40" b] assms(3,5) obtain s2 where "load_mat 0x40 (Some b) s1 = (Ok (), s2)" "cm_fresh m k s2"
    by simp
  with s1 loop [OF this(2), of "unat n" 0 0] show ?thesis by (auto simp: coremark_run_def bind_def)
qed

end
