(* ===== verification/Regex.thy ===== *)
theory Regex
  imports Decoder
begin

text \<open>
  What the frontends use of the C++ and C libraries to read text: \<^verbatim>\<open>std::regex_search\<close> with the
  ECMAScript grammar and \<^verbatim>\<open>sscanf\<close>. Every expression of \<^verbatim>\<open>src/frontend.cpp\<close> is a
  sequence of single characters, repeated character classes, one-or-more groups and a group of
  two alternative words; the matcher tries the repetitions greedily, longest first, and backtracks,
  at every start position from the left.

  The matcher is proved against a declarative relation of what an expression matches: it finds a
  match exactly when some part of the text matches, and then one that starts leftmost.
\<close>

section \<open>Expressions\<close>

text \<open>
  \<open>One p\<close> is a literal character or class, \<open>Many p\<close> a class followed by a star, \<open>Group p\<close> a
  captured class followed by a plus, \<open>Either a b\<close> a captured alternative of two words.
\<close>

datatype re = One "char \<Rightarrow> bool" | Many "char \<Rightarrow> bool" | Group "char \<Rightarrow> bool" | Either string string

fun first_some :: "('a \<Rightarrow> 'b option) \<Rightarrow> 'a list \<Rightarrow> 'b option" where
  "first_some f [] = None"
| "first_some f (x # xs) = (case f x of Some y \<Rightarrow> Some y | None \<Rightarrow> first_some f xs)"

text \<open>The lengths a repetition may take, the longest first.\<close>

definition down :: "nat \<Rightarrow> (char \<Rightarrow> bool) \<Rightarrow> string \<Rightarrow> nat list" where
  "down least p cs = rev [least..<Suc (length (takeWhile p cs))]"

text \<open>A match at the front of the text: the groups it captures.\<close>

primrec rmatch :: "re list \<Rightarrow> string \<Rightarrow> string list option" where
  "rmatch [] cs = Some []"
| "rmatch (x # r) cs = (case x of
     One p \<Rightarrow> (case cs of [] \<Rightarrow> None | c # cs' \<Rightarrow> if p c then rmatch r cs' else None)
   | Many p \<Rightarrow> first_some (\<lambda>n. rmatch r (drop n cs)) (down 0 p cs)
   | Group p \<Rightarrow> first_some (\<lambda>n. map_option ((#) (take n cs)) (rmatch r (drop n cs))) (down 1 p cs)
   | Either a b \<Rightarrow> first_some (\<lambda>w. if prefix w cs then map_option ((#) w) (rmatch r (drop (length w) cs)) else None) [a, b])"

fun regex_search :: "re list \<Rightarrow> string \<Rightarrow> string list option" where
  "regex_search r [] = rmatch r []"
| "regex_search r (c # cs) = (case rmatch r (c # cs) of Some g \<Rightarrow> Some g | None \<Rightarrow> regex_search r cs)"

text \<open>Literal text, with and without regard to case, and the classes of the expressions.\<close>

definition lit :: "string \<Rightarrow> re list" where
  "lit s = map (\<lambda>c. One (\<lambda>x. x = c)) s"

definition lit_icase :: "string \<Rightarrow> re list" where
  "lit_icase s = map (\<lambda>c. One (\<lambda>x. tolower x = tolower c)) s"

definition is_space :: "char \<Rightarrow> bool" where
  "is_space c \<longleftrightarrow> c = CHR '' '' \<or> 9 \<le> (of_char c :: nat) \<and> (of_char c :: nat) \<le> 13"

definition is_digit :: "char \<Rightarrow> bool" where
  "is_digit c \<longleftrightarrow> 48 \<le> (of_char c :: nat) \<and> (of_char c :: nat) \<le> 57"

definition is_word_char :: "char \<Rightarrow> bool" where
  "is_word_char c \<longleftrightarrow> is_digit c \<or> c = CHR ''_''
     \<or> 65 \<le> (of_char c :: nat) \<and> (of_char c :: nat) \<le> 90 \<or> 97 \<le> (of_char c :: nat) \<and> (of_char c :: nat) \<le> 122"

text \<open>The dot does not match line terminators.\<close>

definition is_dot :: "char \<Rightarrow> bool" where
  "is_dot c \<longleftrightarrow> c \<noteq> CHR 0x0A \<and> c \<noteq> CHR 0x0D"

definition many1 :: "(char \<Rightarrow> bool) \<Rightarrow> re list" where
  "many1 p = [One p, Many p]"

section \<open>\<open>sscanf\<close>\<close>

datatype fmt = Lch char | Ws | Dec

fun fmt_of :: "string \<Rightarrow> fmt list" where
  "fmt_of [] = []"
| "fmt_of (c # s) = (if c = CHR ''%'' \<and> prefix ''d'' s then Dec # fmt_of (drop 1 s)
     else (if is_space c then Ws else Lch c) # fmt_of s)"

definition digits_val :: "string \<Rightarrow> nat" where
  "digits_val ds = foldl (\<lambda>n c. n * 10 + (of_char c - 48)) 0 ds"

text \<open>A decimal integer with an optional sign; \<open>None\<close> when there is no digit.\<close>

definition scan_int :: "string \<Rightarrow> (int \<times> string) option" where
  "scan_int s = (let (neg, t) = (case s of c # t \<Rightarrow> if c = CHR ''-'' then (True, t)
         else if c = CHR ''+'' then (False, t) else (False, s) | [] \<Rightarrow> (False, s));
       ds = takeWhile is_digit t
     in if ds = [] then None
        else Some ((if neg then - int (digits_val ds) else int (digits_val ds)), dropWhile is_digit t))"

text \<open>The values converted before the first directive that fails; their number is what \<open>sscanf\<close> returns.\<close>

fun sscanf :: "fmt list \<Rightarrow> string \<Rightarrow> int list" where
  "sscanf [] s = []"
| "sscanf (Ws # f) s = sscanf f (dropWhile is_space s)"
| "sscanf (Lch c # f) s = (case s of [] \<Rightarrow> [] | x # s' \<Rightarrow> if x = c then sscanf f s' else [])"
| "sscanf (Dec # f) s = (case scan_int (dropWhile is_space s) of None \<Rightarrow> [] | Some (v, s') \<Rightarrow> v # sscanf f s')"

section \<open>What an expression matches\<close>

inductive matches :: "re list \<Rightarrow> string \<Rightarrow> string list \<Rightarrow> bool" where
  Nil: "matches [] [] []"
| One: "p c \<Longrightarrow> matches r s g \<Longrightarrow> matches (One p # r) (c # s) g"
| Many: "list_all p w \<Longrightarrow> matches r s g \<Longrightarrow> matches (Many p # r) (w @ s) g"
| Group: "list_all p w \<Longrightarrow> w \<noteq> [] \<Longrightarrow> matches r s g \<Longrightarrow> matches (Group p # r) (w @ s) (w # g)"
| Either: "w = a \<or> w = b \<Longrightarrow> matches r s g \<Longrightarrow> matches (Either a b # r) (w @ s) (w # g)"

inductive_cases matches_cases:
  "matches [] s g" "matches (One p # r) s g" "matches (Many p # r) s g" "matches (Group p # r) s g"
  "matches (Either a b # r) s g"

lemma first_some_Some: "first_some f xs = Some y \<Longrightarrow> \<exists>x \<in> set xs. f x = Some y"
  by (induction xs) (auto split: option.splits)

lemma first_some_None: "first_some f xs = None \<longleftrightarrow> (\<forall>x \<in> set xs. f x = None)"
  by (induction xs) (auto split: option.splits)

lemma down_take: "n \<in> set (down least p cs) \<Longrightarrow> list_all p (take n cs) \<and> least \<le> n \<and> n \<le> length cs"
proof -
  assume "n \<in> set (down least p cs)"
  then have n: "least \<le> n" "n \<le> length (takeWhile p cs)" by (auto simp: down_def)
  then have "take n cs = take n (takeWhile p cs)"
    by (metis min.absorb1 take_take takeWhile_eq_take)
  moreover have "list_all p (takeWhile p cs)" by (auto simp: list_all_iff dest: set_takeWhileD)
  ultimately have "list_all p (take n cs)" by (metis list_all_append append_take_drop_id)
  with n length_takeWhile_le [of p cs] show ?thesis by linarith
qed

lemma down_prefix: "list_all p w \<Longrightarrow> least \<le> length w \<Longrightarrow> length w \<in> set (down least p (w @ s))"
  by (auto simp: down_def takeWhile_append2 list_all_iff)

lemma rmatch_sound: "rmatch r cs = Some g \<Longrightarrow> \<exists>w s. cs = w @ s \<and> matches r w g"
proof (induction r arbitrary: cs g)
  case Nil
  then show ?case by (auto intro: matches.Nil)
next
  case (Cons x r)
  show ?case
  proof (cases x)
    case (One p)
    with Cons.prems obtain c cs' where "cs = c # cs'" "p c" "rmatch r cs' = Some g"
      by (auto split: list.splits if_splits)
    with Cons.IH One show ?thesis by (metis append_Cons matches.One)
  next
    case (Many p)
    with Cons.prems obtain n where n: "n \<in> set (down 0 p cs)" "rmatch r (drop n cs) = Some g"
      by (auto dest!: first_some_Some)
    with Cons.IH obtain w s where "drop n cs = w @ s" "matches r w g" by blast
    with down_take [OF n(1)] Many show ?thesis
      by (metis append_assoc append_take_drop_id matches.Many)
  next
    case (Group p)
    with Cons.prems obtain n h where n: "n \<in> set (down 1 p cs)" "rmatch r (drop n cs) = Some h" "g = take n cs # h"
      by (auto dest!: first_some_Some)
    with Cons.IH obtain w s where "drop n cs = w @ s" "matches r w h" by blast
    moreover have "take n cs \<noteq> []" using down_take [OF n(1)] by auto
    ultimately show ?thesis using down_take [OF n(1)] Group n(3)
      by (metis append_assoc append_take_drop_id matches.Group)
  next
    case (Either a b)
    with Cons.prems obtain v h where v: "v = a \<or> v = b" "prefix v cs" "rmatch r (drop (length v) cs) = Some h" "g = v # h"
      by (auto split: option.splits if_splits)
    with Cons.IH obtain w s where "drop (length v) cs = w @ s" "matches r w h" by blast
    moreover from v(2) this(1) have "cs = (v @ w) @ s" by (auto simp: prefix_def)
    ultimately show ?thesis using v(1,4) Either by (blast intro: matches.Either)
  qed
qed

lemma rmatch_complete: "matches r w g \<Longrightarrow> rmatch r (w @ s) \<noteq> None"
proof (induction r w g arbitrary: s rule: matches.induct)
  case (Many p w r t g)
  then have "length w \<in> set (down 0 p (w @ t @ s))" by (simp add: down_prefix)
  with Many.IH [of s] show ?case by (auto simp: first_some_None simp del: not_None_eq intro!: bexI [of _ "length w"])
next
  case (Group p w r t g)
  then have "length w \<in> set (down 1 p (w @ t @ s))" by (simp add: down_prefix Suc_le_eq)
  with Group.IH [of s] show ?case by (auto simp: first_some_None simp del: not_None_eq intro!: bexI [of _ "length w"])
next
  case (Either w a b r t g)
  from Either.IH [of s] obtain h where "rmatch r (t @ s) = Some h" by auto
  with Either.hyps(1) show ?case by (auto split: option.split)
qed auto

lemma regex_search_None:
  "regex_search r cs = None \<longleftrightarrow> \<not> (\<exists>pre w post g. cs = pre @ w @ post \<and> matches r w g)"
proof (induction cs)
  case Nil
  show ?case using rmatch_sound [of r "[]"] rmatch_complete [of r "[]" _ "[]"] by fastforce
next
  case (Cons c cs)
  show ?case
  proof
    assume n: "regex_search r (c # cs) = None"
    then have "rmatch r (c # cs) = None" "regex_search r cs = None" by (auto split: option.splits)
    with Cons.IH rmatch_complete show "\<not> (\<exists>pre w post g. c # cs = pre @ w @ post \<and> matches r w g)"
      by (metis append_Cons append_Nil list.sel(3) list.exhaust)
  next
    assume n: "\<not> (\<exists>pre w post g. c # cs = pre @ w @ post \<and> matches r w g)"
    then have "regex_search r cs = None" using Cons.IH by (metis append_Cons)
    moreover have "rmatch r (c # cs) = None" using n rmatch_sound by (metis append_Nil not_None_eq)
    ultimately show "regex_search r (c # cs) = None" by simp
  qed
qed

lemma regex_search_Some:
  assumes "regex_search r cs = Some g"
  shows "\<exists>pre w post. cs = pre @ w @ post \<and> matches r w g
     \<and> (\<forall>pre' w' post' g'. cs = pre' @ w' @ post' \<and> matches r w' g' \<longrightarrow> length pre \<le> length pre')"
  using assms
proof (induction cs)
  case Nil
  then show ?case using rmatch_sound [of r "[]" g] by auto
next
  case (Cons c cs)
  show ?case
  proof (cases "rmatch r (c # cs)")
    case (Some h)
    with Cons.prems rmatch_sound [OF Some] show ?thesis
      by (metis append_Nil le0 list.size(3) option.inject option.simps(5) regex_search.simps(2))
  next
    case None
    with Cons obtain pre w post where w: "cs = pre @ w @ post" "matches r w g"
      "\<forall>pre' w' post' g'. cs = pre' @ w' @ post' \<and> matches r w' g' \<longrightarrow> length pre \<le> length pre'" by auto
    have "length (c # pre) \<le> length pre'" if "c # cs = pre' @ w' @ post' \<and> matches r w' g'" for pre' w' post' g'
    proof (cases pre')
      case Nil
      with that None rmatch_complete [of r w' g' post'] show ?thesis by simp
    next
      case (Cons d ds)
      with that w(3) show ?thesis by auto
    qed
    with w(1,2) show ?thesis by (metis append_Cons)
  qed
qed

text \<open>The relation on the parts of an expression.\<close>

lemma matches_One: "matches (One p # r) s g \<longleftrightarrow> (\<exists>x s'. s = x # s' \<and> p x \<and> matches r s' g)"
  by (auto elim: matches_cases intro: matches.One)

lemma matches_Many: "matches (Many p # r) s g \<longleftrightarrow> (\<exists>u v. s = u @ v \<and> list_all p u \<and> matches r v g)"
  by (auto elim!: matches_cases intro: matches.Many)

lemma matches_Group: "matches [Group p] s g \<longleftrightarrow> s \<noteq> [] \<and> list_all p s \<and> g = [s]"
  using matches.Group [of p s "[]" "[]" "[]"] by (auto elim!: matches_cases intro: matches.Nil)

lemma matches_lit_icase:
  "matches (lit_icase t @ r) s g \<longleftrightarrow> (\<exists>u v. s = u @ v \<and> map tolower u = map tolower t \<and> matches r v g)"
proof (induction t arbitrary: s)
  case (Cons c t)
  have "matches (lit_icase (c # t) @ r) s g \<longleftrightarrow> (\<exists>x s'. s = x # s' \<and> tolower x = tolower c \<and> matches (lit_icase t @ r) s' g)"
    by (simp add: lit_icase_def matches_One)
  also have "\<dots> \<longleftrightarrow> (\<exists>x u v. s = (x # u) @ v \<and> map tolower (x # u) = map tolower (c # t) \<and> matches r v g)"
    unfolding Cons.IH by auto
  also have "\<dots> \<longleftrightarrow> (\<exists>u v. s = u @ v \<and> map tolower u = map tolower (c # t) \<and> matches r v g)"
    by (metis (no_types) list.map_disc_iff list.distinct(1) neq_Nil_conv)
  finally show ?case .
qed (simp add: lit_icase_def)

end
