(* ===== verification/Frontend.thy ===== *)
theory Frontend
  imports Regex Target Format
begin

text \<open>
  The source frontends of \<^verbatim>\<open>include/aiasm/frontend.h\<close> and \<^verbatim>\<open>src/frontend.cpp\<close>: annotated C++,
  SystemVerilog and Chisel sources and the small guest assembler, each lowered to a program of
  guest instructions with a target profile and a diagnostic.

  A load returns a result, throws a standard exception (\<open>std::stoi\<close> on a number beyond \<open>int\<close>) or
  is undefined (\<open>sscanf\<close> on such a number); the stack that \<open>std::regex\<close> needs is not modelled. Reading the file is the argument of \<open>frontend_load\<close>.

  The theorems: every accepted source gives a program that ends in \<open>HALT\<close>; which lines the
  annotation expression recognises; programs lowered from annotations name registers that exist;
  the guest assembler drops every \<open>movi\<close>.
\<close>

section \<open>Results\<close>

datatype source_kind = KUnknown | KCpp | KSystemVerilog | KChisel | KGuestAsm

record load_result =
  fe_program :: "u32 list"
  fe_target :: target_profile
  fe_diag :: string
  fe_kind :: source_kind
  fe_ok :: bool

definition load_result_init :: load_result where
  "load_result_init = \<lparr>fe_program = [], fe_target = make_asic_profile, fe_diag = [], fe_kind = KUnknown, fe_ok = False\<rparr>"

datatype 'a loaded = Loaded 'a | OutOfRange | ScanUndefined

fun bind_loaded :: "'a loaded \<Rightarrow> ('a \<Rightarrow> 'b loaded) \<Rightarrow> 'b loaded" where
  "bind_loaded (Loaded a) f = f a"
| "bind_loaded OutOfRange f = OutOfRange"
| "bind_loaded ScanUndefined f = ScanUndefined"

fun kind_name :: "source_kind \<Rightarrow> string" where
  "kind_name KCpp = ''C++''"
| "kind_name KSystemVerilog = ''SystemVerilog''"
| "kind_name KChisel = ''Chisel''"
| "kind_name KGuestAsm = ''GuestAsm''"
| "kind_name KUnknown = ''Unknown''"

text \<open>\<open>std::filesystem::path::extension\<close>: from the last dot of the file name, unless that dot is its first character.\<close>

definition path_extension :: "string \<Rightarrow> string" where
  "path_extension p =
    (let file = rev (takeWhile (\<lambda>c. c \<noteq> CHR ''/'') (rev p));
         stem = rev (drop 1 (dropWhile (\<lambda>c. c \<noteq> CHR ''.'') (rev file)))
     in if file = ''..'' \<or> CHR ''.'' \<notin> set file \<or> stem = [] then [] else drop (length stem) file)"

definition kind_from_extension :: "string \<Rightarrow> source_kind" where
  "kind_from_extension p =
    (let ext = map tolower (path_extension p) in
     if ext \<in> {''.cpp'', ''.cc'', ''.c'', ''.hpp'', ''.h''} then KCpp
     else if ext \<in> {''.sv'', ''.v'', ''.svh''} then KSystemVerilog
     else if ext \<in> {''.scala'', ''.sc''} then KChisel
     else if ext \<in> {''.asm'', ''.s''} then KGuestAsm
     else KUnknown)"

text \<open>The arrow of the diagnostics, in UTF-8.\<close>

definition arrow :: string where
  "arrow = [CHR '' '', CHR 0xE2, CHR 0x86, CHR 0x92, CHR '' '']"

section \<open>The C++ frontend\<close>

definition re_novium :: "re list" where
  "re_novium = lit_icase ''//'' @ [Many is_space] @ lit_icase ''novium:'' @ [Many is_space, Group is_dot]"

text \<open>The instruction for an annotation, in lower case.\<close>

definition lower_annotation :: "string \<Rightarrow> u32 option" where
  "lower_annotation low =
    (if sublist ''vec_add'' low then Some (enc_vec_add 2 0 1)
     else if sublist ''matmul'' low then Some (enc_matmul_tile 3 0 1 4)
     else if sublist ''dma_load'' low then Some (enc_dma_load 5 7 64)
     else if sublist ''dma_store'' low then Some (enc_dma_store 9 5 64)
     else if sublist ''halt'' low then Some enc_halt
     else None)"

definition cpp_line :: "string \<Rightarrow> u32 list \<times> bool \<Rightarrow> u32 list \<times> bool" where
  "cpp_line line acc = (case regex_search re_novium line of
     Some [cmd] \<Rightarrow> (case lower_annotation (map tolower cmd) of
         Some w \<Rightarrow> (fst acc @ [w], True)
       | None \<Rightarrow> acc)
   | _ \<Rightarrow> acc)"

definition kernel_program :: "u32 list" where
  "kernel_program = [enc_load_vr 0 5 0, enc_load_vr 1 6 0, enc_vec_add 2 0 1, enc_matmul_tile 3 0 1 4,
     enc_store_vr 3 5 0, enc_halt]"

definition cpp_demo_program :: "u32 list" where
  "cpp_demo_program = [
     enc_movi 1 0, enc_movi 2 5, enc_movi 4 1, enc_movi 3 0,
     enc_add 1 1 4, enc_add 3 3 1, enc_bne 1 2 (- 12),
     enc_movi 5 0x1000, enc_movi 6 0x1040, enc_movi 7 0, enc_movi 8 64,
     enc_dma_load 5 7 64, enc_dma_load 6 8 64,
     enc_load_vr 0 5 0, enc_load_vr 1 6 0, enc_vec_add 2 0 1, enc_matmul_tile 3 0 1 4, enc_store_vr 3 5 0,
     enc_halt]"

definition with_halt :: "u32 list \<Rightarrow> u32 list" where
  "with_halt ws = (if ends_in_halt ws then ws else ws @ [enc_halt])"

definition load_cpp :: "string \<Rightarrow> string \<Rightarrow> load_result" where
  "load_cpp src name =
    (let r = load_result_init\<lparr>fe_kind := KCpp, fe_target := make_cpu_profile\<lparr>target_name := ''cpp->cpu''\<rparr>\<rparr>;
         (prog, found) = fold cpp_line (getlines src) ([], False)
     in if (sublist ''novium::kernel'' src \<or> sublist ''novium kernel'' src) \<and> \<not> found
        then r\<lparr>fe_program := kernel_program,
               fe_diag := name @ '': C++ kernel pragma'' @ arrow @ ''vec_add+matmul lowered'', fe_ok := True\<rparr>
        else if found
        then let p = with_halt prog in
             r\<lparr>fe_program := p,
               fe_diag := name @ '': C++ novium: annotations lowered ('' @ fmt_u (length p) @ '' instrs)'', fe_ok := True\<rparr>
        else r\<lparr>fe_program := cpp_demo_program,
               fe_diag := name @ '': C++ (no novium: annotations)'' @ arrow @ ''demo program emitted'', fe_ok := True\<rparr>)"

section \<open>The hardware frontends\<close>

text \<open>\<open>std::stoi\<close> on digits.\<close>

definition stoi :: "string \<Rightarrow> nat loaded" where
  "stoi ds = (if digits_val ds \<le> 2147483647 then Loaded (digits_val ds) else OutOfRange)"

definition re_param :: "string \<Rightarrow> re list" where
  "re_param p = lit_icase ''parameter'' @ many1 is_space @ lit_icase p @ [Many is_space] @ lit_icase ''='' @ [Many is_space, Group is_digit]"

definition re_module :: "re list" where
  "re_module = lit ''module'' @ many1 is_space @ [Group is_word_char]"

text \<open>
  One \<open>if (std::regex_search(src, m, re))\<close> that reads a number and appends it to the
  diagnostic under a label; \<open>k\<close> is the group that holds it.
\<close>

definition read_number :: "re list \<Rightarrow> nat \<Rightarrow> string \<Rightarrow> (nat \<Rightarrow> target_profile \<Rightarrow> target_profile) \<Rightarrow> string
    \<Rightarrow> load_result \<Rightarrow> load_result loaded" where
  "read_number re k label upd src r = (case regex_search re src of
     None \<Rightarrow> Loaded r
   | Some g \<Rightarrow> bind_loaded (stoi (g ! k)) (\<lambda>n.
       Loaded (r\<lparr>fe_target := upd n (fe_target r), fe_diag := fe_diag r @ label @ g ! k\<rparr>)))"

definition read_name :: "re list \<Rightarrow> string \<Rightarrow> string \<Rightarrow> load_result \<Rightarrow> load_result" where
  "read_name re pre src r = (case regex_search re src of
     None \<Rightarrow> r | Some g \<Rightarrow> r\<lparr>fe_target := (fe_target r)\<lparr>target_name := pre @ g ! 0\<rparr>\<rparr>)"

definition asic_program :: "u32 list" where
  "asic_program = [enc_movi 5 0x1000, enc_movi 7 0, enc_dma_load 5 7 64, enc_load_vr 0 5 0, enc_load_vr 1 5 0,
     enc_vec_add 2 0 1, enc_matmul_tile 3 0 1 4, enc_store_vr 3 5 0, enc_halt]"

text \<open>The annotations as in C++, or the default program.\<close>

definition lower_body :: "string \<Rightarrow> string \<Rightarrow> u32 list \<Rightarrow> u32 list" where
  "lower_body src name dflt = (let p = fe_program (load_cpp src name) in
     if p \<noteq> [] \<and> length p > 1 then p else dflt)"

definition finish :: "string \<Rightarrow> string \<Rightarrow> u32 list \<Rightarrow> load_result \<Rightarrow> load_result" where
  "finish name lang prog r = r\<lparr>fe_program := prog,
     fe_diag := name @ '': '' @ lang @ arrow @ target_name (fe_target r) @ fe_diag r @ '' ('' @ fmt_u (length prog) @ '' instrs)'',
     fe_ok := True\<rparr>"

definition load_systemverilog :: "string \<Rightarrow> string \<Rightarrow> load_result loaded" where
  "load_systemverilog src name =
    (let r = load_result_init\<lparr>fe_kind := KSystemVerilog, fe_target := make_asic_profile\<lparr>target_name := ''sv->asic''\<rparr>\<rparr> in
     bind_loaded (read_number (re_param ''TILE'') 0 '' TILE='' (\<lambda>_ t. t) src r) (\<lambda>r.
     bind_loaded (read_number (re_param ''LANES'') 0 '' LANES='' (\<lambda>n t. t\<lparr>vector_lanes := of_nat n\<rparr>) src r) (\<lambda>r.
     bind_loaded (read_number (re_param ''BW'') 0 '' BW='' (\<lambda>n t. t\<lparr>dma_bandwidth := of_nat n\<rparr>) src r) (\<lambda>r.
       Loaded (finish name ''SystemVerilog'' (lower_body src name asic_program) (read_name re_module ''sv:'' src r))))))"

definition re_class :: "re list" where
  "re_class = lit ''class'' @ many1 is_space @ [Group is_word_char] @ many1 is_space @ lit ''extends'' @ many1 is_space @ lit ''Module''"

definition re_assign :: "string \<Rightarrow> string \<Rightarrow> re list" where
  "re_assign a b = [Either a b, Many is_space] @ lit ''='' @ [Many is_space, Group is_digit]"

definition chisel_program :: "u32 list" where
  "chisel_program = [enc_load_vr 0 5 0, enc_load_vr 1 6 0, enc_matmul_tile 3 0 1 4, enc_halt]"

text \<open>The tile size is copied to the diagnostic without being read as a number.\<close>

definition load_chisel :: "string \<Rightarrow> string \<Rightarrow> load_result loaded" where
  "load_chisel src name =
    (let r0 = load_result_init\<lparr>fe_kind := KChisel, fe_target := make_asic_profile\<lparr>target_name := ''chisel->asic''\<rparr>\<rparr>;
         r1 = read_name re_class ''chisel:'' src r0;
         r2 = (case regex_search (re_assign ''tileSize'' ''TILE'') src of
                 None \<Rightarrow> r1 | Some g \<Rightarrow> r1\<lparr>fe_diag := fe_diag r1 @ '' tile='' @ g ! 1\<rparr>) in
     bind_loaded (read_number (re_assign ''lanes'' ''LANES'') 1 '' lanes='' (\<lambda>n t. t\<lparr>vector_lanes := of_nat n\<rparr>) src r2) (\<lambda>r.
       Loaded (finish name ''Chisel'' (lower_body src name chisel_program) r)))"

section \<open>The guest assembler\<close>

text \<open>The comment marks are stripped before the mnemonics are read.\<close>

definition asm_text :: "string \<Rightarrow> string" where
  "asm_text line = trim_ws (takeWhile (\<lambda>c. c \<noteq> CHR ''#'') (strip_comment line))"

text \<open>\<open>sscanf\<close> reads the C string, up to the first null character, into objects of type \<open>int\<close>.\<close>

definition scanf_line :: "string \<Rightarrow> string \<Rightarrow> int list loaded" where
  "scanf_line f line = (let vs = sscanf (fmt_of f) (takeWhile (\<lambda>c. c \<noteq> CHR 0x00) line) in
     if list_all (\<lambda>v. - (2 ^ 31) \<le> v \<and> v < 2 ^ 31) vs then Loaded vs else ScanUndefined)"

definition asm_line :: "string \<Rightarrow> u32 list \<Rightarrow> u32 list loaded" where
  "asm_line line0 prog =
    (let line = asm_text line0; low = map tolower line in
     if line = [] then Loaded prog
     else if prefix ''halt'' low then Loaded (prog @ [enc_halt])
     else if prefix ''nop'' low then Loaded (prog @ [enc_nop])
     else if prefix ''movi'' low then
       bind_loaded (scanf_line ''movi r%d , #%d'' line) (\<lambda>v1.
       bind_loaded (if length v1 = 2 then Loaded v1 else scanf_line ''movi r%d, #%d'' line) (\<lambda>v2.
         Loaded (if length v2 = 2 then prog @ [enc_movi (of_int (v2 ! 0)) (of_int (v2 ! 1))] else prog)))
     else if prefix ''vec_add'' low then
       bind_loaded (scanf_line ''vec_add v%d , v%d , v%d'' line) (\<lambda>v.
         Loaded (if length v = 3 then prog @ [enc_vec_add (of_int (v ! 0)) (of_int (v ! 1)) (of_int (v ! 2))] else prog))
     else if prefix ''matmul'' low then Loaded (prog @ [enc_matmul_tile 3 0 1 4])
     else Loaded prog)"

fun asm_lines :: "string list \<Rightarrow> u32 list \<Rightarrow> u32 list loaded" where
  "asm_lines [] prog = Loaded prog"
| "asm_lines (l # ls) prog = bind_loaded (asm_line l prog) (asm_lines ls)"

definition load_guest_asm :: "string \<Rightarrow> string \<Rightarrow> load_result loaded" where
  "load_guest_asm src name = bind_loaded (asm_lines (getlines src) []) (\<lambda>prog.
     let p = with_halt prog in
     Loaded (load_result_init\<lparr>fe_kind := KGuestAsm, fe_program := p,
       fe_diag := name @ '': guest asm ('' @ fmt_u (length p) @ '' instrs)'', fe_ok := True\<rparr>))"

section \<open>Dispatch\<close>

fun load_string :: "string \<Rightarrow> source_kind \<Rightarrow> string \<Rightarrow> load_result loaded" where
  "load_string src KCpp name = Loaded (load_cpp src name)"
| "load_string src KSystemVerilog name = load_systemverilog src name"
| "load_string src KChisel name = load_chisel src name"
| "load_string src KGuestAsm name = load_guest_asm src name"
| "load_string src KUnknown name =
     Loaded (load_result_init\<lparr>fe_diag := name @ '': unknown extension, expected .cpp/.sv/.scala/.asm''\<rparr>)"

text \<open>The contents of the file, when it can be opened.\<close>

definition frontend_load :: "string option \<Rightarrow> string \<Rightarrow> load_result loaded" where
  "frontend_load contents path = (case contents of
     None \<Rightarrow> Loaded (load_result_init\<lparr>fe_diag := ''cannot open '' @ path\<rparr>)
   | Some src \<Rightarrow> load_string src (kind_from_extension path) path)"

section \<open>Lemmas\<close>

definition halts :: "u32 list \<Rightarrow> bool" where
  "halts p \<longleftrightarrow> p \<noteq> [] \<and> instr_opcode \<lparr>raw = last p\<rparr> = HALT"

lemma enc_halt_opcode: "instr_opcode \<lparr>raw = enc_halt\<rparr> = HALT"
  by (simp add: enc_halt_def make_field named_opcodes_def)

lemma halting_programs [simp]:
  "halts (with_halt ws)" "halts kernel_program" "halts cpp_demo_program" "halts asic_program" "halts chisel_program"
  by (auto simp: halts_def with_halt_def ends_in_halt_def halt_word enc_halt_opcode
      kernel_program_def cpp_demo_program_def asic_program_def chisel_program_def)

text \<open>The program of a C++ source is one of three.\<close>

lemma load_cpp_cases:
  obtains prog where "fold cpp_line (getlines src) ([], False) = (prog, True)" "fe_program (load_cpp src name) = with_halt prog"
  | "fe_program (load_cpp src name) \<in> {kernel_program, cpp_demo_program}"
proof (cases "fold cpp_line (getlines src) ([], False)")
  case (Pair prog found)
  with that show ?thesis by (cases found) (auto simp: load_cpp_def Let_def split: if_splits)
qed

lemma load_cpp_halts: "halts (fe_program (load_cpp src name))"
  by (rule load_cpp_cases [of src name]) auto

lemma load_cpp_ok: "fe_ok (load_cpp src name)"
  by (simp add: load_cpp_def Let_def split: prod.split)

lemma bind_loaded_Loaded: "bind_loaded m f = Loaded y \<longleftrightarrow> (\<exists>x. m = Loaded x \<and> f x = Loaded y)"
  by (cases m) auto

lemma lower_body_halts: "halts dflt \<Longrightarrow> halts (lower_body src name dflt)"
  using load_cpp_halts [of src name] by (simp add: lower_body_def Let_def)

lemma finish_fields [simp]: "fe_program (finish name lang prog r) = prog" "fe_ok (finish name lang prog r)"
  by (simp_all add: finish_def)

text \<open>Only the slash is lowered to a slash; the keyword is in lower case.\<close>

lemma tolower_slash: "tolower x = CHR ''/'' \<longleftrightarrow> x = CHR ''/''"
proof
  assume x: "tolower x = CHR ''/''"
  have "of_char (char_of (n + 32) :: char) = n + 32" if "n \<le> 90" for n :: nat
    using that by simp
  with x have "\<not> (65 \<le> (of_char x :: nat) \<and> (of_char x :: nat) \<le> 90)"
    by (auto simp: tolower_def Let_def dest!: arg_cong [where f = "of_char :: char \<Rightarrow> nat"])
  with x show "x = CHR ''/''" by (simp add: tolower_def)
qed (simp add: tolower_def)

lemma slash_lower: "map tolower u = map tolower ''//'' \<longleftrightarrow> u = ''//''"
proof -
  have "map tolower ''//'' = ''//''" by code_simp
  then have "map tolower u = map tolower ''//'' \<longleftrightarrow> map tolower u = ''//''" by metis
  then show ?thesis by (auto simp: map_eq_Cons_conv tolower_slash)
qed

lemma novium_lower: "map tolower ''novium:'' = ''novium:''"
  by code_simp

section \<open>Properties\<close>

text \<open>
  C19. Every program a frontend delivers ends: a load that returns reports success exactly when the
  file could be read and its extension names a supported language, and then the program is not
  empty and its last word is \<open>HALT\<close>, whatever the text of the source is.
\<close>

theorem frontend_program_halts:
  assumes "frontend_load contents path = Loaded r"
  shows "(fe_ok r \<longleftrightarrow> contents \<noteq> None \<and> kind_from_extension path \<noteq> KUnknown)
    \<and> (\<not> fe_ok r \<or> fe_program r \<noteq> [] \<and> instr_opcode \<lparr>raw = last (fe_program r)\<rparr> = HALT)"
proof -
  have *: "fe_ok r \<and> halts (fe_program r)" if "load_string src k path = Loaded r" and "k \<noteq> KUnknown" for src k
    using that
    by (cases k)
      (auto simp: load_cpp_ok load_cpp_halts load_systemverilog_def load_chisel_def load_guest_asm_def Let_def
        bind_loaded_Loaded lower_body_halts)
  show ?thesis
  proof (cases "contents = None \<or> kind_from_extension path = KUnknown")
    case True
    with assms show ?thesis by (auto simp: frontend_load_def load_result_init_def split: option.splits)
  next
    case False
    with assms * show ?thesis by (auto simp: frontend_load_def halts_def)
  qed
qed

theorem frontend_program_halts_witness:
  "\<exists>r. frontend_load (Some ''int x;  // Novium: VEC_ADD v2, v0, v1'') ''dir.d/k.CPP'' = Loaded r \<and> fe_ok r
     \<and> fe_program r \<noteq> [] \<and> instr_opcode \<lparr>raw = last (fe_program r)\<rparr> = HALT \<and> length (fe_program r) = 2"
proof -
  let ?r = "frontend_load (Some ''int x;  // Novium: VEC_ADD v2, v0, v1'') ''dir.d/k.CPP''"
  have "(case ?r of Loaded r \<Rightarrow> length (fe_program r) = 2 \<and> fe_ok r | _ \<Rightarrow> False)" by code_simp
  then obtain r where "?r = Loaded r" "length (fe_program r) = 2" "fe_ok r" by (auto split: loaded.splits)
  with frontend_program_halts [OF this(1)] show ?thesis by auto
qed

text \<open>
  C26. An annotation is recognised exactly where the documented form stands in a line: some part of
  the line is two slashes, spaces, the word \<open>novium:\<close> in any mixture of case, spaces and at
  least one character that is not a line terminator.
\<close>

theorem annotation_recognised:
  "regex_search re_novium line \<noteq> None \<longleftrightarrow>
    (\<exists>pre sp kw sp' cmd post. line = pre @ ''//'' @ sp @ kw @ sp' @ cmd @ post \<and> list_all is_space sp
       \<and> map tolower kw = ''novium:'' \<and> list_all is_space sp' \<and> cmd \<noteq> [] \<and> list_all is_dot cmd)"
proof -
  have form: "matches re_novium w g \<longleftrightarrow> (\<exists>u v. w = u @ v \<and> u = ''//'' \<and> (\<exists>sp v1. v = sp @ v1 \<and> list_all is_space sp
      \<and> (\<exists>kw v2. v1 = kw @ v2 \<and> map tolower kw = ''novium:'' \<and> (\<exists>sp' cmd. v2 = sp' @ cmd \<and> list_all is_space sp'
        \<and> cmd \<noteq> [] \<and> list_all is_dot cmd \<and> g = [cmd]))))" for w g
    unfolding re_novium_def append_Cons append_Nil append_assoc matches_lit_icase matches_Many matches_Group slash_lower novium_lower ..
  have nest: "(\<exists>pre w post g. l = pre @ w @ post \<and> (\<exists>u v. w = u @ v \<and> u = S \<and> (\<exists>sp v1. v = sp @ v1 \<and> B sp
      \<and> (\<exists>kw v2. v1 = kw @ v2 \<and> C kw \<and> (\<exists>sp' cmd. v2 = sp' @ cmd \<and> B sp' \<and> cmd \<noteq> [] \<and> D cmd \<and> g = [cmd])))))
    \<longleftrightarrow> (\<exists>pre sp kw sp' cmd post. l = pre @ S @ sp @ kw @ sp' @ cmd @ post \<and> B sp \<and> C kw \<and> B sp' \<and> cmd \<noteq> [] \<and> D cmd)"
    for l S :: string and B C D
  proof (intro iffI; elim exE conjE)
    fix pre w post g u v sp v1 kw v2 sp' cmd
    assume "l = pre @ w @ post" "w = u @ v" "u = S" "v = sp @ v1" "v1 = kw @ v2" "v2 = sp' @ cmd"
      "B sp" "C kw" "B sp'" "cmd \<noteq> []" "D cmd"
    then show "\<exists>pre sp kw sp' cmd post. l = pre @ S @ sp @ kw @ sp' @ cmd @ post \<and> B sp \<and> C kw \<and> B sp' \<and> cmd \<noteq> [] \<and> D cmd"
      by (intro exI [of _ pre] exI [of _ sp] exI [of _ kw] exI [of _ sp'] exI [of _ cmd] exI [of _ post]) simp
  next
    fix pre sp kw sp' cmd post
    assume "l = pre @ S @ sp @ kw @ sp' @ cmd @ post" "B sp" "C kw" "B sp'" "cmd \<noteq> []" "D cmd"
    then show "\<exists>pre w post g. l = pre @ w @ post \<and> (\<exists>u v. w = u @ v \<and> u = S \<and> (\<exists>sp v1. v = sp @ v1 \<and> B sp
      \<and> (\<exists>kw v2. v1 = kw @ v2 \<and> C kw \<and> (\<exists>sp' cmd. v2 = sp' @ cmd \<and> B sp' \<and> cmd \<noteq> [] \<and> D cmd \<and> g = [cmd]))))"
      by (intro exI [of _ pre] exI [of _ "S @ sp @ kw @ sp' @ cmd"] exI [of _ post] exI [of _ "[cmd]"]) (simp, metis)
  qed
  show ?thesis
    unfolding regex_search_None not_not form by (rule nest)
qed

section \<open>What the guest assembler emits\<close>

lemma scan_int_rest: "scan_int s = Some (v, t) \<Longrightarrow> set t \<subseteq> set s"
  by (auto simp: scan_int_def Let_def dest: set_dropWhileD split: list.splits if_splits)

text \<open>A literal character that the text does not hold ends the conversions.\<close>

lemma sscanf_missing:
  assumes "c \<notin> set s"
  shows "length (sscanf (f @ Lch c # g) s) \<le> length (filter ((=) Dec) f)"
  using assms
proof (induction f s rule: sscanf.induct)
  case (1 s)
  then show ?case by (auto split: list.split)
next
  case (2 f s)
  then show ?case by (auto dest: set_dropWhileD)
next
  case (3 d f s)
  then show ?case by (auto split: list.split)
next
  case (4 f s)
  have "c \<notin> set t" if "scan_int (dropWhile is_space s) = Some (v, t)" for v t
    using scan_int_rest [OF that] 4(2) by (auto dest: set_dropWhileD)
  with 4(1) show ?case by (auto split: option.split)
qed

lemma asm_text_no_hash: "CHR ''#'' \<notin> set (asm_text line)"
  by (auto simp: asm_text_def trim_ws_def dest!: set_dropWhileD set_takeWhileD)

lemma movi_not_scanned:
  assumes "CHR ''#'' \<notin> set s" and "f \<in> {''movi r%d , #%d'', ''movi r%d, #%d''}" and "scanf_line f s = Loaded vs"
  shows "length vs \<noteq> 2"
proof -
  have fm: "fmt_of ''movi r%d , #%d'' = (map Lch ''movi'' @ [Ws, Lch CHR ''r'', Dec, Ws, Lch CHR '','', Ws]) @ Lch CHR ''#'' # [Dec]"
    "fmt_of ''movi r%d, #%d'' = (map Lch ''movi'' @ [Ws, Lch CHR ''r'', Dec, Lch CHR '','', Ws]) @ Lch CHR ''#'' # [Dec]"
    "length (filter ((=) Dec) (map Lch ''movi'' @ [Ws, Lch CHR ''r'', Dec, Ws, Lch CHR '','', Ws])) = 1"
    "length (filter ((=) Dec) (map Lch ''movi'' @ [Ws, Lch CHR ''r'', Dec, Lch CHR '','', Ws])) = 1"
    by code_simp+
  then obtain F where F: "fmt_of f = F @ Lch CHR ''#'' # [Dec]" "length (filter ((=) Dec) F) = 1"
    using assms(2) by (metis insertE singletonD)
  have "CHR ''#'' \<notin> set (takeWhile (\<lambda>c. c \<noteq> CHR 0x00) s)" using assms(1) by (auto dest: set_takeWhileD)
  from sscanf_missing [OF this, of F "[Dec]"] F
  have "length (sscanf (fmt_of f) (takeWhile (\<lambda>c. c \<noteq> CHR 0x00) s)) \<le> 1" by simp
  with assms(3) show ?thesis by (auto simp: scanf_line_def Let_def split: if_splits)
qed

definition asm_opcodes :: "opcode set" where
  "asm_opcodes = {NOP, HALT, VEC_ADD, MATMUL_TILE}"

lemma asm_word_opcodes:
  "instr_opcode \<lparr>raw = enc_halt\<rparr> \<in> asm_opcodes" "instr_opcode \<lparr>raw = enc_nop\<rparr> \<in> asm_opcodes"
  "instr_opcode \<lparr>raw = enc_vec_add d a b\<rparr> \<in> asm_opcodes" "instr_opcode \<lparr>raw = enc_matmul_tile d a b n\<rparr> \<in> asm_opcodes"
  by (simp_all add: asm_opcodes_def enc_unfold field_lemmas named_opcodes_def)

lemma asm_movi_dropped:
  assumes "CHR ''#'' \<notin> set s"
    and "bind_loaded (scanf_line ''movi r%d , #%d'' s) (\<lambda>v1.
       bind_loaded (if length v1 = 2 then Loaded v1 else scanf_line ''movi r%d, #%d'' s) (\<lambda>v2.
         Loaded (if length v2 = 2 then f v2 else prog))) = Loaded p"
  shows "p = prog"
proof -
  from assms(2) obtain v1 v2 where v: "scanf_line ''movi r%d , #%d'' s = Loaded v1"
    "(if length v1 = 2 then Loaded v1 else scanf_line ''movi r%d, #%d'' s) = Loaded v2"
    "p = (if length v2 = 2 then f v2 else prog)"
    unfolding bind_loaded_Loaded by blast
  have "length v1 \<noteq> 2" using movi_not_scanned [OF assms(1) _ v(1)] by blast
  with v(2) have "scanf_line ''movi r%d, #%d'' s = Loaded v2" by argo
  then have "length v2 \<noteq> 2" using movi_not_scanned [OF assms(1)] by blast
  with v(3) show ?thesis by argo
qed

lemma asm_line_opcodes:
  assumes "asm_line l prog = Loaded p" and "\<forall>w \<in> set prog. instr_opcode \<lparr>raw = w\<rparr> \<in> asm_opcodes"
  shows "\<forall>w \<in> set p. instr_opcode \<lparr>raw = w\<rparr> \<in> asm_opcodes"
proof -
  have shape: "(if c0 then Loaded prog else if c1 then Loaded (prog @ [enc_halt]) else if c2 then Loaded (prog @ [enc_nop])
      else if c3 then m else if c4 then bind_loaded n (\<lambda>v. Loaded (if length v = 3
         then prog @ [enc_vec_add (of_int (v ! 0)) (of_int (v ! 1)) (of_int (v ! 2))] else prog))
      else if c5 then Loaded (prog @ [enc_matmul_tile 3 0 1 4]) else Loaded prog) = Loaded p
    \<Longrightarrow> (\<And>q. m = Loaded q \<Longrightarrow> q = prog) \<Longrightarrow> p = prog \<or> (\<exists>w. p = prog @ [w] \<and> instr_opcode \<lparr>raw = w\<rparr> \<in> asm_opcodes)"
    for c0 c1 c2 c3 c4 c5 :: bool and m n
    by (auto simp: bind_loaded_Loaded asm_word_opcodes split: if_splits)
  have "p = prog \<or> (\<exists>w. p = prog @ [w] \<and> instr_opcode \<lparr>raw = w\<rparr> \<in> asm_opcodes)"
    by (rule shape [OF assms(1) [unfolded asm_line_def Let_def]]) (rule asm_movi_dropped [OF asm_text_no_hash])
  with assms(2) show ?thesis by auto
qed

lemma asm_lines_opcodes:
  "asm_lines ls prog = Loaded p \<Longrightarrow> \<forall>w \<in> set prog. instr_opcode \<lparr>raw = w\<rparr> \<in> asm_opcodes \<Longrightarrow>
   \<forall>w \<in> set p. instr_opcode \<lparr>raw = w\<rparr> \<in> asm_opcodes"
  by (induction ls arbitrary: prog) (auto simp: bind_loaded_Loaded dest: asm_line_opcodes)

text \<open>
  C30. The guest assembler never emits a \<open>MOVI\<close>: it strips everything from a \<open>#\<close> on as a comment
  before it reads the mnemonic, so the immediate operand that its own format asks for is gone and
  the line is dropped without a diagnostic. Only \<open>NOP\<close>, \<open>HALT\<close>, \<open>VEC_ADD\<close> and
  \<open>MATMUL_TILE\<close> words come out.
\<close>

theorem guest_asm_drops_movi:
  assumes "load_guest_asm src name = Loaded r"
  shows "\<forall>w \<in> set (fe_program r). instr_opcode \<lparr>raw = w\<rparr> \<in> {NOP, HALT, VEC_ADD, MATMUL_TILE}"
proof -
  from assms obtain p where "asm_lines (getlines src) [] = Loaded p" "fe_program r = with_halt p"
    by (auto simp: load_guest_asm_def Let_def bind_loaded_Loaded)
  with asm_lines_opcodes [OF this(1)] show ?thesis
    by (auto simp: with_halt_def enc_halt_opcode asm_opcodes_def)
qed

theorem guest_asm_drops_movi_witness:
  "\<exists>r. load_guest_asm ''movi r1, #5'' ''a.asm'' = Loaded r \<and> fe_program r = [enc_halt]
     \<and> (\<forall>w \<in> set (fe_program r). instr_opcode \<lparr>raw = w\<rparr> \<in> {NOP, HALT, VEC_ADD, MATMUL_TILE})"
proof -
  let ?r = "load_guest_asm ''movi r1, #5'' ''a.asm''"
  have "(case ?r of Loaded r \<Rightarrow> fe_program r = [enc_halt] | _ \<Rightarrow> False)" by code_simp
  then obtain r where "?r = Loaded r" "fe_program r = [enc_halt]" by (auto split: loaded.splits)
  with guest_asm_drops_movi [OF this(1)] show ?thesis by auto
qed

section \<open>Registers of lowered programs\<close>

lemma fixed_regs_ok:
  "list_all word_regs_ok kernel_program" "list_all word_regs_ok cpp_demo_program" "list_all word_regs_ok asic_program"
  "list_all word_regs_ok chisel_program" "word_regs_ok enc_halt"
  by code_simp+

lemma lower_annotation_regs: "lower_annotation low = Some w \<Longrightarrow> word_regs_ok w"
proof -
  have "word_regs_ok (enc_vec_add 2 0 1)" "word_regs_ok (enc_matmul_tile 3 0 1 4)" "word_regs_ok (enc_dma_load 5 7 64)"
    "word_regs_ok (enc_dma_store 9 5 64)" by code_simp+
  then show "lower_annotation low = Some w \<Longrightarrow> word_regs_ok w"
    by (auto simp: lower_annotation_def fixed_regs_ok split: if_split_asm)
qed

lemma cpp_lines_regs:
  "list_all word_regs_ok (fst acc) \<Longrightarrow> list_all word_regs_ok (fst (fold cpp_line ls acc))"
proof (induction ls arbitrary: acc)
  case (Cons l ls)
  then have "list_all word_regs_ok (fst (cpp_line l acc))"
    by (auto simp: cpp_line_def lower_annotation_regs split: option.split list.split)
  from Cons.IH [OF this] show ?case by simp
qed simp

lemma load_cpp_regs: "list_all word_regs_ok (fe_program (load_cpp src name))"
  using cpp_lines_regs [of "([], False)" "getlines src"]
  by (cases rule: load_cpp_cases [of src name]) (auto simp: fixed_regs_ok with_halt_def)

lemma lower_body_regs: "list_all word_regs_ok dflt \<Longrightarrow> list_all word_regs_ok (lower_body src name dflt)"
  using load_cpp_regs [of src name] by (simp add: lower_body_def Let_def)

text \<open>
  A program lowered from C++, SystemVerilog or Chisel only names registers that exist, whatever
  the annotations say, and every word of it decodes: the handlers' unchecked register accesses
  stay inside the register file.
\<close>

theorem lowered_regs_exist:
  assumes "load_string src k name = Loaded r" and "k \<noteq> KGuestAsm"
  shows "list_all word_regs_ok (fe_program r)"
  using assms
  by (cases k)
    (auto simp: load_cpp_regs load_systemverilog_def load_chisel_def Let_def bind_loaded_Loaded lower_body_regs
      fixed_regs_ok load_result_init_def)

theorem lowered_regs_exist_witness:
  "\<exists>r. load_string ''//novium:dma_store'' KCpp ''x'' = Loaded r \<and> list_all word_regs_ok (fe_program r)
     \<and> fe_program r = [enc_dma_store 9 5 64, enc_halt]"
proof -
  have "fe_program (load_cpp ''//novium:dma_store'' ''x'') = [enc_dma_store 9 5 64, enc_halt]" by code_simp
  then show ?thesis using lowered_regs_exist [of "''//novium:dma_store''" KCpp "''x''"] by simp
qed

text \<open>The guest assembler checks no register number.\<close>

lemma guest_asm_regs_unchecked:
  "case load_guest_asm ''vec_add v9, v0, v1'' ''a.s'' of Loaded r \<Rightarrow> \<not> list_all word_regs_ok (fe_program r) | _ \<Rightarrow> False"
  by code_simp

end
