(* ===== verification/Floats.thy ===== *)
theory Floats
  imports Complex_Main Format
begin

text \<open>
  The floating-point numbers of the statistics and their text. A non-negative \<open>double\<close> is a
  pair \<open>(m, e)\<close> for \<open>m * 2 ^ e\<close>; conversion from \<open>uint64_t\<close>, division and multiplication give
  the nearest number with a 53-bit mantissa, ties to even, as IEEE 754 prescribes. The numbers
  of the sources are zero or between \<open>2 ^ -64\<close> and \<open>2 ^ 71\<close>, so that exponents need no bound.
  \<open>%.<p>f\<close> prints the exact value rounded to \<open>p\<close> decimals, ties to even. A \<open>float\<close> register is a
  32-bit word, decoded here for \<open>%6.1f\<close>.
\<close>

section \<open>Rounding\<close>

definition rnd_even :: "nat \<Rightarrow> nat \<Rightarrow> nat" where
  "rnd_even n d = (let q = n div d; r = n mod d in if d < 2 * r \<or> (2 * r = d \<and> odd q) then q + 1 else q)"

type_synonym dbl = "nat \<times> int"

definition scaled :: "nat \<Rightarrow> nat \<Rightarrow> int \<Rightarrow> nat \<times> nat" where
  "scaled n d e = (if 0 \<le> e then (n, d * 2 ^ nat e) else (n * 2 ^ nat (- e), d))"

fun bitlen :: "nat \<Rightarrow> nat" where
  "bitlen n = (if n = 0 then 0 else Suc (bitlen (n div 2)))"

declare bitlen.simps [simp del]

definition dbl_exp :: "nat \<Rightarrow> nat \<Rightarrow> int" where
  "dbl_exp n d = (let e = int (bitlen n) - int (bitlen d) - 53; (p, q) = scaled n d e in if p div q < 2 ^ 53 then e else e + 1)"

text \<open>The \<open>double\<close> nearest to \<open>n / d\<close>.\<close>

definition to_double :: "nat \<Rightarrow> nat \<Rightarrow> dbl" where
  "to_double n d = (if n = 0 then (0, 0)
     else let e = dbl_exp n d; (p, q) = scaled n d e in (rnd_even p q, e))"

definition dbl_frac :: "dbl \<Rightarrow> nat \<times> nat" where
  "dbl_frac x = (case x of (m, e) \<Rightarrow> if 0 \<le> e then (m * 2 ^ nat e, 1) else (m, 2 ^ nat (- e)))"

definition dbl_of_u64 :: "u64 \<Rightarrow> dbl" where
  "dbl_of_u64 w = to_double (unat w) 1"

definition dbl_div :: "dbl \<Rightarrow> dbl \<Rightarrow> dbl" where
  "dbl_div x y = (case (dbl_frac x, dbl_frac y) of ((n, d), (n', d')) \<Rightarrow> to_double (n * d') (d * n'))"

definition dbl_mul :: "dbl \<Rightarrow> dbl \<Rightarrow> dbl" where
  "dbl_mul x y = (case (dbl_frac x, dbl_frac y) of ((n, d), (n', d')) \<Rightarrow> to_double (n * n') (d * d'))"

abbreviation dbl_zero :: dbl where "dbl_zero \<equiv> (0, 0)"

text \<open>\<open>tot ? double(a) / double(tot) : 0.0\<close>, and the percentages of the reports.\<close>

definition dbl_ratio :: "u64 \<Rightarrow> u64 \<Rightarrow> dbl" where
  "dbl_ratio a tot = (if tot = 0 then dbl_zero else dbl_div (dbl_of_u64 a) (dbl_of_u64 tot))"

definition percent :: "dbl \<Rightarrow> dbl" where
  "percent x = dbl_mul x (to_double 100 1)"

section \<open>Text\<close>

text \<open>The nearest multiple of \<open>10 ^ -p\<close>, in units of it.\<close>

definition decimal :: "nat \<Rightarrow> dbl \<Rightarrow> nat" where
  "decimal p x = (case dbl_frac x of (n, d) \<Rightarrow> rnd_even (n * 10 ^ p) d)"

definition fmt_f :: "nat \<Rightarrow> dbl \<Rightarrow> string" where
  "fmt_f p x = (let k = decimal p x in
     fmt_u (k div 10 ^ p) @ ''.'' @ pad_left p (CHR ''0'') (fmt_u (k mod 10 ^ p)))"

text \<open>\<open>%6.1f\<close> of a \<open>float\<close>.\<close>

definition float_mag :: "u32 \<Rightarrow> dbl" where
  "float_mag w = (let ex = unat (drop_bit 23 w AND 0xFF); fr = unat (w AND 0x7FFFFF) in
     if ex = 0 then (fr, - 149) else (2 ^ 23 + fr, int ex - 150))"

definition float_finite :: "u32 \<Rightarrow> bool" where
  "float_finite w \<longleftrightarrow> drop_bit 23 w AND 0xFF \<noteq> 0xFF"

definition float_text :: "u32 \<Rightarrow> string" where
  "float_text w = (if bit w 31 then ''-'' else []) @
     (if float_finite w then fmt_f 1 (float_mag w) else if w AND 0x7FFFFF = 0 then ''inf'' else ''nan'')"

definition fmt_61f :: "u32 \<Rightarrow> string" where
  "fmt_61f w = pad_left 6 (CHR '' '') (float_text w)"

lemmas dbl_eval = dbl_ratio_def dbl_div_def dbl_mul_def dbl_of_u64_def to_double_def dbl_exp_def scaled_def dbl_frac_def
  rnd_even_def bitlen.simps percent_def

lemmas text_eval = fmt_f_def decimal_def fmt_u_def show_base.simps digit_char_def pad_left_def

lemma digit_chars:
  "char_of (48 :: nat) = CHR ''0''" "char_of (49 :: nat) = CHR ''1''" "char_of (50 :: nat) = CHR ''2''"
  "char_of (51 :: nat) = CHR ''3''" "char_of (52 :: nat) = CHR ''4''" "char_of (53 :: nat) = CHR ''5''"
  "char_of (54 :: nat) = CHR ''6''" "char_of (55 :: nat) = CHR ''7''" "char_of (56 :: nat) = CHR ''8''"
  "char_of (57 :: nat) = CHR ''9''"
  by code_simp+

section \<open>Accuracy\<close>

definition dreal :: "dbl \<Rightarrow> real" where
  "dreal x = real (fst x) * 2 powi snd x"

lemma dreal_zero [simp]: "dreal (0, e) = 0"
  by (simp add: dreal_def)

lemma dreal_nonneg [simp]: "0 \<le> dreal x"
  by (simp add: dreal_def)

lemma dbl_fracD:
  assumes "dbl_frac x = (n, d)"
  shows "0 < d" and "dreal x = real n / real d"
  using assms by (auto simp: dbl_frac_def dreal_def power_int_def field_simps split: prod.splits if_splits)

lemma scaledD:
  assumes "scaled n d e = (p, q)" and "0 < d"
  shows "0 < q" and "real p / real q = real n / real d / 2 powi e"
  using assms by (auto simp: scaled_def power_int_def field_simps split: if_splits)

lemma rnd_even_error: "0 < d \<Longrightarrow> \<bar>real (rnd_even n d) - real n / real d\<bar> \<le> 1 / 2"
proof -
  assume d: "0 < d"
  have "real n = real (n div d) * real d + real (n mod d)"
    by (metis div_mult_mod_eq of_nat_add of_nat_mult)
  then have n: "real n / real d = real (n div d) + real (n mod d) / real d"
    using d by (simp add: field_simps)
  have r: "real (n mod d) < real d" using d by simp
  show ?thesis
  proof (cases "d < 2 * (n mod d) \<or> (2 * (n mod d) = d \<and> odd (n div d))")
    case True
    then have "real d \<le> 2 * real (n mod d)" by linarith
    then show ?thesis using True n r d by (simp add: rnd_even_def Let_def)
  next
    case False
    then have "2 * real (n mod d) \<le> real d" by linarith
    then show ?thesis using False n r d by (simp add: rnd_even_def Let_def field_simps abs_if)
  qed
qed

lemma rnd_even_le:
  assumes "0 < d" and "real n / real d \<le> real k"
  shows "rnd_even n d \<le> k"
proof -
  have "n \<le> k * d" using assms by (simp add: field_simps flip: of_nat_mult)
  show ?thesis
  proof (cases "n = k * d")
    case False
    with \<open>n \<le> k * d\<close> have "n div d < k" by (simp add: less_mult_imp_div_less)
    then show ?thesis by (simp add: rnd_even_def Let_def)
  qed (use assms(1) in \<open>simp add: rnd_even_def\<close>)
qed

lemma bitlen_bounds: "0 < n \<Longrightarrow> 2 ^ (bitlen n - 1) \<le> n \<and> n < 2 ^ bitlen n"
proof (induction n rule: bitlen.induct)
  case (1 n)
  show ?case
  proof (cases "n div 2 = 0")
    case True
    with 1(2) show ?thesis by (simp add: bitlen.simps)
  next
    case False
    with 1 have "2 ^ (bitlen (n div 2) - 1) \<le> n div 2" "n div 2 < 2 ^ bitlen (n div 2)" by simp_all
    moreover have "0 < bitlen (n div 2)" using False by (subst bitlen.simps) simp
    then have "2 ^ bitlen (n div 2) = 2 * (2 :: nat) ^ (bitlen (n div 2) - 1)"
      by (metis Suc_diff_1 power_Suc)
    moreover have "bitlen n = Suc (bitlen (n div 2))" using 1(2) by (subst bitlen.simps) simp
    ultimately show ?thesis by simp linarith
  qed
qed

lemma bitlen_real:
  assumes "0 < n"
  shows "2 powi (int (bitlen n) - 1) \<le> real n" and "real n < 2 powi int (bitlen n)"
proof -
  have b: "0 < bitlen n" using assms by (subst bitlen.simps) simp
  have "real (2 ^ (bitlen n - 1)) \<le> real n" using bitlen_bounds [OF assms] of_nat_le_iff by blast
  moreover have "int (bitlen n) - 1 = int (bitlen n - 1)" using b by simp
  ultimately show "2 powi (int (bitlen n) - 1) \<le> real n" by (simp only: power_int_of_nat of_nat_power) simp
  have "real n < real (2 ^ bitlen n)" using bitlen_bounds [OF assms] of_nat_less_iff by blast
  then show "real n < 2 powi int (bitlen n)" by simp
qed

text \<open>The exponent is the one that makes the mantissa a 53-bit number.\<close>

lemma dbl_exp_range:
  assumes "0 < n" and "0 < d"
  shows "2 ^ 52 \<le> real n / real d / 2 powi dbl_exp n d" and "real n / real d / 2 powi dbl_exp n d < 2 ^ 53"
proof -
  define b where "b = int (bitlen n) - int (bitlen d)"
  obtain p q where pq: "scaled n d (b - 53) = (p, q)" by fastforce
  note q = scaledD [OF pq assms(2)]
  have d1: "2 powi (int (bitlen d) - 1) \<le> real d" "real d < 2 powi int (bitlen d)" using bitlen_real [OF assms(2)] by simp_all
  have n1: "2 powi (int (bitlen n) - 1) \<le> real n" "real n < 2 powi int (bitlen n)" using bitlen_real [OF assms(1)] by simp_all
  have lo: "2 powi (b - 1) < real n / real d"
  proof -
    have "2 powi (b - 1) * real d < 2 powi (b - 1) * 2 powi int (bitlen d)" using d1 by simp
    also have "\<dots> = 2 powi (int (bitlen n) - 1)" using power_int_add [of "2 :: real" "b - 1" "int (bitlen d)"] by (simp add: b_def)
    finally show ?thesis using n1 assms(2) by (simp add: field_simps)
  qed
  have hi: "real n / real d < 2 powi (b + 1)"
  proof -
    have "2 powi int (bitlen n) = 2 powi (b + 1) * (2 :: real) powi (int (bitlen d) - 1)" using power_int_add [of "2 :: real" "b + 1" "int (bitlen d) - 1"] by (simp add: b_def)
    also have "\<dots> \<le> 2 powi (b + 1) * real d" using d1 by simp
    finally have "real n < 2 powi (b + 1) * real d" using n1(2) by (rule less_le_trans [rotated])
    then show ?thesis using assms(2) by (simp add: field_simps)
  qed
  have sh: "2 powi (b - 1) = 2 ^ 52 * (2 :: real) powi (b - 53)" "2 powi (b + 1) = 2 ^ 54 * (2 :: real) powi (b - 53)"
    by (simp_all add: power_int_add power_int_diff)
  have "2 ^ 52 \<le> real n / real d / 2 powi dbl_exp n d \<and> real n / real d / 2 powi dbl_exp n d < 2 ^ 53"
  proof (cases "p div q < 2 ^ 53")
    case True
    then have e: "dbl_exp n d = b - 53" using pq by (simp add: dbl_exp_def b_def)
    have "p < 2 ^ 53 * q" using True q(1) by (simp add: div_less_iff_less_mult)
    then have "real p < real (2 ^ 53 * q)" by (simp only: of_nat_less_iff)
    then have "real p < 2 ^ 53 * real q" by simp
    then have "real p / real q < 2 ^ 53" using q(1) by (simp add: field_simps)
    then have "real n / real d / 2 powi (b - 53) < 2 ^ 53" using q(2) by simp
    moreover have "2 ^ 52 \<le> real n / real d / 2 powi (b - 53)" using lo sh(1) by (subst pos_le_divide_eq) simp_all
    ultimately show ?thesis unfolding e by simp
  next
    case False
    then have e: "dbl_exp n d = b - 52" using pq by (simp add: dbl_exp_def b_def)
    have "2 ^ 53 * q \<le> p" using False q(1) by (simp add: div_less_iff_less_mult not_less)
    then have "real (2 ^ 53 * q) \<le> real p" by (simp only: of_nat_le_iff)
    then have "2 ^ 53 * real q \<le> real p" by simp
    then have "2 ^ 53 \<le> real p / real q" using q(1) by (simp add: field_simps)
    then have "2 ^ 53 \<le> real n / real d / 2 powi (b - 53)" using q(2) by simp
    then have "2 ^ 53 * 2 powi (b - 53) \<le> real n / real d" by (subst (asm) pos_le_divide_eq) simp_all
    moreover have "(2 :: real) powi (b - 52) = 2 * 2 powi (b - 53)" by (simp add: power_int_diff)
    ultimately have "2 ^ 52 * 2 powi (b - 52) \<le> real n / real d" "real n / real d < 2 ^ 53 * 2 powi (b - 52)"
      using hi sh(2) by simp_all
    then show ?thesis unfolding e by (subst pos_le_divide_eq, simp, subst pos_divide_less_eq) simp_all
  qed
  then show "2 ^ 52 \<le> real n / real d / 2 powi dbl_exp n d" "real n / real d / 2 powi dbl_exp n d < 2 ^ 53" by simp_all
qed

lemma to_double_error:
  assumes "0 < d"
  shows "\<bar>dreal (to_double n d) - real n / real d\<bar> \<le> real n / real d / 2 ^ 53"
proof (cases "n = 0")
  case False
  define e where "e = dbl_exp n d"
  obtain p q where pq: "scaled n d e = (p, q)" by fastforce
  note q = scaledD [OF pq assms]
  have "2 ^ 52 \<le> real p / real q" unfolding q(2) e_def using dbl_exp_range(1) [of n d] False assms by blast
  then have "1 / 2 \<le> real p / real q / 2 ^ 53" by (subst pos_le_divide_eq) simp_all
  then have "\<bar>real (rnd_even p q) - real p / real q\<bar> \<le> real p / real q / 2 ^ 53"
    using rnd_even_error [OF q(1), of p] by linarith
  then have "\<bar>real (rnd_even p q) - real p / real q\<bar> * 2 powi e \<le> real p / real q / 2 ^ 53 * 2 powi e"
    by (rule mult_right_mono) simp
  also have "\<dots> = real p / real q * 2 powi e / 2 ^ 53" by (rule times_divide_eq_left)
  finally have "\<bar>real (rnd_even p q) - real p / real q\<bar> * 2 powi e \<le> real p / real q * 2 powi e / 2 ^ 53" .
  moreover have x: "real p / real q * 2 powi e = real n / real d" using q(2) by simp
  moreover have "\<bar>real (rnd_even p q) - real p / real q\<bar> * 2 powi e
      = \<bar>real (rnd_even p q) * 2 powi e - real p / real q * 2 powi e\<bar>"
    using abs_mult_pos [of "2 powi e" "real (rnd_even p q) - real p / real q"] by (simp add: left_diff_distrib)
  ultimately have "\<bar>real (rnd_even p q) * 2 powi e - real n / real d\<bar> \<le> real n / real d / 2 ^ 53"
    by simp
  then show ?thesis using False pq by (simp add: to_double_def dreal_def e_def)
qed (simp add: to_double_def)

text \<open>Rounding does not pass an integer bound.\<close>

lemma to_double_le:
  assumes "0 < d" and "real n / real d \<le> real k" and "k < 2 ^ 52"
  shows "dreal (to_double n d) \<le> real k"
proof (cases "n = 0")
  case False
  define e where "e = dbl_exp n d"
  obtain p q where pq: "scaled n d e = (p, q)" by fastforce
  note q = scaledD [OF pq assms(1)]
  have "2 ^ 52 * 2 powi e \<le> real n / real d"
    using dbl_exp_range(1) [of n d] False assms(1) by (simp add: e_def pos_le_divide_eq mult_ac)
  also have "\<dots> < 2 ^ 52" using assms(2) of_nat_less_iff [where 'a = real, THEN iffD2, OF assms(3)] by simp
  finally have "(2 :: real) powi e < 2 powi 0" by simp
  then have e0: "e < 0" by (rule contrapos_pp) (simp only: not_less, rule power_int_increasing, simp_all)
  have w: "(2 :: real) powi e = 1 / 2 ^ nat (- e)" using e0 by (simp add: power_int_def field_simps)
  have "real p / real q = real n / real d * 2 ^ nat (- e)" using q(2) w by simp
  also have "\<dots> \<le> real (k * 2 ^ nat (- e))" using mult_right_mono [OF assms(2), of "2 ^ nat (- e)"] by simp
  finally have "rnd_even p q \<le> k * 2 ^ nat (- e)" by (rule rnd_even_le [OF q(1)])
  then have "real (rnd_even p q) \<le> real k * 2 ^ nat (- e)"
    by (metis of_nat_le_iff of_nat_mult of_nat_numeral of_nat_power)
  then have "real (rnd_even p q) * 2 powi e \<le> real k" unfolding w by (simp add: field_simps)
  then show ?thesis using False pq by (simp add: to_double_def dreal_def e_def)
qed (simp add: to_double_def)

text \<open>Integers below \<open>2 ^ 53\<close> are represented exactly.\<close>

lemma to_double_int:
  assumes "n < 2 ^ 53"
  shows "dreal (to_double n 1) = real n"
proof (cases "n = 0")
  case False
  define e where "e = dbl_exp n 1"
  obtain p q where pq: "scaled n 1 e = (p, q)" by fastforce
  note q = scaledD [OF pq]
  have "2 ^ 52 * 2 powi e \<le> real n"
    using dbl_exp_range(1) [of n 1] False by (simp add: e_def pos_le_divide_eq)
  also have "\<dots> < 2 ^ 53" using assms by (metis of_nat_less_iff of_nat_numeral of_nat_power)
  finally have "(2 :: real) powi e < 2 powi 1" by simp
  then have "e \<le> 0" using power_int_increasing [of 1 e "2 :: real"] by (cases "1 \<le> e") auto
  then have "q = 1" using pq by (auto simp: scaled_def split: if_splits)
  then have "rnd_even p q = p" by (simp add: rnd_even_def)
  then have "real (rnd_even p q) * 2 powi e = real n" using q(2) \<open>q = 1\<close> by simp
  then show ?thesis using False pq by (simp add: to_double_def dreal_def e_def)
qed (simp add: to_double_def)

lemma dbl_div_frac:
  assumes "dbl_frac x = (n, d)" and "dbl_frac y = (n', d')" and "0 < dreal y"
  shows "0 < d * n'" and "real (n * d') / real (d * n') = dreal x / dreal y"
proof -
  note x = dbl_fracD [OF assms(1)] and y = dbl_fracD [OF assms(2)]
  show "0 < d * n'" using assms(3) x(1) y by (cases "n' = 0") auto
  show "real (n * d') / real (d * n') = dreal x / dreal y" unfolding x(2) y(2) by simp
qed

lemma dbl_div_error:
  assumes "0 < dreal y"
  shows "\<bar>dreal (dbl_div x y) - dreal x / dreal y\<bar> \<le> dreal x / dreal y / 2 ^ 53"
proof -
  obtain n d n' d' where f: "dbl_frac x = (n, d)" "dbl_frac y = (n', d')" by fastforce
  with to_double_error [of "d * n'" "n * d'"] dbl_div_frac [OF f assms] show ?thesis by (simp only: dbl_div_def split)
qed

lemma dbl_div_le:
  assumes "0 < dreal y" and "dreal x \<le> real k * dreal y" and "k < 2 ^ 52"
  shows "dreal (dbl_div x y) \<le> real k"
proof -
  obtain n d n' d' where f: "dbl_frac x = (n, d)" "dbl_frac y = (n', d')" by fastforce
  have "dreal x / dreal y \<le> real k" using assms(1,2) by (simp add: pos_divide_le_eq)
  with to_double_le [of "d * n'" "n * d'" k] dbl_div_frac [OF f assms(1)] assms(3) f show ?thesis by (simp only: dbl_div_def split)
qed

lemma dbl_mul_frac:
  assumes "dbl_frac x = (n, d)" and "dbl_frac y = (n', d')"
  shows "0 < d * d'" and "real (n * n') / real (d * d') = dreal x * dreal y"
  using dbl_fracD [OF assms(1)] dbl_fracD [OF assms(2)] by simp_all

lemma percent_le:
  assumes "dreal x \<le> 1"
  shows "dreal (percent x) \<le> 100"
proof -
  obtain n d n' d' where f: "dbl_frac x = (n, d)" "dbl_frac (to_double 100 1) = (n', d')" by fastforce
  have "dreal (to_double 100 1) = 100" using to_double_int [of 100] by simp
  with dbl_mul_frac [OF f] to_double_le [of "d * d'" "n * n'" 100] assms f show ?thesis
    by (simp add: percent_def dbl_mul_def)
qed

lemma percent_error: "dreal (percent x) \<le> 101 * dreal x"
proof -
  obtain n d n' d' where f: "dbl_frac x = (n, d)" "dbl_frac (to_double 100 1) = (n', d')" by fastforce
  have "dreal (to_double 100 1) = 100" using to_double_int [of 100] by simp
  with dbl_mul_frac [OF f] to_double_error [of "d * d'" "n * n'"] f
  have "\<bar>dreal (percent x) - dreal x * 100\<bar> \<le> dreal x * 100 / 2 ^ 53" by (simp add: percent_def dbl_mul_def)
  moreover have "dreal x * 100 / 2 ^ 53 \<le> dreal x" by (simp add: mult_left_le)
  ultimately show ?thesis by linarith
qed

lemma dbl_of_u64_error: "\<bar>dreal (dbl_of_u64 w) - real (unat w)\<bar> \<le> real (unat w) / 2 ^ 53"
  using to_double_error [of 1 "unat w"] by (simp add: dbl_of_u64_def)

lemma dbl_of_u64_exact: "unat w < 2 ^ 53 \<Longrightarrow> dreal (dbl_of_u64 w) = real (unat w)"
  using to_double_int [of "unat w"] by (simp add: dbl_of_u64_def)

lemma dbl_of_u64_pos: "w \<noteq> 0 \<Longrightarrow> 1 / 2 \<le> dreal (dbl_of_u64 w)"
proof -
  assume "w \<noteq> 0"
  then have "0 < unat w" by (simp add: unat_gt_0)
  then have "1 \<le> real (unat w)" by linarith
  then have "real (unat w) / 2 ^ 53 \<le> real (unat w) / 2" by (intro divide_left_mono; (linarith | simp))
  with \<open>1 \<le> real (unat w)\<close> show ?thesis using dbl_of_u64_error [of w] by linarith
qed

text \<open>The ratio of two counters below \<open>2 ^ 53\<close> has a single rounding error.\<close>

lemma dbl_ratio_error:
  assumes "unat a < 2 ^ 53" and "unat b < 2 ^ 53" and "b \<noteq> 0"
  shows "\<bar>dreal (dbl_ratio a b) - real (unat a) / real (unat b)\<bar> \<le> real (unat a) / real (unat b) / 2 ^ 53"
  using dbl_div_error [of "dbl_of_u64 b" "dbl_of_u64 a"] assms dbl_of_u64_pos [OF assms(3)] dbl_of_u64_exact [of a] dbl_of_u64_exact [of b]
  by (simp add: dbl_ratio_def)

text \<open>Whatever the counters are, a ratio is below \<open>10 ^ 20\<close> and a percentage below \<open>10 ^ 22\<close>.\<close>

lemma dbl_ratio_bound: "dreal (dbl_ratio a b) < 10 ^ 20"
proof (cases "b = 0")
  case False
  have pos: "1 / 2 \<le> dreal (dbl_of_u64 b)" using dbl_of_u64_pos [OF False] .
  have "real (unat a) < 2 ^ 64" using of_nat_less_iff [where 'a = real, THEN iffD2, OF unsigned_less [of a, where 'a = nat]] by simp
  then have a: "dreal (dbl_of_u64 a) < 2 ^ 64 + 2 ^ 11" using abs_le_D1 [OF dbl_of_u64_error [of a]] by simp
  define q where "q = dreal (dbl_of_u64 a) / dreal (dbl_of_u64 b)"
  have "q \<le> dreal (dbl_of_u64 a) / (1 / 2)" unfolding q_def using pos by (intro divide_left_mono) simp_all
  with a have "q < 2 * (2 ^ 64 + 2 ^ 11)" by simp
  moreover have "\<bar>dreal (dbl_ratio a b) - q\<bar> \<le> q / 2 ^ 53"
    using dbl_div_error [of "dbl_of_u64 b" "dbl_of_u64 a"] pos False by (simp add: dbl_ratio_def q_def)
  then have "dreal (dbl_ratio a b) - q \<le> q / 2 ^ 53" by (rule abs_le_D1)
  ultimately show ?thesis by simp
qed (simp add: dbl_ratio_def)

section \<open>Texts of numbers\<close>

lemma decimal_error: "\<bar>real (decimal p x) / 10 ^ p - dreal x\<bar> \<le> 1 / (2 * 10 ^ p)"
proof -
  obtain n d where f: "dbl_frac x = (n, d)" by fastforce
  note x = dbl_fracD [OF f]
  have "\<bar>real (decimal p x) - dreal x * 10 ^ p\<bar> \<le> 1 / 2"
    using rnd_even_error [OF x(1), of "n * 10 ^ p"] f x(2) by (simp add: decimal_def)
  then have "\<bar>real (decimal p x) - dreal x * 10 ^ p\<bar> / 10 ^ p \<le> 1 / 2 / 10 ^ p" by (rule divide_right_mono) simp
  moreover have "\<bar>real (decimal p x) - dreal x * 10 ^ p\<bar> / 10 ^ p = \<bar>real (decimal p x) / 10 ^ p - dreal x\<bar>"
    using abs_divide [of "real (decimal p x) - dreal x * 10 ^ p" "10 ^ p"] by (simp add: diff_divide_distrib)
  ultimately show ?thesis by simp
qed

lemma decimal_le:
  assumes "dreal x \<le> real k"
  shows "decimal p x \<le> k * 10 ^ p"
proof -
  obtain n d where f: "dbl_frac x = (n, d)" by fastforce
  note x = dbl_fracD [OF f]
  have "real (n * 10 ^ p) / real d = dreal x * 10 ^ p" using x(2) by simp
  also have "\<dots> \<le> real (k * 10 ^ p)" using mult_right_mono [OF assms, of "10 ^ p"] by simp
  finally show ?thesis using rnd_even_le [OF x(1)] f by (simp add: decimal_def)
qed

lemma length_fmt_f:
  assumes "dreal x \<le> real k" and "k < 10 ^ Suc j" and "0 < p"
  shows "length (fmt_f p x) \<le> Suc j + Suc p"
proof -
  have "decimal p x div 10 ^ p \<le> k" using div_le_mono [OF decimal_le [OF assms(1), of p], of "10 ^ p"] by simp
  then have "length (fmt_u (decimal p x div 10 ^ p)) \<le> Suc j" using assms(2) by (intro length_fmt_u) simp
  moreover obtain i where i: "p = Suc i" using assms(3) gr0_implies_Suc by blast
  have "length (fmt_u (decimal p x mod 10 ^ p)) \<le> Suc i" unfolding i by (rule length_fmt_u) simp
  ultimately show ?thesis by (simp add: fmt_f_def Let_def pad_left_def i)
qed

lemma length_ratio_text: "0 < p \<Longrightarrow> length (fmt_f p (dbl_ratio a b)) \<le> Suc p + 21"
  using length_fmt_f [of "dbl_ratio a b" "10 ^ 20" 20 p] dbl_ratio_bound [of a b] by simp

lemma length_percent_text: "0 < p \<Longrightarrow> length (fmt_f p (percent (dbl_ratio a b))) \<le> Suc p + 23"
  using length_fmt_f [of "percent (dbl_ratio a b)" "101 * 10 ^ 20" 22 p] dbl_ratio_bound [of a b] percent_error [of "dbl_ratio a b"]
  by simp

end
