(* ===== verification/Parallel.thy ===== *)
theory Parallel
  imports Prelude
begin

text \<open>
  The parallel mapping of \<^verbatim>\<open>include/aiasm/parallel.h\<close> and \<^verbatim>\<open>src/parallel.cpp\<close>: the round-robin
  warp scheduler of a GPU target and the systolic array of an ASIC target. Sizes and positions
  in the warp table are natural numbers (they are indices of a vector in memory); stall counts
  and statistics keep their width. The theorems: the scheduler starves no warp, and the closed
  form of the systolic pipeline's cycle count. The report strings are in \<open>Reports\<close>.
\<close>

section \<open>Warp scheduler\<close>

record warp_config =
  warp_size :: u32
  max_warps_per_sm :: u32
  num_sms :: u32

record warp_scheduler =
  w_cfg :: warp_config
  w_state :: "u32 list"
  scheduled :: u64
  w_stalls :: u64
  rr :: nat

definition warp_config_default :: warp_config where
  "warp_config_default = \<lparr>warp_size = 32, max_warps_per_sm = 32, num_sms = 4\<rparr>"

definition warp_reset :: "warp_scheduler \<Rightarrow> warp_scheduler" where
  "warp_reset w = w\<lparr>w_state := replicate (unat (max_warps_per_sm (w_cfg w) * num_sms (w_cfg w))) 0,
     scheduled := 0, w_stalls := 0, rr := 0\<rparr>"

definition warp_new :: "warp_config \<Rightarrow> warp_scheduler" where
  "warp_new cfg = warp_reset \<lparr>w_cfg = cfg, w_state = [], scheduled = 0, w_stalls = 0, rr = 0\<rparr>"

definition warp_configure :: "warp_config \<Rightarrow> warp_scheduler \<Rightarrow> warp_scheduler" where
  "warp_configure c w = warp_reset (w\<lparr>w_cfg := c\<rparr>)"

text \<open>The search of \<open>schedule\<close>: the first offset from \<open>rr\<close> whose warp is ready.\<close>

definition warp_at :: "warp_scheduler \<Rightarrow> nat \<Rightarrow> nat" where
  "warp_at w i = (rr w + i) mod length (w_state w)"

definition next_ready :: "warp_scheduler \<Rightarrow> nat option" where
  "next_ready w = map_option (warp_at w)
     (find (\<lambda>i. w_state w ! warp_at w i = 0) [0..<length (w_state w)])"

text \<open>The sources return the number of the warp as an \<open>int\<close>; that it fits, for fewer than \<open>2 ^ 31\<close> warps, is taken for granted.\<close>

definition schedule :: "warp_scheduler \<Rightarrow> int \<times> warp_scheduler" where
  "schedule w = (case next_ready w of
     Some k \<Rightarrow> (int k, w\<lparr>rr := (k + 1) mod length (w_state w), scheduled := scheduled w + 1\<rparr>)
   | None \<Rightarrow> (-1, w))"

definition warp_valid :: "warp_scheduler \<Rightarrow> int \<Rightarrow> bool" where
  "warp_valid w k \<longleftrightarrow> 0 \<le> k \<and> nat k < length (w_state w)"

definition mark_ready :: "int \<Rightarrow> warp_scheduler \<Rightarrow> warp_scheduler" where
  "mark_ready k w = (if warp_valid w k then w\<lparr>w_state := (w_state w)[nat k := 0]\<rparr> else w)"

definition mark_stalled :: "int \<Rightarrow> u32 \<Rightarrow> warp_scheduler \<Rightarrow> warp_scheduler" where
  "mark_stalled k cycles w = (if warp_valid w k
     then w\<lparr>w_state := (w_state w)[nat k := cycles], w_stalls := w_stalls w + 1\<rparr> else w)"

definition warp_tick :: "u32 \<Rightarrow> warp_scheduler \<Rightarrow> warp_scheduler" where
  "warp_tick cycles w = w\<lparr>w_state := map (\<lambda>s. if s > 0 then (if s > cycles then s - cycles else 0) else s) (w_state w)\<rparr>"

definition active_warps :: "warp_scheduler \<Rightarrow> u32" where
  "active_warps w = of_nat (length (filter (\<lambda>s. s = 0) (w_state w)))"

section \<open>Systolic array\<close>

record systolic_config =
  sys_rows :: u32
  sys_cols :: u32
  macs_per_cycle :: u32

record systolic =
  sy_cfg :: systolic_config
  tiles :: u64
  sys_total_cycles :: u64
  pipeline_depth :: u32

definition systolic_config_default :: systolic_config where
  "systolic_config_default = \<lparr>sys_rows = 8, sys_cols = 8, macs_per_cycle = 64\<rparr>"

definition systolic_new :: "systolic_config \<Rightarrow> systolic" where
  "systolic_new cfg = \<lparr>sy_cfg = cfg, tiles = 0, sys_total_cycles = 0, pipeline_depth = 0\<rparr>"

definition systolic_configure :: "systolic_config \<Rightarrow> systolic \<Rightarrow> systolic" where
  "systolic_configure c s = s\<lparr>sy_cfg := c\<rparr>"

definition systolic_reset :: "systolic \<Rightarrow> systolic" where
  "systolic_reset s = s\<lparr>tiles := 0, sys_total_cycles := 0, pipeline_depth := 0\<rparr>"

definition tile_cycles :: "systolic_config \<Rightarrow> u32" where
  "tile_cycles c = (sys_rows c * sys_cols c + macs_per_cycle c - 1) div macs_per_cycle c"

definition enqueue_tile :: "u32 \<Rightarrow> systolic \<Rightarrow> (u32 \<times> systolic) res" where
  "enqueue_tile tile_n s =
    (if macs_per_cycle (sy_cfg s) = 0 then Undef
     else
       let s1 = s\<lparr>tiles := tiles s + 1\<rparr>; cycles = tile_cycles (sy_cfg s) in
       if pipeline_depth s1 < sys_rows (sy_cfg s1)
       then Ok (cycles, s1\<lparr>pipeline_depth := pipeline_depth s1 + 1, sys_total_cycles := sys_total_cycles s1 + ucast cycles\<rparr>)
       else Ok (cycles, s1\<lparr>sys_total_cycles := sys_total_cycles s1 + 1\<rparr>))"

record parallel_mapping =
  pm_warp :: warp_scheduler
  pm_systolic :: systolic
  dma_engines :: u32

definition parallel_mapping_init :: parallel_mapping where
  "parallel_mapping_init = \<lparr>pm_warp = warp_new warp_config_default,
     pm_systolic = systolic_new systolic_config_default, dma_engines = 2\<rparr>"

section \<open>The search\<close>

lemma find_upt_Some:
  "find P [0..<n] = Some i \<longleftrightarrow> i < n \<and> P i \<and> (\<forall>j < i. \<not> P j)"
  by (auto simp: find_Some_iff)

lemma find_upt_None: "find P [0..<n] = None \<longleftrightarrow> (\<forall>i < n. \<not> P i)"
  by (auto simp: find_None_iff)

text \<open>How far the search is from warp \<open>k\<close>.\<close>

definition distance :: "warp_scheduler \<Rightarrow> nat \<Rightarrow> nat" where
  "distance w k = (k + length (w_state w) - rr w) mod length (w_state w)"

definition warp_ok :: "warp_scheduler \<Rightarrow> bool" where
  "warp_ok w \<longleftrightarrow> w_state w \<noteq> [] \<and> rr w < length (w_state w)"

lemma distance_at:
  assumes "warp_ok w" and "k < length (w_state w)"
  shows "distance w k < length (w_state w)" and "warp_at w (distance w k) = k"
proof -
  let ?n = "length (w_state w)"
  from assms show "distance w k < ?n" by (auto simp: distance_def warp_ok_def)
  have "(rr w + (k + ?n - rr w) mod ?n) mod ?n = (rr w + (k + ?n - rr w)) mod ?n"
    by (simp add: mod_add_right_eq)
  also have "\<dots> = k" using assms by (simp add: warp_ok_def)
  finally show "warp_at w (distance w k) = k" by (simp add: warp_at_def distance_def)
qed

lemma distance_unique:
  assumes ok: "warp_ok w" and e: "e < length (w_state w)"
  shows "distance w (warp_at w e) = e"
proof (cases "rr w + e < length (w_state w)")
  case True
  then show ?thesis using e by (simp add: distance_def warp_at_def)
next
  case False
  with ok e have "rr w + e - length (w_state w) < length (w_state w)" unfolding warp_ok_def by linarith
  with False have "warp_at w e = rr w + e - length (w_state w)"
    by (simp add: warp_at_def le_mod_geq not_less)
  with False e show ?thesis by (simp add: distance_def)
qed

text \<open>A call that does not pick the ready warp \<open>k\<close> gets closer to it.\<close>

lemma schedule_approaches:
  assumes ok: "warp_ok w" and k: "k < length (w_state w)" "w_state w ! k = 0"
  defines "w' \<equiv> snd (schedule w)"
  shows "warp_ok w' \<and> w_state w' = w_state w
     \<and> (fst (schedule w) = int k \<or> distance w' k < distance w k)"
proof -
  let ?n = "length (w_state w)" and ?d = "distance w k"
  note d = distance_at [OF ok k(1)]
  have "find (\<lambda>i. w_state w ! warp_at w i = 0) [0..<?n] \<noteq> None"
    using d k(2) by (auto simp: find_upt_None)
  then obtain i where i: "find (\<lambda>i. w_state w ! warp_at w i = 0) [0..<?n] = Some i" by blast
  then have le: "i \<le> ?d" and lt: "i < ?n" using d k(2) by (auto simp: find_upt_Some not_less [symmetric])
  have s: "schedule w = (int (warp_at w i), w\<lparr>rr := (warp_at w i + 1) mod ?n, scheduled := scheduled w + 1\<rparr>)"
    using i by (simp add: schedule_def next_ready_def)
  have ok': "warp_ok w'" and st: "w_state w' = w_state w" and rr: "rr w' = (rr w + Suc i) mod ?n"
    using ok by (auto simp: s w'_def warp_ok_def warp_at_def mod_Suc_eq)
  have "fst (schedule w) = int k \<or> distance w' k < ?d"
  proof (cases "i = ?d")
    case True
    with d(2) show ?thesis by (simp add: s)
  next
    case False
    with le have j: "?d - Suc i < ?n" "Suc i + (?d - Suc i) = ?d" using d(1) by auto
    have "warp_at w' (?d - Suc i) = (rr w + (Suc i + (?d - Suc i))) mod ?n"
      by (simp add: warp_at_def st rr mod_add_left_eq add.assoc del: add_Suc_right add_Suc)
    then have "warp_at w' (?d - Suc i) = k" using d(2) j(2) by (simp add: warp_at_def)
    with distance_unique [OF ok', of "?d - Suc i"] j st have "distance w' k = ?d - Suc i" by simp
    with False le show ?thesis by simp
  qed
  with ok' st show ?thesis by simp
qed

section \<open>Interleaved operations\<close>

datatype warp_op = Schedule | Stall int u32 | Ready int | Tick u32

fun warp_step :: "warp_op \<Rightarrow> warp_scheduler \<Rightarrow> warp_scheduler" where
  "warp_step Schedule w = snd (schedule w)"
| "warp_step (Stall k c) w = mark_stalled k c w"
| "warp_step (Ready k) w = mark_ready k w"
| "warp_step (Tick c) w = warp_tick c w"

text \<open>The warps that the schedule calls of a sequence return, in order.\<close>

fun issued :: "warp_op list \<Rightarrow> warp_scheduler \<Rightarrow> int list" where
  "issued [] w = []"
| "issued (x # xs) w = (case x of Schedule \<Rightarrow> [fst (schedule w)] | _ \<Rightarrow> []) @ issued xs (warp_step x w)"

fun stalls_warp :: "nat \<Rightarrow> warp_op \<Rightarrow> bool" where
  "stalls_warp k (Stall j c) \<longleftrightarrow> j = int k"
| "stalls_warp k _ \<longleftrightarrow> False"

definition waiting :: "nat \<Rightarrow> warp_scheduler \<Rightarrow> bool" where
  "waiting k w \<longleftrightarrow> warp_ok w \<and> k < length (w_state w) \<and> w_state w ! k = 0"

lemma waiting_step:
  assumes "waiting k w" and "\<not> stalls_warp k x" and "x \<noteq> Schedule"
  shows "waiting k (warp_step x w) \<and> distance (warp_step x w) k = distance w k"
  using assms
  by (cases x) (auto simp: waiting_def warp_ok_def distance_def mark_stalled_def mark_ready_def warp_tick_def
      warp_valid_def nth_list_update)

lemma issued_within:
  assumes "waiting k w" and "list_all (\<lambda>x. \<not> stalls_warp k x) xs"
    and "distance w k < length (filter (\<lambda>x. x = Schedule) xs)"
  shows "int k \<in> set (issued xs w)"
  using assms
proof (induction xs arbitrary: w)
  case (Cons x xs)
  show ?case
  proof (cases "x = Schedule")
    case True
    from Cons.prems(1) have "warp_ok w" "k < length (w_state w)" "w_state w ! k = 0" by (simp_all add: waiting_def)
    from schedule_approaches [OF this] Cons.prems(1)
    have w': "waiting k (snd (schedule w))" and "fst (schedule w) = int k \<or> distance (snd (schedule w)) k < distance w k"
      by (auto simp: waiting_def)
    then show ?thesis using Cons.IH [OF w'] Cons.prems True by auto
  next
    case False
    with waiting_step [of k w x] Cons show ?thesis by auto
  qed
qed simp

section \<open>Properties\<close>

text \<open>
  C18. The warp scheduler starves no warp. Take any interleaving of schedule calls with stalls,
  wake-ups and clock ticks, in which warp \<open>k\<close> is ready and not stalled meanwhile: among the
  first \<open>n\<close> schedule calls, \<open>n\<close> the number of warps, one returns \<open>k\<close>.
\<close>

theorem warp_not_starved:
  assumes "waiting k w" and "list_all (\<lambda>x. \<not> stalls_warp k x) xs"
    and "length (w_state w) \<le> length (filter (\<lambda>x. x = Schedule) xs)"
  shows "int k \<in> set (issued xs w)"
proof -
  from assms(1) have "distance w k < length (w_state w)" by (auto simp: waiting_def intro: distance_at(1))
  with assms show ?thesis by (intro issued_within) auto
qed

definition demo_warps :: warp_scheduler where
  "demo_warps = warp_new \<lparr>warp_size = 32, max_warps_per_sm = 2, num_sms = 2\<rparr>"

theorem warp_not_starved_witness:
  "3 \<in> set (issued [Schedule, Stall 0 7, Schedule, Tick 2, Schedule, Ready 1, Schedule] demo_warps)
   \<and> issued [Schedule, Stall 0 7, Schedule, Tick 2, Schedule, Ready 1, Schedule] demo_warps = [0, 1, 2, 3]"
proof -
  have "waiting 3 demo_warps"
    "length (w_state demo_warps) \<le> length (filter (\<lambda>x. x = Schedule)
       [Schedule, Stall 0 7, Schedule, Tick 2, Schedule, Ready 1, Schedule])"
    "issued [Schedule, Stall 0 7, Schedule, Tick 2, Schedule, Ready 1, Schedule] demo_warps = [0, 1, 2, 3]"
    by (simp_all add: waiting_def warp_ok_def demo_warps_def warp_new_def warp_reset_def) code_simp
  with warp_not_starved [of 3 demo_warps "[Schedule, Stall 0 7, Schedule, Tick 2, Schedule, Ready 1, Schedule]"]
  show ?thesis by simp
qed

text \<open>A call returns no warp exactly when none is ready, and otherwise a ready one.\<close>

lemma schedule_result:
  assumes "warp_ok w"
  shows "fst (schedule w) = -1 \<longleftrightarrow> (\<forall>s \<in> set (w_state w). s \<noteq> 0)"
    and "fst (schedule w) \<noteq> -1 \<Longrightarrow> warp_valid w (fst (schedule w)) \<and> w_state w ! nat (fst (schedule w)) = 0"
proof -
  let ?n = "length (w_state w)"
  have at: "warp_at w i < ?n" for i using assms by (auto simp: warp_at_def warp_ok_def)
  have "next_ready w = None \<longleftrightarrow> (\<forall>k < ?n. w_state w ! k \<noteq> 0)"
    using at distance_at [OF assms] by (fastforce simp: next_ready_def find_upt_None)
  then show "fst (schedule w) = -1 \<longleftrightarrow> (\<forall>s \<in> set (w_state w). s \<noteq> 0)"
    by (auto simp: schedule_def all_set_conv_all_nth split: option.split)
  show "fst (schedule w) \<noteq> -1 \<Longrightarrow> warp_valid w (fst (schedule w)) \<and> w_state w ! nat (fst (schedule w)) = 0"
    using at by (auto simp: schedule_def next_ready_def warp_valid_def find_upt_Some split: option.splits)
qed

section \<open>Systolic array\<close>

fun enqueue_all :: "u32 list \<Rightarrow> systolic \<Rightarrow> systolic res" where
  "enqueue_all [] s = Ok s"
| "enqueue_all (t # ts) s = bind_res (enqueue_tile t s) (\<lambda>(_, s'). enqueue_all ts s')"

lemma enqueue_all_snoc:
  "enqueue_all (ts @ [t]) s = bind_res (enqueue_all ts s) (\<lambda>s'. map_res snd (enqueue_tile t s'))"
proof (induction ts arbitrary: s)
  case Nil
  show ?case by (cases "enqueue_tile t s") auto
next
  case (Cons u us)
  then show ?case by (cases "enqueue_tile u s") auto
qed

text \<open>
  The systolic array pays the full latency of a tile only while the pipeline fills: after
  any sequence of tiles from a fresh array, the first \<open>rows\<close> of them have cost the tile latency
  each and every later one a single cycle.
\<close>

theorem systolic_cycles:
  assumes "macs_per_cycle cfg \<noteq> 0"
  shows "enqueue_all ts (systolic_new cfg) = Ok \<lparr>sy_cfg = cfg, tiles = of_nat (length ts),
     sys_total_cycles = of_nat (min (length ts) (unat (sys_rows cfg))) * ucast (tile_cycles cfg)
        + of_nat (length ts - unat (sys_rows cfg)),
     pipeline_depth = of_nat (min (length ts) (unat (sys_rows cfg)))\<rparr>"
proof (induction ts rule: rev_induct)
  case Nil
  show ?case by (simp add: systolic_new_def)
next
  case (snoc t ts)
  let ?n = "length ts" and ?R = "unat (sys_rows cfg)"
  have "min ?n ?R < 4294967296" by (rule le_less_trans [OF min.cobounded2 unat_u32_less])
  then have "unat (of_nat (min ?n ?R) :: u32) = min ?n ?R" by (simp add: unat_of_nat)
  then have lt: "(of_nat (min ?n ?R) :: u32) < sys_rows cfg \<longleftrightarrow> ?n < ?R"
    by (simp add: word_less_nat_alt min_less_iff_disj)
  show ?case
  proof (cases "?n < ?R")
    case True
    with lt snoc assms show ?thesis
      by (simp add: enqueue_all_snoc enqueue_tile_def Let_def min_def algebra_simps)
  next
    case False
    then have "Suc ?n - ?R = Suc (?n - ?R)" by simp
    with lt snoc assms False show ?thesis
      by (simp add: enqueue_all_snoc enqueue_tile_def Let_def min_def algebra_simps)
  qed
qed

theorem systolic_cycles_witness:
  "map_res (\<lambda>s. (tiles s, sys_total_cycles s)) (enqueue_all (replicate 10 4) (systolic_new systolic_config_default)) = Ok (10, 10)
   \<and> map_res sys_total_cycles (enqueue_all [4, 4, 4] (systolic_new \<lparr>sys_rows = 2, sys_cols = 8, macs_per_cycle = 4\<rparr>)) = Ok 9"
  using systolic_cycles [of systolic_config_default "replicate 10 4"]
    systolic_cycles [of "\<lparr>sys_rows = 2, sys_cols = 8, macs_per_cycle = 4\<rparr>" "[4, 4, 4]"]
  by (simp add: systolic_config_default_def tile_cycles_def)

end
