(* ===== verification/Observe.thy ===== *)
theory Observe
  imports Registers Csr Profiler Format
begin

text \<open>
  What is recorded about a run: the performance counters of \<^verbatim>\<open>include/aiasm/pmc.h\<close> and
  \<^verbatim>\<open>src/pmc.cpp\<close>, the checkpoint history of \<^verbatim>\<open>include/aiasm/checkpoint.h\<close> and
  \<^verbatim>\<open>src/checkpoint.cpp\<close>, and the traces of \<^verbatim>\<open>include/aiasm/trace.h\<close> and \<^verbatim>\<open>src/trace.cpp\<close>
  (instruction log, CSV and VCD text, the GDB stub).

  The history and the instruction log are both bounded logs, a contract stated as a locale. A
  checkpoint blob holds the memory image of a C++ object; the layout is the compiler's, so the
  image and its inverse are parameters. An output stream is the text written so far.
\<close>

section \<open>Performance counters\<close>

datatype pmc_event =
    EvCycles | EvInstructions | EvBranchMispredicts | EvCacheMisses | EvTLBMisses
  | EvDMABandwidth | EvWarpStalls | EvSystolicTiles | EvInterconnectStalls

fun event_index :: "pmc_event \<Rightarrow> nat" where
  "event_index EvCycles = 0"
| "event_index EvInstructions = 1"
| "event_index EvBranchMispredicts = 2"
| "event_index EvCacheMisses = 3"
| "event_index EvTLBMisses = 4"
| "event_index EvDMABandwidth = 5"
| "event_index EvWarpStalls = 6"
| "event_index EvSystolicTiles = 7"
| "event_index EvInterconnectStalls = 8"

definition PMC_COUNT :: nat where "PMC_COUNT = 9"

type_synonym pmc = "u64 list"

definition pmc_reset :: pmc where
  "pmc_reset = replicate PMC_COUNT 0"

definition pmc_get :: "pmc_event \<Rightarrow> pmc \<Rightarrow> u64" where
  "pmc_get e c = c ! event_index e"

definition pmc_set :: "pmc_event \<Rightarrow> u64 \<Rightarrow> pmc \<Rightarrow> pmc" where
  "pmc_set e v c = c[event_index e := v]"

definition pmc_inc :: "pmc_event \<Rightarrow> u64 \<Rightarrow> pmc \<Rightarrow> pmc" where
  "pmc_inc e v c = c[event_index e := c ! event_index e + v]"

definition on_commit :: "u32 \<Rightarrow> bool \<Rightarrow> bool \<Rightarrow> pmc \<Rightarrow> pmc" where
  "on_commit cycles is_branch_mispredict is_cache_miss c =
    (let c1 = pmc_inc EvCycles (ucast cycles) c;
         c2 = pmc_inc EvInstructions 1 c1;
         c3 = (if is_branch_mispredict then pmc_inc EvBranchMispredicts 1 c2 else c2)
     in if is_cache_miss then pmc_inc EvCacheMisses 1 c3 else c3)"

definition on_tlb_miss :: "pmc \<Rightarrow> pmc" where
  "on_tlb_miss c = pmc_inc EvTLBMisses 1 c"

definition on_dma :: "u32 \<Rightarrow> pmc \<Rightarrow> pmc" where
  "on_dma bytes c = pmc_inc EvDMABandwidth (ucast bytes) c"

section \<open>Checkpoints\<close>

record checkpoint =
  cp_regs :: register_file
  cp_csr :: csr_file
  cp_profiler :: profiler_state
  cp_tick :: u64
  cp_clock :: u64
  cp_seq :: u32
  cp_snapshot :: "u8 list"
  cp_has_memory :: bool

record ckpt_manager =
  history :: "checkpoint list"
  max_history :: size_t

definition ckpt_new :: "size_t \<Rightarrow> ckpt_manager" where
  "ckpt_new n = \<lparr>history = [], max_history = n\<rparr>"

definition set_max_history :: "size_t \<Rightarrow> ckpt_manager \<Rightarrow> ckpt_manager" where
  "set_max_history n m = m\<lparr>max_history := n\<rparr>"

text \<open>\<open>push_back\<close>, then \<open>pop_front\<close> when the limit is exceeded.\<close>

definition trimmed :: "size_t \<Rightarrow> 'a list \<Rightarrow> 'a list" where
  "trimmed n xs = (if length xs > unat n then tl xs else xs)"

definition ckpt_append :: "checkpoint \<Rightarrow> ckpt_manager \<Rightarrow> ckpt_manager" where
  "ckpt_append c m = m\<lparr>history := trimmed (max_history m) (history m @ [c])\<rparr>"

definition ckpt_push ::
  "register_file \<Rightarrow> csr_file \<Rightarrow> profiler_state \<Rightarrow> u64 \<Rightarrow> u64 \<Rightarrow> u32 \<Rightarrow> ckpt_manager \<Rightarrow> ckpt_manager" where
  "ckpt_push regs csr prof tick clock seq m = ckpt_append
     \<lparr>cp_regs = regs, cp_csr = csr, cp_profiler = prof, cp_tick = tick, cp_clock = clock, cp_seq = seq,
      cp_snapshot = [], cp_has_memory = False\<rparr> m"

definition ckpt_push_full :: "checkpoint \<Rightarrow> u8 list \<Rightarrow> ckpt_manager \<Rightarrow> ckpt_manager" where
  "ckpt_push_full cp mem m = ckpt_append (cp\<lparr>cp_snapshot := mem, cp_has_memory := True\<rparr>) m"

definition can_reverse :: "ckpt_manager \<Rightarrow> bool" where
  "can_reverse m \<longleftrightarrow> history m \<noteq> []"

definition ckpt_pop :: "ckpt_manager \<Rightarrow> (checkpoint \<times> ckpt_manager) option" where
  "ckpt_pop m = (if history m = [] then None else Some (last (history m), m\<lparr>history := butlast (history m)\<rparr>))"

definition ckpt_clear :: "ckpt_manager \<Rightarrow> ckpt_manager" where
  "ckpt_clear m = m\<lparr>history := []\<rparr>"

definition save_blob :: "(register_file \<Rightarrow> u8 list) \<Rightarrow> nat \<Rightarrow> checkpoint \<Rightarrow> u8 list" where
  "save_blob img csr_size cp = img (cp_regs cp) @ replicate (csr_size + 64) 0"

definition restore_blob :: "(u8 list \<Rightarrow> register_file) \<Rightarrow> nat \<Rightarrow> u8 list \<Rightarrow> checkpoint \<Rightarrow> bool \<times> checkpoint" where
  "restore_blob unimg regs_size blob out =
     (if length blob < regs_size then (False, out) else (True, out\<lparr>cp_regs := unimg (take regs_size blob)\<rparr>))"

section \<open>Instruction log\<close>

record trace_entry =
  te_cycle :: u64
  te_pc :: u32
  te_instr :: instruction
  te_result :: u32
  te_branch_taken :: bool
  te_mem_addr :: u32

record instr_trace =
  entries :: "trace_entry list"
  trace_max :: size_t

definition trace_init :: instr_trace where
  "trace_init = \<lparr>entries = [], trace_max = 8192\<rparr>"

definition trace_push :: "trace_entry \<Rightarrow> instr_trace \<Rightarrow> instr_trace" where
  "trace_push e t = t\<lparr>entries := trimmed (trace_max t) (entries t @ [e])\<rparr>"

definition trace_set_max :: "size_t \<Rightarrow> instr_trace \<Rightarrow> instr_trace" where
  "trace_set_max n t = t\<lparr>trace_max := n\<rparr>"

definition trace_clear :: "instr_trace \<Rightarrow> instr_trace" where
  "trace_clear t = t\<lparr>entries := []\<rparr>"

definition csv_line :: "trace_entry \<Rightarrow> string" where
  "csv_line e = fmt_u (unat (te_cycle e)) @ '',0x'' @ fmt_08X (te_pc e) @ '',0x'' @ fmt_08X (raw (te_instr e))
     @ '','' @ fmt_u (unat (te_result e)) @ '',0x'' @ fmt_08X (te_mem_addr e) @ [CHR 0x0A]"

text \<open>The file that \<open>export_csv\<close> writes, when \<open>fopen\<close> succeeds.\<close>

definition export_csv :: "bool \<Rightarrow> instr_trace \<Rightarrow> string option" where
  "export_csv opened t = (if opened
     then Some (''cycle,pc,raw,result,mem_addr'' @ [CHR 0x0A] @ concat (map csv_line (entries t))) else None)"

section \<open>Value change dump\<close>

text \<open>The stream: whether it is open, whether its fail bit is set, and the text written.\<close>

record vcd =
  v_open :: bool
  v_fail :: bool
  v_text :: string
  v_signals :: "string list"
  header_written :: bool

definition vcd_init :: vcd where
  "vcd_init = \<lparr>v_open = False, v_fail = False, v_text = '''', v_signals = [], header_written = False\<rparr>"

text \<open>\<open>ofs_.open\<close>: on a stream that is already open it only sets the fail bit.\<close>

definition vcd_open :: "bool \<Rightarrow> vcd \<Rightarrow> bool \<times> vcd" where
  "vcd_open can v = (if v_open v then (True, v\<lparr>v_fail := True\<rparr>)
     else if can then (True, v\<lparr>v_open := True, v_fail := False, v_text := ''''\<rparr>)
     else (False, v\<lparr>v_fail := True\<rparr>))"

definition vcd_close :: "vcd \<Rightarrow> vcd" where
  "vcd_close v = (if v_open v then v\<lparr>v_open := False\<rparr> else v)"

definition vcd_put :: "string \<Rightarrow> vcd \<Rightarrow> vcd" where
  "vcd_put s v = (if v_fail v then v else v\<lparr>v_text := v_text v @ s\<rparr>)"

definition var_decl :: "nat \<Rightarrow> string \<Rightarrow> string" where
  "var_decl i name = ''$var wire 32 s'' @ fmt_u i @ '' '' @ name @ '' $end'' @ [CHR 0x0A]"

definition vcd_header :: "string \<Rightarrow> vcd \<Rightarrow> vcd" where
  "vcd_header timescale v = (if \<not> v_open v then v else
     (vcd_put (''$timescale '' @ timescale @ '' $end'' @ [CHR 0x0A] @ ''$scope module novium $end'' @ [CHR 0x0A]
        @ concat (map2 var_decl [0..<length (v_signals v)] (v_signals v))
        @ ''$upscope $end'' @ [CHR 0x0A] @ ''$enddefinitions $end'' @ [CHR 0x0A]) v)\<lparr>header_written := True\<rparr>)"

definition add_signal :: "string \<Rightarrow> u32 \<Rightarrow> vcd \<Rightarrow> vcd" where
  "add_signal name width v = v\<lparr>v_signals := v_signals v @ [name]\<rparr>"

text \<open>\<open>std::bitset<32>(w).to_string()\<close>: the most significant bit first.\<close>

definition bits32 :: "u32 \<Rightarrow> string" where
  "bits32 w = map (\<lambda>k. if bit w k then CHR ''1'' else CHR ''0'') (rev [0..<32])"

definition vcd_dump :: "u64 \<Rightarrow> u32 \<Rightarrow> instruction \<Rightarrow> u32 \<Rightarrow> vcd \<Rightarrow> vcd" where
  "vcd_dump cycle pc0 instr gpr0 v = (if \<not> v_open v then v else
     vcd_put (''#'' @ fmt_u (unat cycle) @ [CHR 0x0A] @ ''b'' @ bits32 pc0 @ '' s0'' @ [CHR 0x0A]
        @ ''b'' @ bits32 (raw instr) @ '' s1'' @ [CHR 0x0A] @ ''b'' @ bits32 gpr0 @ '' s2'' @ [CHR 0x0A])
       (if \<not> header_written v then vcd_header ''1ns'' v else v))"

section \<open>GDB stub\<close>

record gdb_stub =
  gdb_running :: bool
  gdb_port :: u16

definition gdb_start :: "u16 \<Rightarrow> gdb_stub \<Rightarrow> bool \<times> gdb_stub" where
  "gdb_start port g = (True, g\<lparr>gdb_port := port, gdb_running := True\<rparr>)"

definition gdb_stop :: "gdb_stub \<Rightarrow> gdb_stub" where
  "gdb_stop g = g\<lparr>gdb_running := False\<rparr>"

definition gdb_poll :: "u32 \<Rightarrow> gdb_stub \<Rightarrow> gdb_stub" where
  "gdb_poll pc0 g = g"

section \<open>Bounded logs\<close>

text \<open>
  The contract of a log with a limit: an append drops the oldest entry when the limit would be
  exceeded. It follows that a log holds the latest entries, as many as the limit allows.
\<close>

locale bounded_log =
  fixes items :: "'l \<Rightarrow> 'e list" and append :: "'e \<Rightarrow> 'l \<Rightarrow> 'l" and limit :: "'l \<Rightarrow> size_t"
  assumes items_append: "items (append e l) = trimmed (limit l) (items l @ [e])"
    and limit_append: "limit (append e l) = limit l"
begin

lemma limit_fold: "limit (fold append es l) = limit l"
  by (induction es arbitrary: l) (simp_all add: limit_append)

lemma items_fold:
  assumes "items l = []"
  shows "items (fold append es l) = drop (length es - unat (limit l)) es"
proof (induction es rule: rev_induct)
  case (snoc e es)
  let ?m = "unat (limit l)"
  have "items (fold append (es @ [e]) l) = trimmed (limit l) (drop (length es - ?m) es @ [e])"
    by (simp add: items_append limit_fold snoc)
  also have "\<dots> = drop (length (es @ [e]) - ?m) (es @ [e])"
  proof (cases "length es < ?m")
    case False
    have "drop (length es - ?m) es @ [e] = drop (length es - ?m) (es @ [e])" by simp
    then have "tl (drop (length es - ?m) es @ [e]) = drop (Suc (length es - ?m)) (es @ [e])"
      by (simp only: drop_Suc tl_drop)
    moreover have "Suc (length es - ?m) = Suc (length es) - ?m" using False by simp
    ultimately show ?thesis using False by (simp add: trimmed_def del: drop_append)
  qed (simp add: trimmed_def)
  finally show ?case .
qed (simp add: assms)

end

interpretation ckpt_log: bounded_log history ckpt_append max_history
  by unfold_locales (simp_all add: ckpt_append_def)

interpretation trace_log: bounded_log entries trace_push trace_max
  by unfold_locales (simp_all add: trace_push_def)

text \<open>Up to \<open>k\<close> times \<open>pop\<close>, as a reverse-execution loop does.\<close>

fun pops :: "nat \<Rightarrow> ckpt_manager \<Rightarrow> checkpoint list" where
  "pops 0 m = []"
| "pops (Suc k) m = (case ckpt_pop m of None \<Rightarrow> [] | Some (c, m') \<Rightarrow> c # pops k m')"

lemma pops_history: "pops k m = take k (rev (history m))"
proof (induction k arbitrary: m)
  case (Suc k)
  then show ?case by (cases "history m" rule: rev_cases) (simp_all add: ckpt_pop_def)
qed simp

definition push_state :: "checkpoint \<Rightarrow> ckpt_manager \<Rightarrow> ckpt_manager" where
  "push_state c = ckpt_push (cp_regs c) (cp_csr c) (cp_profiler c) (cp_tick c) (cp_clock c) (cp_seq c)"

definition without_memory :: "checkpoint \<Rightarrow> checkpoint" where
  "without_memory c = c\<lparr>cp_snapshot := [], cp_has_memory := False\<rparr>"

lemma push_state_append: "push_state c = ckpt_append (without_memory c)"
  by (cases c) (simp add: fun_eq_iff push_state_def ckpt_push_def without_memory_def)

lemma fold_push_state: "fold push_state cs = fold ckpt_append (map without_memory cs)"
proof -
  have "push_state = ckpt_append \<circ> without_memory" by (simp add: fun_eq_iff push_state_append)
  then show ?thesis by (simp add: fold_map)
qed

section \<open>Properties\<close>

text \<open>
  C27. Rewinding returns the committed states in reverse: after pushing the states \<open>cs\<close> one after
  another into a history of at most \<open>n\<close> entries, \<open>k\<close> pops return the last \<open>k\<close> of them, newest
  first, as far back as the history reaches, each with the registers, control registers,
  counters and clocks it was pushed with.
\<close>

theorem checkpoint_rewind:
  "pops k (fold push_state cs (ckpt_new n)) =
     take k (rev (map without_memory (drop (length cs - unat n) cs)))"
  by (simp add: pops_history fold_push_state ckpt_log.items_fold ckpt_new_def drop_map)

text \<open>
  The instruction log keeps the latest entries: after logging \<open>es\<close> into an empty log it
  holds the last of them, in order, as many as its limit allows, and the exported file has
  one line for each after its header line.
\<close>

theorem trace_keeps_latest:
  "let t = fold trace_push es (trace_set_max n trace_init); kept = drop (length es - unat n) es in
     entries t = kept \<and> length (entries t) = min (length es) (unat n)
     \<and> export_csv True t = Some (''cycle,pc,raw,result,mem_addr'' @ [CHR 0x0A] @ concat (map csv_line kept))"
proof -
  have "entries (fold trace_push es (trace_set_max n trace_init)) = drop (length es - unat n) es"
    using trace_log.items_fold [of "trace_set_max n trace_init" es] by (simp add: trace_set_max_def trace_init_def)
  then show ?thesis by (simp add: Let_def export_csv_def)
qed

lemma blob_roundtrip:
  assumes "\<And>r. unimg (img r) = r" and "\<And>r. length (img r) = sz"
  shows "restore_blob unimg sz (save_blob img csz cp) out = (True, out\<lparr>cp_regs := cp_regs cp\<rparr>)"
  using assms by (simp add: restore_blob_def save_blob_def)

section \<open>Counters over a run\<close>

lemma event_index_less: "event_index e < PMC_COUNT"
  by (cases e) (simp_all add: PMC_COUNT_def)

lemma event_index_inj: "event_index e = event_index f \<longleftrightarrow> e = f"
  by (cases e; cases f) simp_all

lemma pmc_inc_laws [simp]:
  "length (pmc_inc e v c) = length c"
  "length c = PMC_COUNT \<Longrightarrow> pmc_get f (pmc_inc e v c) = pmc_get f c + (if e = f then v else 0)"
  using event_index_less [of f] event_index_inj [of e f]
  by (auto simp: pmc_inc_def pmc_get_def nth_list_update)

lemma on_commit_laws:
  assumes "length c = PMC_COUNT"
  shows "length (on_commit n b m c) = PMC_COUNT"
    and "pmc_get e (on_commit n b m c) = pmc_get e c + (case e of EvCycles \<Rightarrow> ucast n | EvInstructions \<Rightarrow> 1
        | EvBranchMispredicts \<Rightarrow> of_bool b | EvCacheMisses \<Rightarrow> of_bool m | _ \<Rightarrow> 0)"
  using assms by (auto simp: on_commit_def Let_def split: pmc_event.split)

text \<open>
  The counters add up a run: after any sequence of commits from reset, the instruction
  counter is their number, the cycle counter the sum of their cycles, the misprediction and
  cache-miss counters the number of commits that reported one, and no other counter has moved.
\<close>

theorem pmc_counts_commits:
  "let c = fold (\<lambda>(n, b, m). on_commit n b m) cs pmc_reset in
     pmc_get EvInstructions c = of_nat (length cs)
     \<and> pmc_get EvCycles c = sum_list (map (\<lambda>(n, _, _). ucast n) cs)
     \<and> pmc_get EvBranchMispredicts c = of_nat (length (filter (\<lambda>(_, b, _). b) cs))
     \<and> pmc_get EvCacheMisses c = of_nat (length (filter (\<lambda>(_, _, m). m) cs))
     \<and> pmc_get EvTLBMisses c = 0 \<and> pmc_get EvDMABandwidth c = 0"
proof -
  have "length (fold (\<lambda>(n, b, m). on_commit n b m) cs pmc_reset) = PMC_COUNT \<and> ?thesis"
  proof (induction cs rule: rev_induct)
    case Nil
    show ?case by (simp add: pmc_reset_def pmc_get_def PMC_COUNT_def)
  next
    case (snoc x cs)
    obtain n b m where "x = (n, b, m)" by (metis prod_cases3)
    with snoc show ?case by (simp add: on_commit_laws Let_def)
  qed
  then show ?thesis ..
qed

end
