(* ===== verification/Bridge.thy ===== *)
theory Bridge
  imports Emu_Props
begin

text \<open>
  The bridges to other simulators: the transaction-level sockets of \<^verbatim>\<open>include/aiasm/tlm.h\<close> and
  \<^verbatim>\<open>src/tlm.cpp\<close> and the FPGA co-emulation of \<^verbatim>\<open>include/aiasm/fpga.h\<close> and \<^verbatim>\<open>src/fpga.cpp\<close>.

  A payload's data pointer is the caller's buffer, \<open>None\<close> for a null pointer. The transport
  functions are the two closures that the adapter installs, over the emulator whose bus or
  scratchpad they capture. Real FPGA backends are never available in the sources, so only the
  simulated one does work. The report strings are in \<open>Reports\<close>.
\<close>

section \<open>Payloads and sockets\<close>

datatype tlm_command = TlmRead | TlmWrite | TlmIgnore
datatype tlm_response = TlmOK | TlmAddressError | TlmGenericError

record tlm_payload =
  command :: tlm_command
  address :: u64
  tdata :: "u8 list option"
  tlen :: u32
  streaming_width :: u32
  response :: tlm_response
  tlm_delay_cycles :: u32

type_synonym transport = "tlm_payload \<Rightarrow> tlm_payload emu_op"

record tlm_socket =
  sock_name :: string
  bound :: bool
  transport_fn :: "transport option"

definition socket_new :: "string \<Rightarrow> tlm_socket" where
  "socket_new name = \<lparr>sock_name = name, bound = False, transport_fn = None\<rparr>"

definition set_transport :: "transport \<Rightarrow> tlm_socket \<Rightarrow> tlm_socket" where
  "set_transport fn s = s\<lparr>transport_fn := Some fn\<rparr>"

text \<open>\<open>bind\<close> copies the target's transport function of that moment.\<close>

definition socket_bind :: "tlm_socket \<Rightarrow> tlm_socket \<Rightarrow> tlm_socket" where
  "socket_bind tgt s = s\<lparr>bound := True, transport_fn := transport_fn tgt\<rparr>"

text \<open>Returns the payload and the accumulated delay.\<close>

definition b_transport :: "tlm_socket \<Rightarrow> tlm_payload \<Rightarrow> u32 \<Rightarrow> (tlm_payload \<times> u32) emu_op" where
  "b_transport s p delay_cycles = (case transport_fn s of
     Some fn \<Rightarrow> bind (fn p) (\<lambda>p'. ret (p', delay_cycles + tlm_delay_cycles p'))
   | None \<Rightarrow> ret (p\<lparr>response := TlmAddressError\<rparr>, delay_cycles))"

section \<open>The adapter\<close>

definition buffer :: "tlm_payload \<Rightarrow> u8 list res" where
  "buffer p = (case tdata p of Some d \<Rightarrow> Ok d | None \<Rightarrow> Undef)"

definition put_buffer :: "u8 list \<Rightarrow> tlm_payload \<Rightarrow> tlm_payload res" where
  "put_buffer bs p = bind_res (buffer p) (\<lambda>d. map_res (\<lambda>d'. p\<lparr>tdata := Some d'\<rparr>) (mem_write d 0 bs))"

definition bus_transport :: transport where
  "bus_transport p =
    bind (lift_res (\<lambda>_. if command p = TlmRead then put_buffer [0] p else Ok p)) (\<lambda>p1.
    bind (if command p1 = TlmWrite \<and> tlen p1 = 4
          then bind (lift_res (\<lambda>_. bind_res (buffer p1) (\<lambda>d. mem_read d 0 4))) (\<lambda>bs.
               bind (emu_bus_write32 (ucast (address p1)) (le_word32 bs)) (\<lambda>_. ret p1))
          else if command p1 = TlmRead \<and> tlen p1 = 4
          then bind (emu_bus_read32 (ucast (address p1))) (\<lambda>v. lift_res (\<lambda>_. put_buffer (le_bytes32 v) p1))
          else ret p1) (\<lambda>p2.
    ret (p2\<lparr>response := TlmOK, tlm_delay_cycles := 2\<rparr>)))"

text \<open>The sum of address and length is taken in 64 bits, the pointer from the low 32.\<close>

definition memory_transport :: transport where
  "memory_transport p = bind (gets (\<lambda>s. sram_size (e_scratchpad s))) (\<lambda>size.
     if address p + ucast (tlen p) > size then ret (p\<lparr>response := TlmAddressError\<rparr>)
     else
       let at = unat (ucast (address p) :: u32); n = unat (tlen p) in
       bind (case command p of
           TlmWrite \<Rightarrow> bind (update_res (\<lambda>s. bind_res (buffer p) (\<lambda>d. bind_res (mem_read d 0 n) (\<lambda>bs.
               map_res (\<lambda>m. (e_scratchpad s)\<lparr>sram_data := m\<rparr>) (mem_write (sram_data (e_scratchpad s)) at bs))))
               (\<lambda>m s. s\<lparr>e_scratchpad := m\<rparr>)) (\<lambda>_. ret p)
         | TlmRead \<Rightarrow> lift_res (\<lambda>s. bind_res (mem_read (sram_data (e_scratchpad s)) at n) (\<lambda>bs. put_buffer bs p))
         | TlmIgnore \<Rightarrow> ret p) (\<lambda>p1.
       ret (p1\<lparr>response := TlmOK, tlm_delay_cycles := 1\<rparr>)))"

record tlm_adapter =
  initiator :: tlm_socket
  target :: tlm_socket

definition adapter_init :: tlm_adapter where
  "adapter_init = \<lparr>initiator = socket_new ''novium.initiator'', target = socket_new ''novium.target''\<rparr>"

definition bind_bus :: "tlm_adapter \<Rightarrow> tlm_adapter" where
  "bind_bus a = (let t = set_transport bus_transport (target a)
     in a\<lparr>target := t, initiator := socket_bind t (initiator a)\<rparr>)"

definition bind_memory :: "tlm_adapter \<Rightarrow> tlm_adapter" where
  "bind_memory a = (let t = set_transport memory_transport (target a)
     in a\<lparr>target := t, initiator := socket_bind t (initiator a)\<rparr>)"

section \<open>FPGA\<close>

datatype fpga_backend = FpgaNone | FpgaPCIe | FpgaUSB | FpgaSimulated

record fpga_config =
  backend :: fpga_backend
  bitstream :: string
  device_id :: u32
  fallback_to_sim :: bool

record fpga =
  f_cfg :: fpga_config
  connected :: bool
  offloaded :: u64
  fallback :: u64

definition fpga_new :: "fpga_config \<Rightarrow> fpga" where
  "fpga_new c = \<lparr>f_cfg = c, connected = False, offloaded = 0, fallback = 0\<rparr>"

definition fpga_configure :: "fpga_config \<Rightarrow> fpga \<Rightarrow> fpga" where
  "fpga_configure c f = f\<lparr>f_cfg := c\<rparr>"

definition available :: "fpga \<Rightarrow> bool" where
  "available f \<longleftrightarrow> backend (f_cfg f) = FpgaSimulated"

definition fpga_connect :: "fpga \<Rightarrow> bool \<times> fpga" where
  "fpga_connect f = (if \<not> available f then (False, f) else (True, f\<lparr>connected := True\<rparr>))"

definition fpga_disconnect :: "fpga \<Rightarrow> fpga" where
  "fpga_disconnect f = f\<lparr>connected := False\<rparr>"

text \<open>The three arrays are entries of a table; the tile size is truncated to eight bits.\<close>

definition offload_matmul ::
  "fpu \<Rightarrow> nat \<Rightarrow> nat \<Rightarrow> nat \<Rightarrow> u32 \<Rightarrow> f32 list list \<Rightarrow> fpga \<Rightarrow> (bool \<times> f32 list list \<times> fpga) res" where
  "offload_matmul fp d a b n V f =
    (if \<not> connected f \<or> \<not> available f then Ok (False, V, f\<lparr>fallback := fallback f + 1\<rparr>)
     else
       let n8 = (ucast n :: u8); k = unat n8 * unat n8 in
       if length (V ! a) < k \<or> length (V ! b) < k \<or> length (V ! d) < k then Undef
       else Ok (True, matmul_tile_host fp d a b n8 V, f\<lparr>offloaded := offloaded f + 1\<rparr>))"

definition offload_dma :: "u8 list \<Rightarrow> u8 list \<Rightarrow> u32 \<Rightarrow> bool \<Rightarrow> fpga \<Rightarrow> (bool \<times> u8 list \<times> fpga) res" where
  "offload_dma src dst bytes is_write f =
    (if \<not> connected f \<or> \<not> available f then Ok (False, dst, f\<lparr>fallback := fallback f + 1\<rparr>)
     else bind_res (mem_read src 0 (unat bytes)) (\<lambda>bs. bind_res (mem_write dst 0 bs) (\<lambda>d.
       Ok (True, d, f\<lparr>offloaded := offloaded f + 1\<rparr>))))"

section \<open>Laws of the adapter\<close>

lemma initiator_bound [simp]:
  "transport_fn (initiator (bind_bus a)) = Some bus_transport"
  "transport_fn (initiator (bind_memory a)) = Some memory_transport"
  by (simp_all add: bind_bus_def bind_memory_def socket_bind_def set_transport_def Let_def)

lemma put_buffer_ok:
  "tdata p = Some d \<Longrightarrow> length bs \<le> length d \<Longrightarrow> put_buffer bs p = Ok (p\<lparr>tdata := Some (splice_at 0 bs d)\<rparr>)"
  by (simp add: put_buffer_def buffer_def mem_write_def)

lemma splice_whole: "length bs = length d \<Longrightarrow> splice_at 0 bs d = bs"
  by (simp add: splice_at_def)

text \<open>A word written and a word read, on four-byte buffers.\<close>

lemma bus_transport_write:
  assumes "command p = TlmWrite" and "tlen p = 4" and "tdata p = Some d" and "length d = 4"
    and "emu_bus_write32 (ucast (address p)) (le_word32 d) s = (Ok (), s')"
  shows "bus_transport p s = (Ok (p\<lparr>response := TlmOK, tlm_delay_cycles := 2\<rparr>), s')"
  using assms by (simp add: bus_transport_def bind_def buffer_def mem_read_def slice_def)

lemma bus_transport_read:
  assumes "command p = TlmRead" and "tlen p = 4" and "tdata p = Some d" and "length d = 4"
    and "emu_bus_read32 (ucast (address p)) s = (Ok v, s')"
  shows "bus_transport p s = (Ok (p\<lparr>tdata := Some (le_bytes32 v), response := TlmOK, tlm_delay_cycles := 2\<rparr>), s')"
proof -
  have "put_buffer [0] p = Ok (p\<lparr>tdata := Some (splice_at 0 [0] d)\<rparr>)" using assms by (simp add: put_buffer_ok)
  with assms show ?thesis
    by (simp add: bus_transport_def bind_def put_buffer_ok splice_whole)
qed

definition tlm_word :: "tlm_command \<Rightarrow> u64 \<Rightarrow> u8 list \<Rightarrow> tlm_payload" where
  "tlm_word c a d = \<lparr>command = c, address = a, tdata = Some d, tlen = 4, streaming_width = 4,
     response = TlmGenericError, tlm_delay_cycles = 0\<rparr>"

section \<open>Properties\<close>

text \<open>
  A TLM initiator bound to the bus reads back what it wrote: on a reachable machine, a
  four-byte write to an address in the scratchpad and outside the device window, followed by a
  four-byte read of it, answers \<open>OK\<close> both times, returns the bytes written and annotates two
  cycles for each transaction.
\<close>

theorem tlm_bus_roundtrip:
  assumes "reachable h m k s" and "\<not> device_addr (ucast a)"
    and "in_range (sram_data (e_scratchpad s)) (ucast a) 4" and "length d = 4" and "length e = 4"
  shows "\<exists>p q s1 s2. b_transport (initiator (bind_bus adapter_init)) (tlm_word TlmWrite a d) n s = (Ok (p, n + 2), s1)
     \<and> b_transport (initiator (bind_bus adapter_init)) (tlm_word TlmRead a e) n s1 = (Ok (q, n + 2), s2)
     \<and> response p = TlmOK \<and> response q = TlmOK \<and> tdata q = Some d"
proof -
  let ?a = "ucast a :: u32"
  let ?s = "s\<lparr>e_scratchpad := (e_scratchpad s)\<lparr>sram_data := splice_at (unat ?a) d (sram_data (e_scratchpad s))\<rparr>\<rparr>"
  have w: "emu_bus_write32 ?a (le_word32 d) s = (Ok (), ?s)"
    using bus_write_arch [OF reachable_inv [OF assms(1)] assms(2)] assms(3,4) by simp
  then have "reachable h m k ?s" using assms(1) by (blast intro: reach_bus)
  from bus_read_arch [OF reachable_inv [OF this] assms(2)] assms(3,4)
  have r: "emu_bus_read32 ?a ?s = (Ok (le_word32 d), ?s)"
    using slice_splice_at_same [of "unat ?a" d "sram_data (e_scratchpad s)"] by (simp add: in_range_def)
  show ?thesis
    using bus_transport_write [of "tlm_word TlmWrite a d" d s ?s] bus_transport_read [of "tlm_word TlmRead a e" e ?s _ ?s]
      w r assms(4,5)
    by (simp add: b_transport_def bind_def tlm_word_def)
qed

theorem tlm_bus_roundtrip_witness:
  "\<exists>p q s1 s2. b_transport (initiator (bind_bus adapter_init)) (tlm_word TlmWrite 8 [1, 2, 3, 4]) 5 (emu_new 64 16) = (Ok (p, 7), s1)
     \<and> b_transport (initiator (bind_bus adapter_init)) (tlm_word TlmRead 8 [0, 0, 0, 0]) 5 s1 = (Ok (q, 7), s2)
     \<and> tdata q = Some [1, 2, 3, 4]"
proof -
  have "\<not> device_addr (ucast (8 :: u64))" "in_range (sram_data (e_scratchpad (emu_new 64 16))) (ucast (8 :: u64)) 4" by code_simp+
  from tlm_bus_roundtrip [OF reach.new [of True demo_host] this, of "[1, 2, 3, 4]" "[0, 0, 0, 0]" 5]
  show ?thesis by fastforce
qed

lemma memory_bound:
  assumes "unat (address p) + unat (tlen p) < 2 ^ 64" and "length (sram_data m) < 2 ^ 64"
  shows "address p + ucast (tlen p) > sram_size m \<longleftrightarrow> length (sram_data m) < unat (address p) + unat (tlen p)"
proof -
  have "unat (address p + ucast (tlen p)) = unat (address p) + unat (tlen p)"
    using assms(1) by (simp add: unat_word_ariths)
  moreover have "unat (sram_size m) = length (sram_data m)"
    using assms(2) by (simp add: sram_size_def unat_of_nat)
  ultimately show ?thesis by (simp add: word_less_nat_alt)
qed

text \<open>
  C28. The memory target checks its bounds when the range does not wrap: with a scratchpad below
  four gigabytes and a buffer as long as the transaction, a range that does not fit
  answers \<open>AddressError\<close> and changes nothing, and one that fits answers \<open>OK\<close>, a write having
  replaced exactly these bytes and a read having copied them to the front of the buffer.
\<close>

theorem tlm_memory_checked:
  assumes nowrap: "unat (address p) + unat (tlen p) < 2 ^ 64" and size: "length (sram_data (e_scratchpad s)) < 2 ^ 32"
    and buf: "tdata p = Some d" "unat (tlen p) \<le> length d"
  defines "at \<equiv> unat (address p)" and "n \<equiv> unat (tlen p)" and "mem \<equiv> sram_data (e_scratchpad s)"
  shows "if length mem < at + n then memory_transport p s = (Ok (p\<lparr>response := TlmAddressError\<rparr>), s)
     else (case command p of
         TlmWrite \<Rightarrow> memory_transport p s = (Ok (p\<lparr>response := TlmOK, tlm_delay_cycles := 1\<rparr>),
             s\<lparr>e_scratchpad := (e_scratchpad s)\<lparr>sram_data := splice_at at (take n d) mem\<rparr>\<rparr>)
       | TlmRead \<Rightarrow> memory_transport p s = (Ok (p\<lparr>tdata := Some (splice_at 0 (slice at n mem) d),
             response := TlmOK, tlm_delay_cycles := 1\<rparr>), s)
       | TlmIgnore \<Rightarrow> memory_transport p s = (Ok (p\<lparr>response := TlmOK, tlm_delay_cycles := 1\<rparr>), s))"
proof (cases "length mem < at + n")
  case True
  with memory_bound [of p "e_scratchpad s"] nowrap size show ?thesis
    by (simp add: memory_transport_def at_def n_def mem_def)
next
  case False
  with size have "at < 2 ^ 32" by (simp add: mem_def)
  then have low: "unat (ucast (address p) :: u32) = at"
    by (simp add: at_def unsigned_ucast_eq take_bit_nat_eq_self)
  have ok: "\<not> address p + ucast (tlen p) > sram_size (e_scratchpad s)"
    using False memory_bound [of p "e_scratchpad s"] nowrap size by (simp add: at_def n_def mem_def)
  have len: "length (slice at n mem) = n" "length (take n d) = n" using False buf(2) by (simp_all add: n_def)
  show ?thesis
    using False buf ok low len
    by (cases "command p")
      (simp_all add: memory_transport_def bind_def update_res_def buffer_def mem_read_def mem_write_def Let_def
        put_buffer_ok slice_def n_def [symmetric] mem_def [symmetric])
qed

definition demo_payload :: tlm_payload where
  "demo_payload = \<lparr>command = TlmWrite, address = 62, tdata = Some [1, 2, 3, 4], tlen = 2, streaming_width = 0,
     response = TlmGenericError, tlm_delay_cycles = 0\<rparr>"

theorem tlm_memory_checked_witness:
  "fst (memory_transport demo_payload (emu_new 64 16)) = Ok (demo_payload\<lparr>response := TlmOK, tlm_delay_cycles := 1\<rparr>)
   \<and> drop 60 (sram_data (e_scratchpad (snd (memory_transport demo_payload (emu_new 64 16))))) = [0, 0, 1, 2]
   \<and> memory_transport (demo_payload\<lparr>address := 63\<rparr>) (emu_new 64 16)
     = (Ok (demo_payload\<lparr>address := 63, response := TlmAddressError\<rparr>), emu_new 64 16)"
proof -
  have "length (sram_data (e_scratchpad (emu_new 64 16))) = 64"
    "drop 60 (splice_at 62 [1, 2] (sram_data (e_scratchpad (emu_new 64 16)))) = [0, 0, 1, 2]" by code_simp+
  then show ?thesis
    using tlm_memory_checked [of demo_payload "emu_new 64 16"]
      tlm_memory_checked [of "demo_payload\<lparr>address := 63\<rparr>" "emu_new 64 16"]
    by (simp add: demo_payload_def)
qed

text \<open>
  A range that wraps passes the check: eight bytes at \<open>2^64 - 4\<close> are accepted whatever the
  size of the scratchpad is, and the copy runs outside it.
\<close>

theorem tlm_memory_wraps:
  assumes "4 \<le> length (sram_data (e_scratchpad s))" and "length (sram_data (e_scratchpad s)) < 2 ^ 32 - 8"
    and "command p = TlmRead" and "address p = - 4" and "tlen p = 8"
  shows "fst (memory_transport p s) = Undef"
proof -
  have "unat (sram_size (e_scratchpad s)) = length (sram_data (e_scratchpad s))"
    using assms(2) by (simp add: sram_size_def unat_of_nat)
  then have "\<not> address p + ucast (tlen p) > sram_size (e_scratchpad s)"
    using assms by (simp add: word_less_nat_alt)
  moreover have "unat (ucast (- 4 :: u64) :: u32) = 2 ^ 32 - 4" by simp
  ultimately show ?thesis
    using assms by (simp add: memory_transport_def bind_def mem_read_def Let_def)
qed

theorem tlm_memory_wraps_witness:
  "fst (memory_transport (demo_payload\<lparr>command := TlmRead, address := - 4, tlen := 8\<rparr>) (emu_new 64 16)) = Undef"
proof -
  have "length (sram_data (e_scratchpad (emu_new 64 16))) = 64" by code_simp
  then show ?thesis
    using tlm_memory_wraps [of "emu_new 64 16" "demo_payload\<lparr>command := TlmRead, address := - 4, tlen := 8\<rparr>"] by simp
qed

section \<open>Co-emulation\<close>

datatype fpga_op = FConfigure fpga_config | FConnect | FDisconnect | FMatmul nat nat nat u32 | FDma "u8 list" "u8 list" u32 bool

text \<open>The state after a call, with the arrays that the matrix products work on.\<close>

fun fpga_step :: "fpu \<Rightarrow> fpga_op \<Rightarrow> f32 list list \<times> fpga \<Rightarrow> (f32 list list \<times> fpga) res" where
  "fpga_step fp (FConfigure c) (V, f) = Ok (V, fpga_configure c f)"
| "fpga_step fp FConnect (V, f) = Ok (V, snd (fpga_connect f))"
| "fpga_step fp FDisconnect (V, f) = Ok (V, fpga_disconnect f)"
| "fpga_step fp (FMatmul d a b n) (V, f) = map_res snd (offload_matmul fp d a b n V f)"
| "fpga_step fp (FDma src dst n w) (V, f) = map_res (\<lambda>r. (V, snd (snd r))) (offload_dma src dst n w f)"

fun fpga_run :: "fpu \<Rightarrow> fpga_op list \<Rightarrow> f32 list list \<times> fpga \<Rightarrow> (f32 list list \<times> fpga) res" where
  "fpga_run fp [] s = Ok s"
| "fpga_run fp (x # xs) s = bind_res (fpga_step fp x s) (fpga_run fp xs)"

fun is_offload :: "fpga_op \<Rightarrow> bool" where
  "is_offload (FMatmul d a b n) = True"
| "is_offload (FDma src dst n w) = True"
| "is_offload _ = False"

lemma fpga_step_counts:
  "fpga_step fp x (V, f) = Ok (V', f') \<Longrightarrow>
   offloaded f' + fallback f' = offloaded f + fallback f + of_bool (is_offload x)"
  by (cases x) (auto simp: fpga_configure_def fpga_connect_def fpga_disconnect_def offload_matmul_def offload_dma_def
      Let_def mem_read_def mem_write_def split: if_splits)

text \<open>
  Every offload request is counted once: after any sequence of configuration, connection and
  offload calls, the operations offloaded and those handed back to the caller add up to the
  requests made.
\<close>

theorem fpga_requests_counted:
  assumes "fpga_run fp xs (V, fpga_new c) = Ok (V', f)"
  shows "offloaded f + fallback f = of_nat (length (filter is_offload xs))"
proof -
  have "fpga_run fp xs (V, g) = Ok (V', f) \<Longrightarrow>
      offloaded f + fallback f = offloaded g + fallback g + of_nat (length (filter is_offload xs))" for g
  proof (induction xs arbitrary: V g)
    case (Cons x xs)
    from Cons.prems obtain V1 g1 where "fpga_step fp x (V, g) = Ok (V1, g1)" "fpga_run fp xs (V1, g1) = Ok (V', f)"
      by (cases "fpga_step fp x (V, g)") auto
    with Cons.IH fpga_step_counts show ?case by force
  qed simp
  from this [OF assms] show ?thesis by (simp add: fpga_new_def)
qed

theorem fpga_requests_counted_witness:
  "\<exists>V f. fpga_run int_fpu [FMatmul 0 1 2 4, FConnect, FMatmul 0 1 2 4, FDma [1, 2] [0, 0] 2 False]
      (ramp_vrs, fpga_new \<lparr>backend = FpgaSimulated, bitstream = '''', device_id = 0, fallback_to_sim = True\<rparr>) = Ok (V, f)
    \<and> offloaded f + fallback f = 3 \<and> offloaded f = 2"
proof -
  let ?r = "fpga_run int_fpu [FMatmul 0 1 2 4, FConnect, FMatmul 0 1 2 4, FDma [1, 2] [0, 0] 2 False]
      (ramp_vrs, fpga_new \<lparr>backend = FpgaSimulated, bitstream = '''', device_id = 0, fallback_to_sim = True\<rparr>)"
  have "map_res (\<lambda>r. offloaded (snd r)) ?r = Ok 2" by code_simp
  then obtain V f where "?r = Ok (V, f)" "offloaded f = 2" by (cases ?r) auto
  with fpga_requests_counted [OF this(1)] show ?thesis by auto
qed

end
