(* ===== verification/Pipeline.thy ===== *)
theory Pipeline
  imports Isa "HOL-Library.Multiset"
begin

text \<open>
  The timing side of the emulator that does not touch architectural state:
  \<^verbatim>\<open>include/aiasm/pipeline.h\<close> and \<^verbatim>\<open>src/pipeline.cpp\<close> (reservation stations, commit,
  two-bit branch predictor), the timing controller of \<^verbatim>\<open>include/aiasm/timing.h\<close> and the
  deterministic clock of \<^verbatim>\<open>include/aiasm/deterministic.h\<close>. The mutex of the clock makes each
  \<open>tick\<close> one atomic step, so a multi-threaded run is a sequence of ticks in some order. The report
  strings and the stall rate (a \<open>double\<close>) are in \<open>Reports\<close> and \<open>Stats\<close>.
\<close>

section \<open>Reservation stations\<close>

record reservation_station =
  occupied :: bool
  rs_instr :: instruction
  rs_dst :: u8
  src1_ready :: bool
  src2_ready :: bool
  src1_val :: u32
  src2_val :: u32
  rs_issue_cycle :: u64

record rob_entry =
  rob_valid :: bool
  rob_instr :: instruction
  rob_dst :: u8
  rob_result :: u32
  rob_completed :: bool
  ready_cycle :: u64

record pipeline_config =
  ooo :: bool
  register_renaming :: bool
  branch_prediction :: bool
  fetch_width :: size_t
  issue_width :: size_t

record pipeline =
  p_cfg :: pipeline_config
  rs :: "reservation_station list"
  rob :: "rob_entry list"
  rob_head :: size_t
  rob_tail :: size_t
  stalls :: u64
  mispredicts :: u64
  bpred :: "u8 list"

definition kRSSize :: nat where "kRSSize = 8"
definition kROBSize :: nat where "kROBSize = 16"

definition rs_init :: reservation_station where
  "rs_init = \<lparr>occupied = False, rs_instr = \<lparr>raw = 0\<rparr>, rs_dst = 0, src1_ready = False, src2_ready = False,
     src1_val = 0, src2_val = 0, rs_issue_cycle = 0\<rparr>"

definition rob_init :: rob_entry where
  "rob_init = \<lparr>rob_valid = False, rob_instr = \<lparr>raw = 0\<rparr>, rob_dst = 0, rob_result = 0, rob_completed = False, ready_cycle = 0\<rparr>"

definition pipeline_config_default :: pipeline_config where
  "pipeline_config_default = \<lparr>ooo = False, register_renaming = False, branch_prediction = True, fetch_width = 1, issue_width = 1\<rparr>"

definition pipeline_new :: "pipeline_config \<Rightarrow> pipeline" where
  "pipeline_new cfg = \<lparr>p_cfg = cfg, rs = replicate kRSSize rs_init, rob = replicate kROBSize rob_init,
     rob_head = 0, rob_tail = 0, stalls = 0, mispredicts = 0, bpred = replicate 256 0\<rparr>"

definition pipeline_configure :: "pipeline_config \<Rightarrow> pipeline \<Rightarrow> pipeline" where
  "pipeline_configure c p = p\<lparr>p_cfg := c\<rparr>"

definition pipeline_reset :: "pipeline \<Rightarrow> pipeline" where
  "pipeline_reset p = p\<lparr>rs := replicate kRSSize rs_init, rob := replicate kROBSize rob_init,
     rob_head := 0, rob_tail := 0, stalls := 0, mispredicts := 0\<rparr>"

text \<open>The loop of \<open>try_issue\<close>: the first free station takes the instruction.\<close>

fun issue_into :: "instruction \<Rightarrow> u64 \<Rightarrow> reservation_station list \<Rightarrow> reservation_station list option" where
  "issue_into i now [] = None"
| "issue_into i now (r # ss) =
     (if \<not> occupied r then Some (r\<lparr>occupied := True, rs_instr := i, rs_issue_cycle := now\<rparr> # ss)
      else map_option (\<lambda>ss'. r # ss') (issue_into i now ss))"

definition try_issue :: "instruction \<Rightarrow> u64 \<Rightarrow> pipeline \<Rightarrow> u32 \<times> pipeline" where
  "try_issue i now p =
     (if \<not> ooo (p_cfg p) then (0, p)
      else case issue_into i now (rs p) of
          Some ss \<Rightarrow> (0, p\<lparr>rs := ss\<rparr>)
        | None \<Rightarrow> (1, p\<lparr>stalls := stalls p + 1\<rparr>))"

text \<open>The loop of \<open>commit\<close>, with \<open>n\<close> instructions committed so far.\<close>

definition committable :: "u64 \<Rightarrow> reservation_station \<Rightarrow> bool" where
  "committable now r \<longleftrightarrow> occupied r \<and> rs_issue_cycle r + 1 \<le> now"

fun commit_loop :: "size_t \<Rightarrow> u64 \<Rightarrow> u32 \<Rightarrow> reservation_station list \<Rightarrow> u32 \<times> reservation_station list" where
  "commit_loop width now n [] = (n, [])"
| "commit_loop width now n (r # ss) =
     (if committable now r
      then let r' = r\<lparr>occupied := False\<rparr> in
           if width \<le> ucast (n + 1) then (n + 1, r' # ss)
           else (case commit_loop width now (n + 1) ss of (m, ss') \<Rightarrow> (m, r' # ss'))
      else (case commit_loop width now n ss of (m, ss') \<Rightarrow> (m, r # ss')))"

definition commit :: "u64 \<Rightarrow> pipeline \<Rightarrow> u32 \<times> pipeline" where
  "commit now p = (case commit_loop (issue_width (p_cfg p)) now 0 (rs p) of (n, ss) \<Rightarrow> (n, p\<lparr>rs := ss\<rparr>))"

section \<open>Branch predictor\<close>

definition predict_taken :: "u32 \<Rightarrow> pipeline \<Rightarrow> bool" where
  "predict_taken pc p \<longleftrightarrow> branch_prediction (p_cfg p) \<and> bpred p ! (unat pc mod 256) AND 2 \<noteq> 0"

definition train :: "bool \<Rightarrow> u8 \<Rightarrow> u8" where
  "train taken ctr = (if taken then (if ctr < 3 then ctr + 1 else 3) else (if ctr > 0 then ctr - 1 else 0))"

definition update_predictor :: "u32 \<Rightarrow> bool \<Rightarrow> bool \<Rightarrow> pipeline \<Rightarrow> pipeline" where
  "update_predictor pc taken mispredicted p =
     (let k = unat pc mod 256;
          q = p\<lparr>bpred := (bpred p)[k := train taken (bpred p ! k)]\<rparr>
      in if mispredicted then q\<lparr>mispredicts := mispredicts q + 1\<rparr> else q)"

section \<open>Timing controller\<close>

datatype timing_mode = Functional | CycleApproximate | CycleAccurate

fun timing_mode_name :: "timing_mode \<Rightarrow> string" where
  "timing_mode_name Functional = ''functional''"
| "timing_mode_name CycleApproximate = ''cycle-approximate''"
| "timing_mode_name CycleAccurate = ''cycle-accurate''"

record timing_config =
  t_mode :: timing_mode
  model_branch_mispredict :: bool
  model_cache_miss :: bool
  model_memory_latency :: bool
  branch_mispredict_penalty :: u32
  cache_miss_penalty :: u32
  memory_latency :: u32

definition timing_default :: timing_config where
  "timing_default = \<lparr>t_mode = CycleApproximate, model_branch_mispredict = True, model_cache_miss = True,
     model_memory_latency = True, branch_mispredict_penalty = 3, cache_miss_penalty = 10, memory_latency = 100\<rparr>"

definition timing_set_mode :: "timing_mode \<Rightarrow> timing_config \<Rightarrow> timing_config" where
  "timing_set_mode m c = c\<lparr>t_mode := m\<rparr>"

definition adjust :: "timing_config \<Rightarrow> u32 \<Rightarrow> bool \<Rightarrow> bool \<Rightarrow> bool \<Rightarrow> bool \<Rightarrow> u32" where
  "adjust cfg base_cycles branch_taken branch_mispredict cache_miss is_memory_op =
     (case t_mode cfg of
        Functional \<Rightarrow> 1
      | CycleApproximate \<Rightarrow> base_cycles
      | CycleAccurate \<Rightarrow> base_cycles
          + (if model_branch_mispredict cfg \<and> branch_mispredict then branch_mispredict_penalty cfg else 0)
          + (if model_cache_miss cfg \<and> cache_miss then cache_miss_penalty cfg else 0)
          + (if model_memory_latency cfg \<and> is_memory_op then memory_latency cfg div 10 else 0))"

definition timing_describe :: "timing_config \<Rightarrow> string" where
  "timing_describe c = ''timing='' @ timing_mode_name (t_mode c)
     @ (if model_branch_mispredict c then '' +branch'' else '''')
     @ (if model_cache_miss c then '' +cache'' else '''')"

section \<open>Deterministic clock\<close>

record det_engine =
  quantum :: u64
  global_clock :: u64
  seq :: u64
  clocks :: "u64 list"

definition kMaxCores :: nat where "kMaxCores = 16"

definition det_new :: "u64 \<Rightarrow> det_engine" where
  "det_new q = \<lparr>quantum = q, global_clock = 0, seq = 0, clocks = replicate kMaxCores 0\<rparr>"

definition det_set_quantum :: "u64 \<Rightarrow> det_engine \<Rightarrow> det_engine" where
  "det_set_quantum q d = d\<lparr>quantum := q\<rparr>"

text \<open>The barrier test divides by the quantum.\<close>

definition det_tick :: "u32 \<Rightarrow> u64 \<Rightarrow> det_engine \<Rightarrow> (bool \<times> det_engine) res" where
  "det_tick core_id cycles d =
     (let k = unat core_id mod kMaxCores;
          d' = d\<lparr>clocks := (clocks d)[k := clocks d ! k + cycles], global_clock := global_clock d + cycles, seq := seq d + 1\<rparr>
      in if quantum d = 0 then Undef else Ok (global_clock d' mod quantum d' = 0, d'))"

definition det_reset :: "det_engine \<Rightarrow> det_engine" where
  "det_reset d = d\<lparr>global_clock := 0, seq := 0, clocks := replicate kMaxCores 0\<rparr>"

section \<open>Occupancy\<close>

definition occupancy :: "reservation_station list \<Rightarrow> nat" where
  "occupancy ss = length (filter occupied ss)"

lemma occupancy_simps [simp]:
  "occupancy [] = 0" "occupancy (r # ss) = of_bool (occupied r) + occupancy ss"
  by (simp_all add: occupancy_def)

lemma occupancy_le: "occupancy ss \<le> length ss"
  by (simp add: occupancy_def)

lemma issue_into_Some:
  "issue_into i now ss = Some ss' \<Longrightarrow> occupancy ss' = Suc (occupancy ss) \<and> length ss' = length ss"
  by (induction ss arbitrary: ss') (auto split: if_splits)

lemma issue_into_None: "issue_into i now ss = None \<longleftrightarrow> occupancy ss = length ss"
proof (induction ss)
  case (Cons r ss)
  then show ?case using occupancy_le [of ss] by auto
qed simp

text \<open>What the commit loop frees it counts; with a committable station it frees at least one.\<close>

lemma commit_loop_counts:
  "commit_loop width now n ss = (m, ss') \<Longrightarrow>
   \<exists>k. m = n + of_nat k \<and> occupancy ss = occupancy ss' + k \<and> length ss' = length ss
     \<and> (k = 0 \<longleftrightarrow> (\<forall>r \<in> set ss. \<not> committable now r))"
proof (induction ss arbitrary: n m ss')
  case (Cons r ss)
  show ?case
  proof (cases "committable now r")
    case True
    then have occ: "occupied r" by (simp add: committable_def)
    show ?thesis
    proof (cases "width \<le> ucast (n + 1)")
      case True
      with \<open>committable now r\<close> occ Cons.prems show ?thesis
        by (intro exI [of _ 1]) (auto simp: Let_def)
    next
      case False
      obtain m1 ss1 where rec: "commit_loop width now (n + 1) ss = (m1, ss1)" by force
      from Cons.IH [OF rec] obtain k where "m1 = n + 1 + of_nat k" "occupancy ss = occupancy ss1 + k"
        "length ss1 = length ss" by blast
      with rec False \<open>committable now r\<close> occ Cons.prems show ?thesis
        by (intro exI [of _ "Suc k"]) (auto simp: Let_def)
    qed
  next
    case False
    obtain m1 ss1 where rec: "commit_loop width now n ss = (m1, ss1)" by force
    from Cons.IH [OF rec] rec False Cons.prems show ?thesis by auto
  qed
qed auto

section \<open>Operation sequences\<close>

datatype pipe_op = Issue instruction u64 | Commit u64

text \<open>The number of instructions accepted and committed, and the pipeline, after a sequence.\<close>

fun pipe_run :: "pipe_op list \<Rightarrow> nat \<times> nat \<times> pipeline \<Rightarrow> nat \<times> nat \<times> pipeline" where
  "pipe_run [] s = s"
| "pipe_run (Issue i now # os) (acc, done, p) =
     (case try_issue i now p of (st, p') \<Rightarrow> pipe_run os (acc + (if st = 0 then 1 else 0), done, p'))"
| "pipe_run (Commit now # os) (acc, done, p) =
     (case commit now p of (n, p') \<Rightarrow> pipe_run os (acc, done + unat n, p'))"

definition pipe_ok :: "nat \<times> nat \<times> pipeline \<Rightarrow> bool" where
  "pipe_ok s \<longleftrightarrow> (case s of (acc, done, p) \<Rightarrow> ooo (p_cfg p) \<and> length (rs p) = 8 \<and> acc = done + occupancy (rs p))"

lemma try_issue_ok:
  assumes "pipe_ok (acc, done, p)" and "try_issue i now p = (st, p')"
  shows "pipe_ok (acc + (if st = 0 then 1 else 0), done, p')"
  using assms issue_into_Some [of i now "rs p"]
  by (auto simp: pipe_ok_def try_issue_def split: option.splits)

lemma commit_ok:
  assumes "pipe_ok (acc, done, p)" and "commit now p = (n, p')"
  shows "pipe_ok (acc, done + unat n, p')"
proof -
  obtain m ss where c: "commit_loop (issue_width (p_cfg p)) now 0 (rs p) = (m, ss)" by force
  from commit_loop_counts [OF c] obtain k where
    k: "m = 0 + of_nat k" "occupancy (rs p) = occupancy ss + k" "length ss = length (rs p)" by blast
  from k assms(1) have "k \<le> 8" using occupancy_le [of "rs p"] by (simp add: pipe_ok_def)
  then have "unat (of_nat k :: u32) = k" by (simp add: unat_of_nat)
  with k c assms show ?thesis by (auto simp: pipe_ok_def commit_def)
qed

lemma pipe_run_ok: "pipe_ok s \<Longrightarrow> pipe_ok (pipe_run os s)"
proof (induction os s rule: pipe_run.induct)
  case (2 i now os acc "done" p)
  obtain st p' where t: "try_issue i now p = (st, p')" by force
  with 2 show ?case by (auto dest: try_issue_ok)
next
  case (3 now os acc "done" p)
  obtain n p' where t: "commit now p = (n, p')" by force
  with 3 show ?case by (auto dest: commit_ok)
qed simp

section \<open>Properties\<close>

text \<open>
  C39. No instruction is lost in the reservation stations: after any sequence of issue and
  commit calls on an out-of-order pipeline, the instructions accepted are those committed plus
  those still occupying one of the eight stations, and the next issue stalls exactly when all
  eight are occupied.
\<close>

theorem pipeline_conserves:
  assumes "ooo cfg" and "pipe_run os (0, 0, pipeline_new cfg) = (acc, done, p)"
  shows "acc = done + occupancy (rs p) \<and> occupancy (rs p) \<le> 8
     \<and> (fst (try_issue i now p) = 1 \<longleftrightarrow> occupancy (rs p) = 8)"
proof -
  have "pipe_ok (0, 0, pipeline_new cfg)"
    using assms(1) by (simp add: pipe_ok_def pipeline_new_def kRSSize_def occupancy_def rs_init_def)
  from pipe_run_ok [OF this, of os] assms(2)
  have "ooo (p_cfg p)" "length (rs p) = 8" "acc = done + occupancy (rs p)" by (simp_all add: pipe_ok_def)
  then show ?thesis using occupancy_le [of "rs p"] issue_into_None [of i now "rs p"]
    by (auto simp: try_issue_def split: option.split)
qed

definition demo_ooo :: pipeline_config where
  "demo_ooo = pipeline_config_default\<lparr>ooo := True, issue_width := 2\<rparr>"

theorem pipeline_conserves_witness:
  "case pipe_run (replicate 9 (Issue \<lparr>raw = 0\<rparr> 5) @ [Commit 6]) (0, 0, pipeline_new demo_ooo) of
     (acc, done, p) \<Rightarrow> acc = 8 \<and> done = 2 \<and> stalls p = 1 \<and> acc = done + occupancy (rs p) \<and> occupancy (rs p) \<le> 8"
proof -
  obtain acc "done" p where r: "pipe_run (replicate 9 (Issue \<lparr>raw = 0\<rparr> 5) @ [Commit 6]) (0, 0, pipeline_new demo_ooo)
      = (acc, done, p)" by (metis prod_cases3)
  have "(case pipe_run (replicate 9 (Issue \<lparr>raw = 0\<rparr> 5) @ [Commit 6]) (0, 0, pipeline_new demo_ooo) of
     (acc, done, p) \<Rightarrow> acc = 8 \<and> done = 2 \<and> stalls p = 1)" by code_simp
  with pipeline_conserves [OF _ r] r show ?thesis by (auto simp: demo_ooo_def)
qed

lemma counter_cases: "(c :: u8) \<le> 3 \<Longrightarrow> c = 0 \<or> c = 1 \<or> c = 2 \<or> c = 3"
  by (simp add: word_le_nat_alt word_unat_eq_iff) linarith

lemma train_laws:
  assumes "c \<le> 3"
  shows "train b c \<le> 3" and "train b (train b c) AND 2 \<noteq> 0 \<longleftrightarrow> b"
    and "train (\<not> b) (train b (train b (train b c))) AND 2 \<noteq> 0 \<longleftrightarrow> b"
  using counter_cases [OF assms] by (cases b; auto simp: train_def)+

lemma update_predictor_sel [simp]:
  "bpred (update_predictor pc b m p) = (bpred p)[unat pc mod 256 := train b (bpred p ! (unat pc mod 256))]"
  "p_cfg (update_predictor pc b m p) = p_cfg p"
  by (simp_all add: update_predictor_def Let_def)

text \<open>
  Two outcomes train the branch predictor and one does not untrain it: with prediction on
  and a counter in its range 0 to 3, two equal outcomes make the prediction agree with them; after
  three, one opposite outcome does not flip it; the counter stays in range, and a branch with
  another table entry is predicted as before.
\<close>

theorem predictor_two_bit:
  fixes p :: pipeline and pc :: u32
  assumes "branch_prediction (p_cfg p)" and "length (bpred p) = 256" and "bpred p ! (unat pc mod 256) \<le> 3"
  defines "upd \<equiv> \<lambda>b. update_predictor pc b False"
  shows "predict_taken pc (upd b (upd b p)) = b
    \<and> predict_taken pc (upd (\<not> b) (upd b (upd b (upd b p)))) = b
    \<and> bpred (upd b p) ! (unat pc mod 256) \<le> 3
    \<and> (unat pc' mod 256 = unat pc mod 256 \<or> predict_taken pc' (upd b p) = predict_taken pc' p)"
  using assms(1,2) train_laws [OF assms(3)]
  by (auto simp: upd_def predict_taken_def)

theorem predictor_two_bit_witness:
  "predict_taken 0x104 (update_predictor 0x104 True False (update_predictor 0x104 True False (pipeline_new pipeline_config_default)))
   \<and> \<not> predict_taken 0x108 (update_predictor 0x104 True False (pipeline_new pipeline_config_default))"
proof -
  have n: "branch_prediction (p_cfg (pipeline_new pipeline_config_default))"
    "length (bpred (pipeline_new pipeline_config_default)) = 256"
    "bpred (pipeline_new pipeline_config_default) ! (unat (0x104 :: u32) mod 256) \<le> 3"
    "\<not> predict_taken 0x108 (pipeline_new pipeline_config_default)"
    by (simp_all add: pipeline_new_def pipeline_config_default_def predict_taken_def)
  show ?thesis
    using predictor_two_bit [OF n(1-3), of True "0x108"] n(4) by simp
qed

section \<open>The deterministic clock\<close>

fun det_run :: "(u32 \<times> u64) list \<Rightarrow> det_engine \<Rightarrow> det_engine res" where
  "det_run [] d = Ok d"
| "det_run ((k, n) # ts) d = bind_res (det_tick k n d) (\<lambda>(_, d'). det_run ts d')"

definition cycles_of :: "nat \<Rightarrow> (u32 \<times> u64) list \<Rightarrow> u64" where
  "cycles_of k ts = sum_list (map snd (filter (\<lambda>t. unat (fst t) mod kMaxCores = k) ts))"

lemma det_run_result:
  assumes "quantum d \<noteq> 0" and "length (clocks d) = kMaxCores"
  shows "det_run ts d = Ok (d\<lparr>clocks := map (\<lambda>k. clocks d ! k + cycles_of k ts) [0..<kMaxCores],
     global_clock := global_clock d + sum_list (map snd ts), seq := seq d + of_nat (length ts)\<rparr>)"
  using assms
proof (induction ts arbitrary: d)
  case Nil
  have "map ((!) (clocks d)) [0..<kMaxCores] = clocks d" using map_nth [of "clocks d"] Nil(2) by simp
  then show ?case by (simp add: cycles_of_def)
next
  case (Cons t ts)
  obtain k n where t: "t = (k, n)" by force
  let ?k = "unat k mod kMaxCores"
  let ?d = "d\<lparr>clocks := (clocks d)[?k := clocks d ! ?k + n], global_clock := global_clock d + n, seq := seq d + 1\<rparr>"
  have k: "?k < kMaxCores" by (simp add: kMaxCores_def)
  have "map (\<lambda>j. (clocks d)[?k := clocks d ! ?k + n] ! j + cycles_of j ts) [0..<kMaxCores]
      = map (\<lambda>j. clocks d ! j + cycles_of j (t # ts)) [0..<kMaxCores]"
    using Cons.prems k by (auto simp: nth_list_update cycles_of_def t ac_simps)
  with Cons.IH [of ?d] Cons.prems show ?case
    by (simp add: t det_tick_def Let_def ac_simps)
qed

text \<open>
  The deterministic clock does not depend on the interleaving of the cores: two runs in
  which the same ticks happen, in whatever order the threads took the lock, leave the engine
  in the same state, in which the global clock has advanced by the sum of all cycles, each core's
  clock by the sum of its own, and the sequence number by the number of ticks.
\<close>

theorem clock_order_independent:
  assumes "q \<noteq> 0" and "mset ts = mset us"
  shows "det_run ts (det_new q) = det_run us (det_new q)
     \<and> det_run ts (det_new q) = Ok \<lparr>quantum = q, global_clock = sum_list (map snd ts), seq = of_nat (length ts),
          clocks = map (\<lambda>k. cycles_of k ts) [0..<kMaxCores]\<rparr>"
proof -
  have "cycles_of k ts = cycles_of k us" for k
    by (simp add: cycles_of_def assms(2) flip: sum_mset_sum_list)
  moreover have "sum_list (map snd ts) = sum_list (map snd us)"
    by (simp add: assms(2) flip: sum_mset_sum_list)
  moreover have "length ts = length us" using assms(2) by (rule mset_eq_length)
  moreover have "map (\<lambda>k. replicate kMaxCores 0 ! k + cycles_of k xs) [0..<kMaxCores] = map (\<lambda>k. cycles_of k xs) [0..<kMaxCores]" for xs
    by simp
  ultimately show ?thesis
    using assms(1) det_run_result [of "det_new q" ts] det_run_result [of "det_new q" us]
    by (simp add: det_new_def)
qed

theorem clock_order_independent_witness:
  "det_run [(0, 3), (1, 4), (17, 5)] (det_new 1000) = det_run [(17, 5), (0, 3), (1, 4)] (det_new 1000)
   \<and> map_res (\<lambda>d. (global_clock d, take 2 (clocks d))) (det_run [(0, 3), (1, 4), (17, 5)] (det_new 1000)) = Ok (12, [3, 9])"
proof -
  have "map_res (\<lambda>d. (global_clock d, take 2 (clocks d))) (det_run [(0, 3), (1, 4), (17, 5)] (det_new 1000)) = Ok (12, [3, 9])"
    by code_simp
  then show ?thesis
    using clock_order_independent [of 1000 "[(0, 3), (1, 4), (17, 5)]" "[(17, 5), (0, 3), (1, 4)]"] by simp
qed

text \<open>
  The barrier is not raised in every quantum: the test is for equality with a multiple,
  so a tick that steps over the multiple raises nothing. With a quantum of 1000 and ticks of
  three cycles, the first 400 ticks pass cycle 1000 without a barrier.
\<close>

theorem barrier_stepped_over:
  "map_res global_clock (det_run (replicate 333 (0, 3)) (det_new 1000)) = Ok 999
   \<and> bind_res (det_run (replicate 333 (0, 3)) (det_new 1000)) (\<lambda>d. map_res fst (det_tick 0 3 d)) = Ok False
   \<and> bind_res (det_run (replicate 333 (0, 3)) (det_new 1000)) (\<lambda>d. map_res (\<lambda>r. global_clock (snd r)) (det_tick 0 3 d)) = Ok 1002"
  using det_run_result [of "det_new 1000" "replicate 333 (0, 3)"]
  by (simp add: det_new_def kMaxCores_def det_tick_def Let_def sum_list_replicate)

end
