(* ===== verification/Cache.thy ===== *)
theory Cache
  imports Prelude "HOL-Library.Multiset"
begin

text \<open>
  The cache hierarchy and memory controller of \<^verbatim>\<open>include/aiasm/cache.h\<close> and
  \<^verbatim>\<open>src/cache.cpp\<close>: set-associative caches whose lines carry time stamps, a row-buffer model
  of the memory controller, and the three-level hierarchy that adds up stall cycles.

  The main result is a refinement: the cache with its time stamps behaves as one
  most-recently-used list of lines per set, of at most \<open>associativity\<close> entries. It needs that
  the 64-bit tick has not wrapped. A division by zero is undefined behaviour. The rates
  and report strings are in \<open>Stats\<close>.
\<close>

section \<open>A single cache\<close>

datatype coherence_protocol = CohNone | MESI | MOESI

record cache_config =
  size_bytes :: size_t
  line_bytes :: size_t
  associativity :: size_t
  coherence :: coherence_protocol
  hit_latency :: u32
  miss_penalty :: u32

record cache_stats =
  hits :: u64
  misses :: u64
  writebacks :: u64

record cline =
  l_valid :: bool
  l_dirty :: bool
  l_tag :: u32
  l_mesi :: u8
  l_lru :: u64

record cache =
  c_cfg :: cache_config
  c_sets :: "cline list list"
  c_tick :: u64
  c_stats :: cache_stats

definition line_init :: cline where
  "line_init = \<lparr>l_valid = False, l_dirty = False, l_tag = 0, l_mesi = 0, l_lru = 0\<rparr>"

definition cache_stats_init :: cache_stats where
  "cache_stats_init = \<lparr>hits = 0, misses = 0, writebacks = 0\<rparr>"

definition cache_configure :: "cache_config \<Rightarrow> cache res" where
  "cache_configure cfg =
    (let way = line_bytes cfg * associativity cfg in
     if way = 0 then Undef
     else Ok \<lparr>c_cfg = cfg,
       c_sets = replicate (unat (size_bytes cfg div way)) (replicate (unat (associativity cfg)) line_init),
       c_tick = 0, c_stats = cache_stats_init\<rparr>)"

text \<open>The first valid line of a set with the tag.\<close>

definition line_match :: "u32 \<Rightarrow> cline \<Rightarrow> bool" where
  "line_match tag l \<longleftrightarrow> l_valid l \<and> l_tag l = tag"

fun find_index :: "('a \<Rightarrow> bool) \<Rightarrow> 'a list \<Rightarrow> nat option" where
  "find_index P [] = None"
| "find_index P (x # xs) = (if P x then Some 0 else map_option Suc (find_index P xs))"

text \<open>The line the eviction loop ends with: \<open>if (l.lru < victim->lru) victim = &l\<close>.\<close>

definition victim :: "cline list \<Rightarrow> nat" where
  "victim ls = foldl (\<lambda>v i. if l_lru (ls ! i) < l_lru (ls ! v) then i else v) 0 [0..<length ls]"

definition line_of :: "cache \<Rightarrow> u32 \<Rightarrow> u32" where
  "line_of c addr = ucast (ucast addr div line_bytes (c_cfg c))"

definition set_of :: "cache \<Rightarrow> u32 \<Rightarrow> nat" where
  "set_of c addr = unat (line_of c addr) mod length (c_sets c)"

text \<open>
  \<open>Cache::access\<close>: the returned flag, \<open>*stall_cycles\<close> afterwards (given what it held before),
  and the cache.
\<close>

definition cache_access :: "u32 \<Rightarrow> bool \<Rightarrow> u32 \<Rightarrow> cache \<Rightarrow> (bool \<times> u32 \<times> cache) res" where
  "cache_access addr is_write stall0 c =
    (if c_sets c = [] then Ok (True, stall0, c)
     else if line_bytes (c_cfg c) = 0 then Undef
     else
       let tag = line_of c addr; j = set_of c addr; now = c_tick c + 1; ls = c_sets c ! j; st = c_stats c in
       case find_index (line_match tag) ls of
         Some i \<Rightarrow>
           Ok (True, hit_latency (c_cfg c), c\<lparr>c_tick := now, c_stats := st\<lparr>hits := hits st + 1\<rparr>,
             c_sets := (c_sets c)[j := ls[i := (ls ! i)\<lparr>l_lru := now, l_dirty := (is_write \<or> l_dirty (ls ! i))\<rparr>]]\<rparr>)
       | None \<Rightarrow>
           if ls = [] then Undef
           else
             let v = victim ls;
                 st' = (if l_dirty (ls ! v) then st\<lparr>writebacks := writebacks st + 1\<rparr> else st) in
             Ok (False, miss_penalty (c_cfg c), c\<lparr>c_tick := now, c_stats := st'\<lparr>misses := misses st' + 1\<rparr>,
               c_sets := (c_sets c)[j := ls[v := (ls ! v)\<lparr>l_valid := True, l_tag := tag, l_dirty := is_write, l_lru := now\<rparr>]]\<rparr>))"

definition cache_flush :: "cache \<Rightarrow> cache" where
  "cache_flush c = c\<lparr>c_sets := map (map (\<lambda>l. l\<lparr>l_valid := False, l_dirty := False\<rparr>)) (c_sets c)\<rparr>"

definition cache_reset_stats :: "cache \<Rightarrow> cache" where
  "cache_reset_stats c = c\<lparr>c_stats := cache_stats_init\<rparr>"

section \<open>The memory controller\<close>

datatype memory_type = DDR5 | HBM3

record mc_config =
  mc_type :: memory_type
  tCAS :: u32
  tRCD :: u32
  tRP :: u32
  banks :: u32
  bank_groups :: u32
  bandwidth_GBs :: u32

record mem_controller =
  mc_cfg :: mc_config
  row_hits :: u64
  row_misses :: u64
  open_rows :: "u32 list"

definition mc_config_default :: mc_config where
  "mc_config_default = \<lparr>mc_type = DDR5, tCAS = 16, tRCD = 16, tRP = 16, banks = 16, bank_groups = 4, bandwidth_GBs = 64\<rparr>"

definition mc_new :: "mc_config \<Rightarrow> mem_controller" where
  "mc_new cfg = \<lparr>mc_cfg = cfg, row_hits = 0, row_misses = 0, open_rows = replicate 32 0\<rparr>"

definition mc_configure :: "mc_config \<Rightarrow> mem_controller \<Rightarrow> mem_controller" where
  "mc_configure cfg mc = mc\<lparr>mc_cfg := cfg\<rparr>"

definition mc_access :: "u32 \<Rightarrow> bool \<Rightarrow> mem_controller \<Rightarrow> (u32 \<times> mem_controller) res" where
  "mc_access addr is_write mc =
    (if banks (mc_cfg mc) = 0 then Undef
     else
       let b = unat ((addr div 64) mod banks (mc_cfg mc)) mod 32; row = drop_bit 12 addr in
       if open_rows mc ! b = row then Ok (tCAS (mc_cfg mc), mc\<lparr>row_hits := row_hits mc + 1\<rparr>)
       else Ok (tCAS (mc_cfg mc) + tRCD (mc_cfg mc) + tRP (mc_cfg mc),
         mc\<lparr>row_misses := row_misses mc + 1, open_rows := (open_rows mc)[b := row]\<rparr>))"

definition mc_total_accesses :: "mem_controller \<Rightarrow> u64" where
  "mc_total_accesses mc = row_hits mc + row_misses mc"

definition mc_reset :: "mem_controller \<Rightarrow> mem_controller" where
  "mc_reset mc = mc\<lparr>row_hits := 0, row_misses := 0, open_rows := replicate 32 0xFFFFFFFF\<rparr>"

section \<open>The hierarchy\<close>

record hierarchy =
  l1 :: cache
  l2 :: cache
  l3 :: cache
  mc :: mem_controller

definition l1_config :: cache_config where
  "l1_config = \<lparr>size_bytes = 32 * 1024, line_bytes = 64, associativity = 8, coherence = MESI, hit_latency = 1, miss_penalty = 10\<rparr>"
definition l2_config :: cache_config where
  "l2_config = \<lparr>size_bytes = 256 * 1024, line_bytes = 64, associativity = 8, coherence = MESI, hit_latency = 4, miss_penalty = 20\<rparr>"
definition l3_config :: cache_config where
  "l3_config = \<lparr>size_bytes = 2 * 1024 * 1024, line_bytes = 64, associativity = 16, coherence = MOESI, hit_latency = 12, miss_penalty = 40\<rparr>"

definition hier_new :: "hierarchy res" where
  "hier_new = bind_res (cache_configure l1_config) (\<lambda>a. bind_res (cache_configure l2_config) (\<lambda>b.
     bind_res (cache_configure l3_config) (\<lambda>c. Ok \<lparr>l1 = a, l2 = b, l3 = c, mc = mc_new mc_config_default\<rparr>)))"

definition hier_access :: "u32 \<Rightarrow> bool \<Rightarrow> hierarchy \<Rightarrow> (u32 \<times> hierarchy) res" where
  "hier_access addr w h =
    bind_res (cache_access addr w 0 (l1 h)) (\<lambda>(hit1, tmp1, a).
      if hit1 then Ok (tmp1, h\<lparr>l1 := a\<rparr>)
      else bind_res (cache_access addr w tmp1 (l2 h)) (\<lambda>(hit2, tmp2, b).
        if hit2 then Ok (tmp1 + tmp2, h\<lparr>l1 := a, l2 := b\<rparr>)
        else bind_res (cache_access addr w tmp2 (l3 h)) (\<lambda>(hit3, tmp3, c).
          if hit3 then Ok (tmp1 + tmp2 + tmp3, h\<lparr>l1 := a, l2 := b, l3 := c\<rparr>)
          else bind_res (mc_access addr w (mc h)) (\<lambda>(tmp4, d).
            Ok (tmp1 + tmp2 + tmp3 + tmp4, h\<lparr>l1 := a, l2 := b, l3 := c, mc := d\<rparr>)))))"

definition hier_reset :: "hierarchy \<Rightarrow> hierarchy" where
  "hier_reset h = h\<lparr>l1 := cache_reset_stats (l1 h), l2 := cache_reset_stats (l2 h),
     l3 := cache_reset_stats (l3 h), mc := mc_reset (mc h)\<rparr>"

section \<open>Lookup and eviction\<close>

lemma find_index_Some:
  "find_index P xs = Some i \<Longrightarrow> i < length xs \<and> P (xs ! i)"
  by (induction xs arbitrary: i) (auto split: if_splits)

lemma find_index_None: "find_index P xs = None \<longleftrightarrow> (\<forall>x \<in> set xs. \<not> P x)"
  by (induction xs) auto

lemma victim_prefix:
  assumes "n \<le> length ls" and "ls \<noteq> []"
  shows "let v = foldl (\<lambda>v i. if l_lru (ls ! i) < l_lru (ls ! v) then i else v) 0 [0..<n]
    in v < length ls \<and> (\<forall>i < n. l_lru (ls ! v) \<le> l_lru (ls ! i))"
  using assms(1)
proof (induction n)
  case (Suc n)
  then show ?case by (auto simp: Let_def less_Suc_eq)
qed (use assms(2) in simp)

lemma victim_min:
  assumes "ls \<noteq> []"
  shows "victim ls < length ls" and "l \<in> set ls \<Longrightarrow> l_lru (ls ! victim ls) \<le> l_lru l"
  using victim_prefix [OF le_refl assms] by (auto simp: victim_def Let_def in_set_conv_nth)

section \<open>The most-recently-used list of a set\<close>

text \<open>The specification: a hit moves the line to the front, a miss inserts it there and drops the last.\<close>

definition lru_access :: "nat \<Rightarrow> u32 \<Rightarrow> u32 list \<Rightarrow> u32 list" where
  "lru_access assoc t xs = take assoc (t # removeAll t xs)"

text \<open>
  \<open>ys\<close> are the valid lines of \<open>ls\<close>, the latest stamp first; no two have the same tag, and every
  invalid line is older than all of them (so invalid lines are reused first, also after a flush).
\<close>

definition mru :: "cline list \<Rightarrow> cline list \<Rightarrow> bool" where
  "mru ls ys \<longleftrightarrow> mset ys = mset (filter l_valid ls) \<and> sorted_wrt (\<lambda>a b. l_lru b < l_lru a) ys
     \<and> distinct (map l_tag ys) \<and> (\<forall>y \<in> set ys. \<forall>l \<in> set ls. l_valid l \<or> l_lru l < l_lru y)"

lemma mru_set: "mru ls ys \<Longrightarrow> set ys = {l \<in> set ls. l_valid l}"
  by (metis mru_def mset_eq_setD set_filter)

lemma mru_length: "mru ls ys \<Longrightarrow> length ys = length (filter l_valid ls)"
  by (metis mru_def size_mset)

lemma distinct_map_remove1: "distinct (map f ys) \<Longrightarrow> y \<in> set ys \<Longrightarrow> map f (remove1 y ys) = remove1 (f y) (map f ys)"
  by (induction ys) (auto simp: image_iff)

lemma sorted_wrt_remove1: "sorted_wrt R ys \<Longrightarrow> sorted_wrt R (remove1 y ys)"
  by (induction ys) (auto dest: notin_set_remove1)

lemma mru_push:
  assumes mru: "mru ls ys" and i: "i < length ls" and old: "\<forall>l \<in> set ls. l_lru l < l_lru l'"
    and valid: "l_valid l'" and zs: "zs = (if l_valid (ls ! i) then remove1 (ls ! i) ys else ys)"
    and new: "l_tag l' \<notin> l_tag ` set zs"
  shows "mru (ls[i := l']) (l' # zs)"
proof -
  have sub: "set zs \<subseteq> set ys" using zs set_remove1_subset [of "ls ! i" ys] by auto
  have "mset zs = filter_mset l_valid (mset ls - {#ls ! i#})"
    using mru zs by (auto simp: mru_def)
  then have "mset (l' # zs) = mset (filter l_valid (ls[i := l']))"
    using i valid by (simp add: mset_update)
  moreover have "sorted_wrt (\<lambda>a b. l_lru b < l_lru a) (l' # zs)"
    using mru zs sub old mru_set [OF mru] by (auto simp: mru_def sorted_wrt_remove1)
  moreover have "distinct (map l_tag (l' # zs))"
    using mru zs new by (auto simp: mru_def distinct_map intro: inj_on_subset dest: notin_set_remove1)
  moreover have "\<forall>y \<in> set (l' # zs). \<forall>l \<in> set (ls[i := l']). l_valid l \<or> l_lru l < l_lru y"
    using mru sub old valid set_update_subset_insert [of ls i l'] unfolding mru_def by fastforce
  ultimately show ?thesis unfolding mru_def by blast
qed

lemma mru_tags: "mru ls ys \<Longrightarrow> l_tag ` set ys = {l_tag l | l. l \<in> set ls \<and> l_valid l}"
  by (auto simp: mru_set)

text \<open>A hit: the line with the tag is stamped.\<close>

lemma mru_hit:
  assumes mru: "mru ls ys" and i: "i < length ls" "l_valid (ls ! i)" "l_tag (ls ! i) = t"
    and old: "\<forall>l \<in> set ls. l_lru l < now"
    and l': "l' = (ls ! i)\<lparr>l_lru := now, l_dirty := d\<rparr>"
  shows "\<exists>zs. mru (ls[i := l']) zs \<and> map l_tag zs = lru_access (length ls) t (map l_tag ys)"
proof -
  have y: "ls ! i \<in> set ys" using i mru_set [OF mru] by auto
  have d: "distinct (map l_tag ys)" using mru by (simp add: mru_def)
  then have tags: "map l_tag (remove1 (ls ! i) ys) = removeAll t (map l_tag ys)"
    using y i by (simp add: distinct_map_remove1 distinct_remove1_removeAll)
  have "t \<notin> l_tag ` set (remove1 (ls ! i) ys)"
    using arg_cong [OF tags, of set] by (simp add: image_set [symmetric])
  then have "mru (ls[i := l']) (l' # remove1 (ls ! i) ys)"
    using i old by (intro mru_push [OF mru]) (auto simp: l')
  moreover have "length (remove1 (ls ! i) ys) < length ls"
  proof -
    have "length ys \<le> length ls" using mru_length [OF mru] by simp
    moreover have "length (remove1 (ls ! i) ys) = length ys - 1" using y by (simp add: length_remove1)
    ultimately show ?thesis using length_pos_if_in_set [OF y] by linarith
  qed
  then have "map l_tag (l' # remove1 (ls ! i) ys) = lru_access (length ls) t (map l_tag ys)"
    using i by (simp add: lru_access_def l' flip: tags)
  ultimately show ?thesis by blast
qed

text \<open>A miss: the victim is an invalid line if there is one, otherwise the last of the list.\<close>

lemma mru_miss:
  assumes mru: "mru ls ys" and ne: "ls \<noteq> []" and t: "\<forall>l \<in> set ls. \<not> line_match t l"
    and old: "\<forall>l \<in> set ls. l_lru l < now" and l': "l_valid l'" "l_tag l' = t" "l_lru l' = now"
  shows "\<exists>zs. mru (ls[victim ls := l']) zs \<and> map l_tag zs = lru_access (length ls) t (map l_tag ys)"
proof -
  let ?v = "ls ! victim ls"
  note v = victim_min [OF ne]
  have tn: "t \<notin> l_tag ` set ys" using t by (auto simp: mru_tags [OF mru] line_match_def)
  then have rem: "removeAll t (map l_tag ys) = map l_tag ys" by (simp add: removeAll_id)
  show ?thesis
  proof (cases "l_valid ?v")
    case False
    then have "mru (ls[victim ls := l']) (l' # ys)"
      using v(1) old l' tn by (intro mru_push [OF mru]) auto
    moreover have "length (filter l_valid ls) < length ls"
      using False v(1) nth_mem by (intro length_filter_less) auto
    then have "map l_tag (l' # ys) = lru_access (length ls) t (map l_tag ys)"
      using l' rem mru_length [OF mru] by (simp add: lru_access_def)
    ultimately show ?thesis by blast
  next
    case True
    have vin: "?v \<in> set ys" using True v(1) mru_set [OF mru] by auto
    have "l_valid l" if "l \<in> set ls" for l
      using mru that vin v(2) [OF that] unfolding mru_def by (meson leD)
    then have len: "length ys = length ls" using mru_length [OF mru] by simp
    with ne have "ys \<noteq> []" by auto
    have last: "?v = last ys"
    proof (rule ccontr)
      assume "?v \<noteq> last ys"
      with vin \<open>ys \<noteq> []\<close> have "?v \<in> set (butlast ys)"
        by (cases ys rule: rev_cases) auto
      then have "l_lru (last ys) < l_lru ?v"
        using mru \<open>ys \<noteq> []\<close> append_butlast_last_id [of ys] unfolding mru_def
        by (metis list.set_intros(1) sorted_wrt_append)
      moreover have "last ys \<in> set ls" using \<open>ys \<noteq> []\<close> last_in_set mru_set [OF mru] by blast
      ultimately show False using v(2) by (meson leD)
    qed
    have "distinct ys" using mru by (simp add: mru_def distinct_map)
    with last \<open>ys \<noteq> []\<close> have "remove1 ?v ys = butlast ys"
      by (cases ys rule: rev_cases) (auto simp: remove1_append)
    then have "mru (ls[victim ls := l']) (l' # butlast ys)"
      using v(1) old l' tn True in_set_butlastD [of _ ys] by (intro mru_push [OF mru]) auto
    moreover have "map l_tag (l' # butlast ys) = lru_access (length ls) t (map l_tag ys)"
      using l' rem len ne by (cases ls) (simp_all add: lru_access_def butlast_conv_take take_map)
    ultimately show ?thesis by blast
  qed
qed

section \<open>The cache as a collection of such lists\<close>

definition set_ok :: "nat \<Rightarrow> u64 \<Rightarrow> cline list \<Rightarrow> u32 list \<Rightarrow> bool" where
  "set_ok assoc now ls xs \<longleftrightarrow> length ls = assoc \<and> (\<forall>l \<in> set ls. l_lru l \<le> now) \<and> (\<exists>ys. mru ls ys \<and> map l_tag ys = xs)"

definition represents :: "cache \<Rightarrow> (nat \<Rightarrow> u32 list) \<Rightarrow> bool" where
  "represents c \<sigma> \<longleftrightarrow> c_sets c \<noteq> [] \<and> line_bytes (c_cfg c) \<noteq> 0 \<and> associativity (c_cfg c) \<noteq> 0
     \<and> (\<forall>j < length (c_sets c). set_ok (unat (associativity (c_cfg c))) (c_tick c) (c_sets c ! j) (\<sigma> j))"

lemma set_ok_later: "set_ok n now ls xs \<Longrightarrow> now \<le> now' \<Longrightarrow> set_ok n now' ls xs"
  by (auto simp: set_ok_def)

lemma tick_later: "(n :: u64) \<noteq> - 1 \<Longrightarrow> n < n + 1"
  by (metis inc_less_eq_self_iff_eq not_le)

lemma set_of_less: "c_sets c \<noteq> [] \<Longrightarrow> set_of c a < length (c_sets c)"
  by (simp add: set_of_def)

text \<open>
  Both branches of an access keep the representation of the set they touch, and of the others.
\<close>

lemma represents_step:
  assumes rep: "represents c \<sigma>" and tick: "c_tick c \<noteq> - 1" and j: "j < length (c_sets c)"
    and zs: "\<exists>zs. mru ls zs \<and> map l_tag zs = xs" and len: "length ls = length (c_sets c ! j)"
    and lru: "set ls \<subseteq> insert l' (set (c_sets c ! j))" "l_lru l' = c_tick c + 1"
  shows "represents (c\<lparr>c_tick := c_tick c + 1, c_stats := st, c_sets := (c_sets c)[j := ls]\<rparr>) (\<sigma>(j := xs))"
proof -
  have le: "c_tick c \<le> c_tick c + 1" using tick_later [OF tick] by simp
  have old: "set_ok (unat (associativity (c_cfg c))) (c_tick c) (c_sets c ! i) (\<sigma> i)" if "i < length (c_sets c)" for i
    using rep that by (simp add: represents_def)
  have "\<forall>l \<in> set ls. l_lru l \<le> c_tick c + 1"
    using lru old [OF j] le unfolding set_ok_def by (metis insertE order_refl order_trans subsetD)
  then have "set_ok (unat (associativity (c_cfg c))) (c_tick c + 1) ls xs"
    using zs len old [OF j] by (simp add: set_ok_def)
  moreover have "set_ok (unat (associativity (c_cfg c))) (c_tick c + 1) (c_sets c ! i) (\<sigma> i)"
    if "i < length (c_sets c)" for i
    using set_ok_later [OF old [OF that] le] .
  ultimately show ?thesis using rep by (auto simp: represents_def nth_list_update)
qed

lemma access_lru:
  fixes addr :: u32
  assumes rep: "represents c \<sigma>" and tick: "c_tick c \<noteq> - 1"
  defines "j \<equiv> set_of c addr" and "t \<equiv> line_of c addr"
  defines "hit \<equiv> t \<in> set (\<sigma> j)"
  shows "\<exists>c'. cache_access addr w st0 c = Ok (hit, if hit then hit_latency (c_cfg c) else miss_penalty (c_cfg c), c')
     \<and> represents c' (\<sigma>(j := lru_access (unat (associativity (c_cfg c))) t (\<sigma> j)))
     \<and> c_cfg c' = c_cfg c \<and> length (c_sets c') = length (c_sets c) \<and> c_tick c' = c_tick c + 1"
proof -
  let ?ls = "c_sets c ! j" and ?now = "c_tick c + 1"
  have nz: "c_sets c \<noteq> []" "line_bytes (c_cfg c) \<noteq> 0" "associativity (c_cfg c) \<noteq> 0"
    using rep by (auto simp: represents_def)
  have j: "j < length (c_sets c)" using nz(1) by (simp add: j_def set_of_less)
  with rep have ok: "set_ok (unat (associativity (c_cfg c))) (c_tick c) ?ls (\<sigma> j)" by (simp add: represents_def)
  then obtain ys where ys: "mru ?ls ys" "map l_tag ys = \<sigma> j" and len: "length ?ls = unat (associativity (c_cfg c))"
    by (auto simp: set_ok_def)
  have old: "\<forall>l \<in> set ?ls. l_lru l < ?now"
    using ok tick_later [OF tick] by (auto simp: set_ok_def intro: le_less_trans)
  have ne: "?ls \<noteq> []" using len nz(3) by (metis list.size(3) unat_eq_zero)
  show ?thesis
  proof (cases "find_index (line_match t) ?ls")
    case (Some i)
    let ?l = "(?ls ! i)\<lparr>l_lru := ?now, l_dirty := (w \<or> l_dirty (?ls ! i))\<rparr>"
    from find_index_Some [OF Some] have i: "i < length ?ls" "l_valid (?ls ! i)" "l_tag (?ls ! i) = t"
      by (auto simp: line_match_def)
    then have hit by (auto simp: hit_def ys(2) [symmetric] mru_set [OF ys(1)] intro!: image_eqI [of _ _ "?ls ! i"])
    moreover note represents_step [OF rep tick j mru_hit [OF ys(1) i old refl] _ set_update_subset_insert]
    ultimately show ?thesis using Some nz ys len by (simp add: cache_access_def Let_def j_def t_def)
  next
    case None
    let ?l = "(?ls ! victim ?ls)\<lparr>l_valid := True, l_tag := t, l_dirty := w, l_lru := ?now\<rparr>"
    from None have t: "\<forall>l \<in> set ?ls. \<not> line_match t l" by (simp add: find_index_None)
    then have "\<not> hit" by (auto simp: hit_def ys(2) [symmetric] mru_set [OF ys(1)] line_match_def)
    moreover note represents_step [OF rep tick j mru_miss [OF ys(1) ne t old, of ?l] _ set_update_subset_insert]
    ultimately show ?thesis using None nz ne ys len by (simp add: cache_access_def Let_def j_def t_def)
  qed
qed

section \<open>Sequences of accesses\<close>

fun access_all :: "(u32 \<times> bool) list \<Rightarrow> cache \<Rightarrow> (bool list \<times> cache) res" where
  "access_all [] c = Ok ([], c)"
| "access_all ((a, w) # as) c = bind_res (cache_access a w 0 c) (\<lambda>(hit, _, c').
     bind_res (access_all as c') (\<lambda>(hs, c''). Ok (hit # hs, c'')))"

text \<open>The specification over the same sequence: \<open>n\<close> sets of \<open>assoc\<close> ways and lines of \<open>lb\<close> bytes.\<close>

definition lru_line :: "size_t \<Rightarrow> u32 \<Rightarrow> u32" where
  "lru_line lb a = ucast (ucast a div lb)"

fun lru_hits :: "size_t \<Rightarrow> nat \<Rightarrow> nat \<Rightarrow> (u32 \<times> bool) list \<Rightarrow> (nat \<Rightarrow> u32 list) \<Rightarrow> bool list" where
  "lru_hits lb n assoc [] \<sigma> = []"
| "lru_hits lb n assoc ((a, w) # as) \<sigma> =
    (let t = lru_line lb a; j = unat t mod n
     in (t \<in> set (\<sigma> j)) # lru_hits lb n assoc as (\<sigma>(j := lru_access assoc t (\<sigma> j))))"

lemma access_all_lru:
  assumes "represents c \<sigma>" and "unat (c_tick c) + length as < 2 ^ 64"
  shows "\<exists>c'. access_all as c = Ok (lru_hits (line_bytes (c_cfg c)) (length (c_sets c))
      (unat (associativity (c_cfg c))) as \<sigma>, c')"
  using assms
proof (induction as arbitrary: c \<sigma>)
  case (Cons x as)
  obtain a w where x: "x = (a, w)" by force
  have room: "unat (c_tick c) + 1 < 2 ^ 64" using Cons.prems(2) by simp
  then have tick: "c_tick c \<noteq> - 1" by (auto simp: unsigned_minus_1_eq_mask mask_eq_exp_minus_1)
  from access_lru [OF Cons.prems(1) tick, of a w 0] obtain c1 stall where
    c1: "cache_access a w 0 c = Ok (line_of c a \<in> set (\<sigma> (set_of c a)), stall, c1)"
      "represents c1 (\<sigma>(set_of c a := lru_access (unat (associativity (c_cfg c))) (line_of c a) (\<sigma> (set_of c a))))"
    and same: "c_cfg c1 = c_cfg c" "length (c_sets c1) = length (c_sets c)" "c_tick c1 = c_tick c + 1" by blast
  have "unat (c_tick c1) = unat (c_tick c) + 1"
    using unatSuc [of "c_tick c"] tick by (simp add: same(3) add.commute eq_neg_iff_add_eq_0)
  with Cons.prems(2) have "unat (c_tick c1) + length as < 2 ^ 64" by simp
  from Cons.IH [OF c1(2) this] obtain c2 where "access_all as c1 = Ok (lru_hits (line_bytes (c_cfg c))
      (length (c_sets c)) (unat (associativity (c_cfg c))) as
      (\<sigma>(set_of c a := lru_access (unat (associativity (c_cfg c))) (line_of c a) (\<sigma> (set_of c a)))), c2)"
    unfolding same by blast
  moreover have "lru_line (line_bytes (c_cfg c)) a = line_of c a" by (simp add: lru_line_def line_of_def)
  ultimately show ?case using c1(1) by (simp add: x Let_def set_of_def)
qed simp

lemma configure_represents:
  assumes "cache_configure cfg = Ok c" and "c_sets c \<noteq> []"
  shows "represents c (\<lambda>_. [])" and "c_cfg c = cfg" and "c_tick c = 0"
proof -
  from assms(1) have c: "line_bytes cfg * associativity cfg \<noteq> 0" "c_cfg c = cfg" "c_tick c = 0"
    "c_sets c = replicate (unat (size_bytes cfg div (line_bytes cfg * associativity cfg)))
        (replicate (unat (associativity cfg)) line_init)"
    by (auto simp: cache_configure_def Let_def split: if_splits)
  then show "c_cfg c = cfg" and "c_tick c = 0" by simp_all
  have "mru (replicate n line_init) []" for n
    by (simp add: mru_def line_init_def)
  with c assms(2) show "represents c (\<lambda>_. [])"
    by (auto simp: represents_def set_ok_def line_init_def)
qed

section \<open>Properties\<close>

text \<open>
  C10. The cache is a set-associative LRU cache. Starting from any configuration with at least
  one set, over any sequence of fewer than \<open>2^64\<close> reads and writes, every access returns, and
  the answers hit or miss are exactly those of the specification that keeps, per set, the list
  of the \<open>associativity\<close> most recently used lines.
\<close>

theorem cache_is_lru:
  assumes "cache_configure cfg = Ok c" and "c_sets c \<noteq> []" and "length as < 2 ^ 64"
  shows "\<exists>c'. access_all as c = Ok (lru_hits (line_bytes cfg) (length (c_sets c))
     (unat (associativity cfg)) as (\<lambda>_. []), c')"
  using access_all_lru [OF configure_represents(1) [OF assms(1,2)], of as] assms(3)
  by (simp add: configure_represents(2,3) [OF assms(1,2)])

definition tiny_config :: cache_config where
  "tiny_config = \<lparr>size_bytes = 128, line_bytes = 64, associativity = 2, coherence = MESI, hit_latency = 1, miss_penalty = 10\<rparr>"

definition tiny_cache :: cache where
  "tiny_cache = \<lparr>c_cfg = tiny_config, c_sets = [replicate 2 line_init], c_tick = 0, c_stats = cache_stats_init\<rparr>"

theorem cache_is_lru_witness:
  "(\<exists>c'. access_all [(0, False), (64, True), (4, False), (128, False), (0, False), (64, False)] tiny_cache
     = Ok ([False, False, True, False, True, False], c'))
   \<and> lru_hits 64 1 2 [(0, False), (64, True), (4, False), (128, False), (0, False), (64, False)] (\<lambda>_. [])
     = [False, False, True, False, True, False]"
proof -
  have c: "cache_configure tiny_config = Ok tiny_cache" "c_sets tiny_cache \<noteq> []" by code_simp+
  have h: "lru_hits 64 1 2 [(0, False), (64, True), (4, False), (128, False), (0, False), (64, False)] (\<lambda>_. [])
     = [False, False, True, False, True, False]" by code_simp
  then show ?thesis
    using cache_is_lru [OF c, of "[(0, False), (64, True), (4, False), (128, False), (0, False), (64, False)]"]
    by (simp add: tiny_cache_def tiny_config_def)
qed

section \<open>The hierarchy: accounting and stalls\<close>

definition cache_ok :: "cache \<Rightarrow> bool" where
  "cache_ok c \<longleftrightarrow> c_sets c \<noteq> [] \<and> line_bytes (c_cfg c) \<noteq> 0 \<and> (\<forall>ls \<in> set (c_sets c). ls \<noteq> [])"

lemma cache_ok_update:
  "cache_ok c \<Longrightarrow> ls \<noteq> [] \<Longrightarrow> cache_ok (c\<lparr>c_tick := n, c_stats := st, c_sets := (c_sets c)[j := ls]\<rparr>)"
  using set_update_subset_insert [of "c_sets c" j ls] by (auto simp: cache_ok_def)

text \<open>One access counts once, as a hit or as a miss, and the same line then hits.\<close>

lemma access_counts:
  assumes ok: "cache_ok c"
  shows "\<exists>hit c'. cache_access a w st0 c = Ok (hit, if hit then hit_latency (c_cfg c) else miss_penalty (c_cfg c), c')
     \<and> cache_ok c' \<and> c_cfg c' = c_cfg c \<and> hits (c_stats c') = hits (c_stats c) + of_bool hit
     \<and> misses (c_stats c') = misses (c_stats c) + of_bool (\<not> hit)
     \<and> find_index (line_match (line_of c' a)) (c_sets c' ! set_of c' a) \<noteq> None"
proof -
  let ?j = "set_of c a" and ?t = "line_of c a"
  let ?ls = "c_sets c ! ?j"
  have j: "?j < length (c_sets c)" using ok by (simp add: cache_ok_def set_of_less)
  then have ne: "?ls \<noteq> []" using ok by (auto simp: cache_ok_def)
  have found: "\<not> (\<forall>x \<in> set (?ls[i := l]). \<not> line_match ?t x)" if "i < length ?ls" "line_match ?t l" for i l
    using that set_update_memI by fastforce
  show ?thesis
  proof (cases "find_index (line_match ?t) ?ls")
    case (Some i)
    note i = find_index_Some [OF Some]
    let ?l = "(?ls ! i)\<lparr>l_lru := c_tick c + 1, l_dirty := (w \<or> l_dirty (?ls ! i))\<rparr>"
    have "cache_ok (c\<lparr>c_tick := c_tick c + 1, c_stats := (c_stats c)\<lparr>hits := hits (c_stats c) + 1\<rparr>,
        c_sets := (c_sets c)[?j := ?ls[i := ?l]]\<rparr>)"
      using ne by (intro cache_ok_update ok) simp
    with Some i j ok found [of i ?l] show ?thesis
      by (intro exI [of _ True]) (simp add: cache_access_def Let_def cache_ok_def line_of_def set_of_def line_match_def find_index_None)
  next
    case None
    note v = victim_min(1) [OF ne]
    let ?l = "(?ls ! victim ?ls)\<lparr>l_valid := True, l_tag := ?t, l_dirty := w, l_lru := c_tick c + 1\<rparr>"
    obtain st where acc: "cache_access a w st0 c = Ok (False, miss_penalty (c_cfg c),
        c\<lparr>c_tick := c_tick c + 1, c_stats := st, c_sets := (c_sets c)[?j := ?ls[victim ?ls := ?l]]\<rparr>)"
      and st: "hits st = hits (c_stats c)" "misses st = misses (c_stats c) + 1"
      using None ok ne by (simp add: cache_access_def Let_def cache_ok_def)
    have "cache_ok (c\<lparr>c_tick := c_tick c + 1, c_stats := st, c_sets := (c_sets c)[?j := ?ls[victim ?ls := ?l]]\<rparr>)"
      using ne by (intro cache_ok_update ok) simp
    with acc st v j found [of "victim ?ls" ?l] show ?thesis
      by (intro exI [of _ False]) (simp add: line_of_def set_of_def line_match_def find_index_None)
  qed
qed

inductive hier_run :: "nat \<Rightarrow> hierarchy \<Rightarrow> bool" where
  new: "hier_new = Ok h \<Longrightarrow> hier_run 0 h"
| access: "hier_run n h \<Longrightarrow> hier_access a w h = Ok (st, h') \<Longrightarrow> hier_run (Suc n) h'"
| reset: "hier_run n h \<Longrightarrow> hier_run 0 (hier_reset h)"

definition counted :: "cache \<Rightarrow> u64" where
  "counted c = hits (c_stats c) + misses (c_stats c)"

definition hier_ok :: "nat \<Rightarrow> hierarchy \<Rightarrow> bool" where
  "hier_ok n h \<longleftrightarrow> cache_ok (l1 h) \<and> cache_ok (l2 h) \<and> cache_ok (l3 h)
     \<and> c_cfg (l1 h) = l1_config \<and> c_cfg (l2 h) = l2_config \<and> c_cfg (l3 h) = l3_config \<and> mc_cfg (mc h) = mc_config_default
     \<and> counted (l1 h) = of_nat n \<and> counted (l2 h) = misses (c_stats (l1 h))
     \<and> counted (l3 h) = misses (c_stats (l2 h)) \<and> mc_total_accesses (mc h) = misses (c_stats (l3 h))"

lemma mc_access_counts:
  assumes "mc_cfg m = mc_config_default"
  shows "\<exists>st m'. mc_access a w m = Ok (st, m') \<and> (st = 16 \<or> st = 48) \<and> mc_cfg m' = mc_config_default
     \<and> mc_total_accesses m' = mc_total_accesses m + 1"
  using assms by (simp add: mc_access_def Let_def mc_config_default_def mc_total_accesses_def)

text \<open>One access through the hierarchy: what it costs, and that all counters stay in step.\<close>

lemma hier_step:
  assumes "hier_ok n h"
  shows "\<exists>st h'. hier_access a w h = Ok (st, h') \<and> st \<in> {1, 14, 42, 86, 118} \<and> hier_ok (Suc n) h'
     \<and> find_index (line_match (line_of (l1 h') a)) (c_sets (l1 h') ! set_of (l1 h') a) \<noteq> None"
proof -
  have ok: "cache_ok (l1 h)" "cache_ok (l2 h)" "cache_ok (l3 h)" "mc_cfg (mc h) = mc_config_default"
    and cfg: "c_cfg (l1 h) = l1_config" "c_cfg (l2 h) = l2_config" "c_cfg (l3 h) = l3_config"
    and cnt: "counted (l1 h) = of_nat n" "counted (l2 h) = misses (c_stats (l1 h))"
      "counted (l3 h) = misses (c_stats (l2 h))" "mc_total_accesses (mc h) = misses (c_stats (l3 h))"
    using assms by (auto simp: hier_ok_def)
  note lat = l1_config_def l2_config_def l3_config_def
  from access_counts [OF ok(1), of a w 0] obtain x1 c1 where a1:
    "cache_access a w 0 (l1 h) = Ok (x1, if x1 then 1 else 10, c1)" "cache_ok c1" "c_cfg c1 = l1_config"
    "hits (c_stats c1) = hits (c_stats (l1 h)) + of_bool x1" "misses (c_stats c1) = misses (c_stats (l1 h)) + of_bool (\<not> x1)"
    "find_index (line_match (line_of c1 a)) (c_sets c1 ! set_of c1 a) \<noteq> None"
    by (auto simp: cfg lat)
  from access_counts [OF ok(2), of a w 10] obtain x2 c2 where a2:
    "cache_access a w 10 (l2 h) = Ok (x2, if x2 then 4 else 20, c2)" "cache_ok c2" "c_cfg c2 = l2_config"
    "hits (c_stats c2) = hits (c_stats (l2 h)) + of_bool x2" "misses (c_stats c2) = misses (c_stats (l2 h)) + of_bool (\<not> x2)"
    by (auto simp: cfg lat)
  from access_counts [OF ok(3), of a w 20] obtain x3 c3 where a3:
    "cache_access a w 20 (l3 h) = Ok (x3, if x3 then 12 else 40, c3)" "cache_ok c3" "c_cfg c3 = l3_config"
    "hits (c_stats c3) = hits (c_stats (l3 h)) + of_bool x3" "misses (c_stats c3) = misses (c_stats (l3 h)) + of_bool (\<not> x3)"
    by (auto simp: cfg lat)
  from mc_access_counts [OF ok(4)] obtain x4 m where a4:
    "mc_access a w (mc h) = Ok (x4, m)" "x4 = 16 \<or> x4 = 48" "mc_cfg m = mc_config_default"
    "mc_total_accesses m = mc_total_accesses (mc h) + 1" by blast
  show ?thesis
    using a1 a2 a3 a4 ok cfg cnt
    by (cases x1; cases x2; cases x3) (auto simp: hier_access_def hier_ok_def counted_def)
qed

lemma hier_ok_reset: "hier_ok n h \<Longrightarrow> hier_ok 0 (hier_reset h)"
  by (auto simp: hier_ok_def hier_reset_def cache_reset_stats_def cache_stats_init_def counted_def mc_reset_def
      mc_total_accesses_def cache_ok_def)

lemma configure_ok:
  "line_bytes cfg * associativity cfg \<noteq> 0 \<Longrightarrow> size_bytes cfg div (line_bytes cfg * associativity cfg) \<noteq> 0 \<Longrightarrow>
   \<exists>c. cache_configure cfg = Ok c \<and> cache_ok c \<and> c_cfg c = cfg \<and> c_stats c = cache_stats_init"
  by (auto simp: cache_configure_def Let_def cache_ok_def unat_eq_zero)

lemma hier_new_ok: "\<exists>h. hier_new = Ok h"
  using configure_ok [of l1_config] configure_ok [of l2_config] configure_ok [of l3_config]
  by (auto simp: hier_new_def l1_config_def l2_config_def l3_config_def)

lemma hier_ok_new: "hier_new = Ok h \<Longrightarrow> hier_ok 0 h"
proof -
  assume h: "hier_new = Ok h"
  have "\<exists>c. cache_configure cfg = Ok c \<and> cache_ok c \<and> c_cfg c = cfg \<and> c_stats c = cache_stats_init"
    if "cfg \<in> {l1_config, l2_config, l3_config}" for cfg
    using that by (intro configure_ok) (auto simp: l1_config_def l2_config_def l3_config_def)
  from this [of l1_config] this [of l2_config] this [of l3_config] h show ?thesis
    by (auto simp: hier_new_def hier_ok_def counted_def cache_stats_init_def mc_new_def mc_total_accesses_def)
qed

lemma hier_run_ok: "hier_run n h \<Longrightarrow> hier_ok n h"
proof (induction rule: hier_run.induct)
  case (access n h a w st h')
  with hier_step [OF access.IH, of a w] show ?case by auto
qed (simp_all add: hier_ok_new hier_ok_reset)

text \<open>
  The counters of the hierarchy stay in step. In every state reached from construction by
  accesses and resets, with \<open>n\<close> accesses since the last reset: the first level has counted \<open>n\<close>
  hits and misses, the second level as many as the first level missed, the third as many as
  the second missed, and the memory controller as many as the third missed.
\<close>

theorem hierarchy_accounting:
  assumes "hier_run n h"
  shows "hits (c_stats (l1 h)) + misses (c_stats (l1 h)) = of_nat n
     \<and> hits (c_stats (l2 h)) + misses (c_stats (l2 h)) = misses (c_stats (l1 h))
     \<and> hits (c_stats (l3 h)) + misses (c_stats (l3 h)) = misses (c_stats (l2 h))
     \<and> mc_total_accesses (mc h) = misses (c_stats (l3 h))"
  using hier_run_ok [OF assms] by (simp add: hier_ok_def counted_def)

theorem hierarchy_accounting_witness:
  "\<exists>h st h'. hier_new = Ok h \<and> hier_access 64 True h = Ok (st, h')
     \<and> hits (c_stats (l1 h')) + misses (c_stats (l1 h')) = 1
     \<and> mc_total_accesses (mc h') = misses (c_stats (l3 h'))"
proof -
  from hier_new_ok obtain h where h: "hier_new = Ok h" by blast
  from hier_step [OF hier_ok_new [OF h], of 64 True] obtain st h' where s: "hier_access 64 True h = Ok (st, h')" by blast
  have "hier_run (Suc 0) h'" using hier_run.access [OF hier_run.new [OF h] s] .
  from hierarchy_accounting [OF this] h s show ?thesis by auto
qed

text \<open>
  The cost of an access is one of five: 1 cycle in the first level, 14 in the second, 42 in
  the third, 86 in memory with the row open and 118 with it closed. Every access returns, and
  repeating an access at once costs a single cycle.
\<close>

theorem hierarchy_stall:
  assumes "hier_run n h"
  shows "\<exists>st h'. hier_access a w h = Ok (st, h') \<and> st \<in> {1, 14, 42, 86, 118}
     \<and> (\<exists>h''. hier_access a w' h' = Ok (1, h''))"
proof -
  from hier_step [OF hier_run_ok [OF assms], of a w] obtain st h' where
    s: "hier_access a w h = Ok (st, h')" "st \<in> {1, 14, 42, 86, 118}" "hier_ok (Suc n) h'"
      "find_index (line_match (line_of (l1 h') a)) (c_sets (l1 h') ! set_of (l1 h') a) \<noteq> None" by blast
  from s(3) have "cache_ok (l1 h')" "c_cfg (l1 h') = l1_config" by (auto simp: hier_ok_def)
  with s(4) have "\<exists>c. cache_access a w' 0 (l1 h') = Ok (True, 1, c)"
    by (auto simp: cache_access_def cache_ok_def Let_def l1_config_def)
  then have "\<exists>h''. hier_access a w' h' = Ok (1, h'')" by (auto simp: hier_access_def)
  with s show ?thesis by blast
qed

theorem hierarchy_stall_witness:
  "\<exists>h st h'. hier_new = Ok h \<and> hier_access 64 True h = Ok (st, h') \<and> st \<in> {1, 14, 42, 86, 118}
     \<and> (\<exists>h''. hier_access 64 False h' = Ok (1, h''))"
proof -
  from hier_new_ok obtain h where h: "hier_new = Ok h" by blast
  with hierarchy_stall [OF hier_run.new [OF h], of 64 True False] show ?thesis by blast
qed

end
