(* ===== verification/Cluster.thy ===== *)
theory Cluster
  imports Emu_Props Pipeline Cache
begin

text \<open>
  The multi-core cluster of \<^verbatim>\<open>include/aiasm/cluster.h\<close> and \<^verbatim>\<open>src/cluster.cpp\<close>: several
  emulators that share a main memory through a bus window, a second-level cache, a fabric and
  the deterministic clock. The cores take turns, so the shared memory is lent to the core whose
  turn it is (the field \<open>e_shared\<close> of the emulator) and taken back afterwards.

  The theorems: the deterministic clock stays equal to the cycles of the cores; a core's turn
  leaves the other cores alone; what one core stores in the shared window another core loads;
  a TLB shootdown reaches every other core. The report string is in \<open>Reports\<close>.
\<close>

section \<open>State\<close>

record cluster_config =
  num_cores :: size_t
  scratchpad_per_core :: size_t
  shared_ram_bytes :: size_t
  cc_quantum :: u64

record cluster =
  cl_cfg :: cluster_config
  cores :: "emu list"
  shared_ram :: main_ram
  shared_l2 :: cache
  cluster_bus :: interconnect
  det :: det_engine

type_synonym 'a cl_op = "(cluster, 'a) st"

definition shared_l2_config :: cache_config where
  "shared_l2_config = \<lparr>size_bytes = 512 * 1024, line_bytes = 64, associativity = 16, coherence = MESI,
     hit_latency = 4, miss_penalty = 20\<rparr>"

definition cluster_bus_config :: interconnect_config where
  "cluster_bus_config = \<lparr>protocol = AXI4, data_width = 64, latency_cycles = 2, max_outstanding = 16, burst_len = 16\<rparr>"

text \<open>A core: a new emulator with the window to the shared memory on its bus.\<close>

definition core_new :: "cluster_config \<Rightarrow> emu" where
  "core_new cc = (let e = emu_new (scratchpad_per_core cc) (shared_ram_bytes cc)
     in e\<lparr>e_bus := bus_add_device SHARED_BASE 0x01000000 (Some SharedRamDev) (Some SharedRamDev) (e_bus e)\<rparr>)"

text \<open>The members that the constructor initialises, around the second-level cache.\<close>

definition cluster_with :: "cluster_config \<Rightarrow> cache \<Rightarrow> cluster" where
  "cluster_with cc l2c = \<lparr>cl_cfg = cc, cores = replicate (unat (num_cores cc)) (core_new cc),
     shared_ram = ram_new (shared_ram_bytes cc), shared_l2 = l2c,
     cluster_bus = fabric_new cluster_bus_config, det = det_new (cc_quantum cc)\<rparr>"

definition cluster_new :: "cluster_config \<Rightarrow> cluster res" where
  "cluster_new cc = map_res (cluster_with cc) (cache_configure shared_l2_config)"

text \<open>An operation of core \<open>i\<close>, with the shared memory lent to it.\<close>

definition on_core :: "nat \<Rightarrow> 'a emu_op \<Rightarrow> 'a cl_op" where
  "on_core i m c = (if i < length (cores c)
     then (case m ((cores c ! i)\<lparr>e_shared := ram_data (shared_ram c)\<rparr>) of
       (r, s) \<Rightarrow> (r, c\<lparr>cores := (cores c)[i := s\<lparr>e_shared := []\<rparr>],
          shared_ram := (shared_ram c)\<lparr>ram_data := e_shared s\<rparr>\<rparr>))
     else (Undef, c))"

definition core_halted :: "nat \<Rightarrow> cluster \<Rightarrow> bool" where
  "core_halted i c \<longleftrightarrow> halt (e_regs (cores c ! i))"

definition core_cycles :: "nat \<Rightarrow> cluster \<Rightarrow> u64" where
  "core_cycles i c = cycle_count (e_profiler (cores c ! i))"

definition cl_tick :: "u32 \<Rightarrow> u64 \<Rightarrow> unit cl_op" where
  "cl_tick k n c = (case det_tick k n (det c) of
     Ok (_, d) \<Rightarrow> (Ok (), c\<lparr>det := d\<rparr>) | Err e \<Rightarrow> (Err e, c) | Undef \<Rightarrow> (Undef, c))"

text \<open>\<open>for (size_t i = 0; i < cores_.size(); ++i)\<close>\<close>

fun for_each :: "(nat \<Rightarrow> unit cl_op) \<Rightarrow> nat list \<Rightarrow> unit cl_op" where
  "for_each f [] = ret ()"
| "for_each f (i # is) = bind (f i) (\<lambda>_. for_each f is)"

definition for_cores :: "(nat \<Rightarrow> unit cl_op) \<Rightarrow> unit cl_op" where
  "for_cores f c = for_each f [0..<length (cores c)] c"

definition all_halted :: "cluster \<Rightarrow> bool" where
  "all_halted c \<longleftrightarrow> list_all (\<lambda>e. halt (e_regs e)) (cores c)"

definition total_cycles :: "cluster \<Rightarrow> u64" where
  "total_cycles c = sum_list (map (\<lambda>e. cycle_count (e_profiler e)) (cores c))"

definition total_instructions :: "cluster \<Rightarrow> u64" where
  "total_instructions c = sum_list (map (\<lambda>e. instr_count (e_profiler e)) (cores c))"

section \<open>Operations\<close>

definition load_program_all :: "u32 list \<Rightarrow> size_t \<Rightarrow> unit cl_op" where
  "load_program_all prog cnt = for_cores (\<lambda>i. on_core i (load_program prog cnt))"

text \<open>The quantum of one core: up to \<open>q\<close> steps, until it halts.\<close>

fun quantum_loop :: "host_env \<Rightarrow> nat \<Rightarrow> unit emu_op" where
  "quantum_loop h 0 = ret ()"
| "quantum_loop h (Suc q) = bind (gets (\<lambda>s. halt (e_regs s))) (\<lambda>hl.
     if hl then ret () else bind (step h) (\<lambda>_. quantum_loop h q))"

definition run_core :: "host_env \<Rightarrow> nat \<Rightarrow> unit cl_op" where
  "run_core h i = bind (gets (core_halted i)) (\<lambda>hl. if hl then ret () else
     bind (gets (core_cycles i)) (\<lambda>cyc0.
     bind (gets (\<lambda>c. unat (cc_quantum (cl_cfg c)))) (\<lambda>q.
     bind (on_core i (quantum_loop h q)) (\<lambda>_.
     bind (gets (core_cycles i)) (\<lambda>cyc1. cl_tick (of_nat i) (cyc1 - cyc0))))))"

text \<open>The \<open>while\<close> loop of \<open>run\<close>, with fuel for its rounds; \<open>start\<close> is the clock at the call.\<close>

fun cl_run_loop :: "host_env \<Rightarrow> u64 \<Rightarrow> u64 \<Rightarrow> nat \<Rightarrow> cluster \<Rightarrow> (unit res \<times> cluster) option" where
  "cl_run_loop h start max_cycles fuel c =
    (if all_halted c \<or> \<not> (global_clock (det c) - start < max_cycles) then Some (Ok (), c)
     else case fuel of 0 \<Rightarrow> None
       | Suc f \<Rightarrow> (case for_cores (run_core h) c of
           (Ok _, c') \<Rightarrow> cl_run_loop h start max_cycles f c'
         | (r, c') \<Rightarrow> Some (r, c')))"

declare cl_run_loop.simps [simp del]

definition cl_run :: "host_env \<Rightarrow> u64 \<Rightarrow> nat \<Rightarrow> cluster \<Rightarrow> (unit res \<times> cluster) option" where
  "cl_run h max_cycles fuel c = cl_run_loop h (global_clock (det c)) max_cycles fuel c"

text \<open>\<open>run_fast\<close>: each core that is not halted runs to its end, with fuel for its own loop.\<close>

fun fast_cores :: "host_env \<Rightarrow> nat \<Rightarrow> nat list \<Rightarrow> cluster \<Rightarrow> (unit res \<times> cluster) option" where
  "fast_cores h n [] c = Some (Ok (), c)"
| "fast_cores h n (i # is) c =
    (if core_halted i c then fast_cores h n is c
     else case run_fast h n ((cores c ! i)\<lparr>e_shared := ram_data (shared_ram c)\<rparr>) of
         None \<Rightarrow> None
       | Some out \<Rightarrow> (case on_core i (\<lambda>_. out) c of
            (Ok _, c') \<Rightarrow> fast_cores h n is c'
          | (r, c') \<Rightarrow> Some (r, c')))"

fun cl_run_fast_loop :: "host_env \<Rightarrow> u64 \<Rightarrow> u64 \<Rightarrow> nat \<Rightarrow> nat \<Rightarrow> cluster \<Rightarrow> (unit res \<times> cluster) option" where
  "cl_run_fast_loop h start max_cycles n fuel c =
    (if all_halted c \<or> \<not> (global_clock (det c) - start < max_cycles) then Some (Ok (), c)
     else case fuel of 0 \<Rightarrow> None
       | Suc f \<Rightarrow> (case fast_cores h n [0..<length (cores c)] c of
           None \<Rightarrow> None
         | Some (Ok _, c1) \<Rightarrow> (case cl_tick 0 (cc_quantum (cl_cfg c1)) c1 of
              (Ok _, c2) \<Rightarrow> cl_run_fast_loop h start max_cycles n f c2
            | (r, c2) \<Rightarrow> Some (r, c2))
         | Some (r, c1) \<Rightarrow> Some (r, c1)))"

declare cl_run_fast_loop.simps [simp del]

definition cl_run_fast :: "host_env \<Rightarrow> u64 \<Rightarrow> nat \<Rightarrow> nat \<Rightarrow> cluster \<Rightarrow> (unit res \<times> cluster) option" where
  "cl_run_fast h max_cycles n fuel c = cl_run_fast_loop h (global_clock (det c)) max_cycles n fuel c"

definition step_all :: "host_env \<Rightarrow> unit cl_op" where
  "step_all h = for_cores (\<lambda>i. bind (gets (core_halted i)) (\<lambda>hl. if hl then ret () else on_core i (step h)))"

definition flush_others :: "u32 \<Rightarrow> nat \<Rightarrow> cluster \<Rightarrow> cluster" where
  "flush_others va k c = c\<lparr>cores := map (\<lambda>(i, e). if i \<noteq> k then e\<lparr>e_mmu := tlb_flush_va va (e_mmu e)\<rparr> else e)
     (enumerate 0 (cores c))\<rparr>"

definition snoop_invalidate :: "u32 \<Rightarrow> nat \<Rightarrow> cluster \<Rightarrow> cluster" where
  "snoop_invalidate addr writer c = flush_others addr writer c"

definition tlb_shootdown :: "u32 \<Rightarrow> nat \<Rightarrow> cluster \<Rightarrow> cluster" where
  "tlb_shootdown va who c = flush_others va who c"

definition send_ipi :: "nat \<Rightarrow> cluster \<Rightarrow> cluster" where
  "send_ipi tgt c = (if tgt < length (cores c)
     then c\<lparr>cores := (cores c)[tgt := (cores c ! tgt)\<lparr>e_intc := raise_soft (e_intc (cores c ! tgt))\<rparr>]\<rparr> else c)"

section \<open>What an operation on a core changes\<close>

lemma on_core_frame:
  assumes "on_core i m c = (r, c')"
  shows "length (cores c') = length (cores c)" and "det c' = det c" and "cl_cfg c' = cl_cfg c"
    and "\<And>j. j \<noteq> i \<Longrightarrow> cores c' ! j = cores c ! j"
  using assms by (auto simp: on_core_def split: if_splits prod.splits)

lemma cl_tick_frame:
  "cl_tick k n c = (Ok u, c') \<Longrightarrow> \<exists>d b. det_tick k n (det c) = Ok (b, d) \<and> c' = c\<lparr>det := d\<rparr>"
  by (auto simp: cl_tick_def split: res.splits)

text \<open>A turn of \<open>run\<close>: the quantum on one core and the tick for the cycles it took.\<close>

lemma run_core_turn:
  assumes "run_core h i c = (Ok u, c')"
  obtains (skip) "core_halted i c" "c' = c"
    | (turn) v s b d where "\<not> core_halted i c" "i < length (cores c)"
      "quantum_loop h (unat (cc_quantum (cl_cfg c))) ((cores c ! i)\<lparr>e_shared := ram_data (shared_ram c)\<rparr>) = (Ok v, s)"
      "det_tick (of_nat i) (cycle_count (e_profiler s) - core_cycles i c) (det c) = Ok (b, d)"
      "c' = c\<lparr>cores := (cores c)[i := s\<lparr>e_shared := []\<rparr>], shared_ram := (shared_ram c)\<lparr>ram_data := e_shared s\<rparr>, det := d\<rparr>"
proof (cases "core_halted i c")
  case True
  with assms have "c' = c" by (simp add: run_core_def)
  with True show ?thesis by (rule skip)
next
  case False
  let ?q = "quantum_loop h (unat (cc_quantum (cl_cfg c)))"
  from assms False have run: "bind (on_core i ?q) (\<lambda>_. bind (gets (core_cycles i))
      (\<lambda>cyc1. cl_tick (of_nat i) (cyc1 - core_cycles i c))) c = (Ok u, c')"
    by (simp add: run_core_def)
  obtain v c1 where q: "on_core i ?q c = (Ok v, c1)"
    and t: "cl_tick (of_nat i) (core_cycles i c1 - core_cycles i c) c1 = (Ok u, c')"
    by (rule bind_OkE [OF run]) simp
  from q obtain s where i: "i < length (cores c)"
    and s: "?q ((cores c ! i)\<lparr>e_shared := ram_data (shared_ram c)\<rparr>) = (Ok v, s)"
    and c1: "c1 = c\<lparr>cores := (cores c)[i := s\<lparr>e_shared := []\<rparr>], shared_ram := (shared_ram c)\<lparr>ram_data := e_shared s\<rparr>\<rparr>"
    by (auto simp: on_core_def split: if_splits prod.splits)
  from cl_tick_frame [OF t] obtain d b where
    "det_tick (of_nat i) (core_cycles i c1 - core_cycles i c) (det c1) = Ok (b, d)" "c' = c1\<lparr>det := d\<rparr>" by blast
  with turn [OF False i s, of b d] i show ?thesis by (simp add: c1 core_cycles_def)
qed

section \<open>The deterministic clock\<close>

text \<open>
  The clock agrees with the cores: the global clock is the sum of the cycles of the cores, and a
  slot of the sixteen per-core clocks the sum of the cores that map to it.
\<close>

definition slot_cycles :: "nat \<Rightarrow> emu list \<Rightarrow> u64" where
  "slot_cycles k es = sum_list (map (\<lambda>i. if i mod kMaxCores = k then cycle_count (e_profiler (es ! i)) else 0) [0..<length es])"

definition clock_sync :: "cluster \<Rightarrow> bool" where
  "clock_sync c \<longleftrightarrow> global_clock (det c) = total_cycles c \<and> length (clocks (det c)) = kMaxCores
     \<and> (\<forall>k<kMaxCores. clocks (det c) ! k = slot_cycles k (cores c))"

lemma sum_list_set_nth:
  fixes xs :: "'a :: ab_group_add list"
  shows "i < length xs \<Longrightarrow> sum_list (xs[i := x]) = sum_list xs + (x - xs ! i)"
  by (induction xs arbitrary: i) (auto simp: nth_Cons split: nat.split)

lemma total_cycles_update:
  assumes "i < length (cores c)"
  shows "total_cycles (c\<lparr>cores := (cores c)[i := e]\<rparr>)
    = total_cycles c + (cycle_count (e_profiler e) - core_cycles i c)"
  using assms by (simp add: total_cycles_def map_update sum_list_set_nth core_cycles_def)

lemma slot_cycles_update:
  assumes "i < length es"
  shows "slot_cycles k (es[i := e]) = slot_cycles k es
    + (if i mod kMaxCores = k then cycle_count (e_profiler e) - cycle_count (e_profiler (es ! i)) else 0)"
proof -
  let ?f = "\<lambda>es i. if i mod kMaxCores = k then cycle_count (e_profiler (es ! i)) else 0"
  have "map (?f (es[i := e])) [0..<length es] = (map (?f es) [0..<length es])[i := ?f (es[i := e]) i]"
    by (rule nth_equalityI) (auto simp: nth_list_update assms)
  with assms show ?thesis by (simp add: slot_cycles_def sum_list_set_nth)
qed

lemma run_core_sync:
  assumes "run_core h i c = (Ok u, c')" and "clock_sync c" and "i < 2 ^ 32"
  shows "clock_sync c'"
  using assms(1)
proof (cases rule: run_core_turn)
  case skip
  with assms(2) show ?thesis by simp
next
  case (turn v s b d)
  let ?n = "cycle_count (e_profiler s) - core_cycles i c"
  from turn(4) have d: "d = (det c)\<lparr>clocks := (clocks (det c))[i mod kMaxCores := clocks (det c) ! (i mod kMaxCores) + ?n],
      global_clock := global_clock (det c) + ?n, seq := seq (det c) + 1\<rparr>"
    using assms(3) by (auto simp: det_tick_def Let_def unat_of_nat take_bit_nat_eq_self split: if_splits)
  have "total_cycles c' = total_cycles (c\<lparr>cores := (cores c)[i := s\<lparr>e_shared := []\<rparr>]\<rparr>)"
    by (simp add: turn(5) total_cycles_def)
  then have "total_cycles c' = total_cycles c + ?n" using total_cycles_update [OF turn(2)] by simp
  with assms(2) turn(2,5) show ?thesis
    by (auto simp: clock_sync_def d slot_cycles_update nth_list_update core_cycles_def)
qed

lemma run_core_length: "run_core h i c = (Ok u, c') \<Longrightarrow> length (cores c') = length (cores c)"
  by (erule run_core_turn) auto

lemma for_each_rule:
  assumes "\<And>i c u c'. i \<in> set is \<Longrightarrow> f i c = (Ok u, c') \<Longrightarrow> P c \<Longrightarrow> P c'"
    and "for_each f is c = (Ok u, c')" and "P c"
  shows "P c'"
  using assms
proof (induction "is" arbitrary: c)
  case (Cons i "is")
  from Cons.prems(2) obtain v c1 where "f i c = (Ok v, c1)" "for_each f is c1 = (Ok u, c')"
    by (auto elim: bind_OkE)
  moreover from this have "P c1" using Cons.prems(1) [of i c v c1] Cons.prems(3) by simp
  ultimately show ?case using Cons.IH [of c1] Cons.prems(1) by (meson list.set_intros(2))
qed simp

lemma round_sync:
  assumes "for_cores (run_core h) c = (Ok u, c')" and "clock_sync c" and "length (cores c) \<le> 2 ^ 32"
  shows "clock_sync c' \<and> length (cores c') = length (cores c)"
  by (rule for_each_rule [where P = "\<lambda>x. clock_sync x \<and> length (cores x) = length (cores c)"])
    (use assms in \<open>auto simp: for_cores_def dest: run_core_sync run_core_length\<close>)

text \<open>
  C7. The clock of the cluster never drifts from its cores: whenever \<open>run\<close> returns normally from
  a state in which the deterministic clock agrees with the cycle counters, it agrees again,
  however many rounds were run and wherever each core halted inside its quantum: the global clock
  is the total of the cores' cycles and each of the sixteen clock slots the total of its cores.
\<close>

theorem cluster_clock_sync:
  assumes "cl_run h max_cycles fuel c = Some (Ok u, c')" and "clock_sync c" and "length (cores c) \<le> 2 ^ 32"
  shows "clock_sync c'"
proof -
  have "cl_run_loop h start max_cycles fuel c = Some (Ok u, c') \<Longrightarrow> clock_sync c \<Longrightarrow> length (cores c) \<le> 2 ^ 32
      \<Longrightarrow> clock_sync c'" for start fuel c
  proof (induction fuel arbitrary: c)
    case 0
    then show ?case by (subst (asm) cl_run_loop.simps) (auto split: if_splits)
  next
    case (Suc fuel)
    from Suc.prems(1) Suc.IH Suc.prems(2,3) show ?case
      by (subst (asm) cl_run_loop.simps)
        (auto split: if_splits prod.splits res.splits dest!: round_sync)
  qed
  from this [OF _ assms(2,3)] assms(1) show ?thesis by (simp add: cl_run_def)
qed

lemma emu_new_cycles: "cycle_count (e_profiler (core_new cc)) = 0"
  by (simp add: core_new_def emu_new_def profiler_init_def Let_def)

lemma sum_list_zeros: "\<forall>x \<in> set xs. x = (0 :: u64) \<Longrightarrow> sum_list xs = 0"
  by (induction xs) auto

lemma clock_sync_zero:
  assumes "\<forall>e \<in> set (cores c). cycle_count (e_profiler e) = 0" and "det c = det_new q"
  shows "clock_sync c"
  using assms by (auto simp: clock_sync_def total_cycles_def slot_cycles_def det_new_def intro!: sum_list_zeros)

lemma clock_sync_new: "clock_sync (cluster_with cc l2c)"
  by (rule clock_sync_zero [where q = "cc_quantum cc"]) (auto simp: cluster_with_def emu_new_cycles)

definition demo_cluster :: cluster where
  "demo_cluster = snd (load_program_all [0, enc_halt] 2 (cluster_with
     \<lparr>num_cores = 2, scratchpad_per_core = 32, shared_ram_bytes = 16, cc_quantum = 1\<rparr>
     \<lparr>c_cfg = shared_l2_config, c_sets = [], c_tick = 0, c_stats = cache_stats_init\<rparr>))"

theorem cluster_clock_sync_witness:
  "\<exists>c. cl_run demo_host 100 10 demo_cluster = Some (Ok (), c) \<and> clock_sync c \<and> global_clock (det c) = 2"
proof -
  let ?run = "cl_run demo_host 100 10 demo_cluster"
  have "map_option (\<lambda>(r, c). (r, global_clock (det c))) ?run = Some (Ok (), 2)" by code_simp
  then obtain c where c: "?run = Some (Ok (), c)" "global_clock (det c) = 2" by (auto simp: map_option_case split: option.splits)
  moreover have "clock_sync demo_cluster" "length (cores demo_cluster) = 2" by code_simp+
  ultimately show ?thesis using cluster_clock_sync [OF c(1)] by auto
qed

section \<open>Sharing\<close>

lemma shared_route:
  assumes "off < 0x01000000"
  shows "bus_route (e_bus (core_new cc)) (SHARED_BASE + off)
    = Some \<lparr>dev_base = SHARED_BASE, dev_size = 0x01000000, dev_read = Some SharedRamDev, dev_write = Some SharedRamDev\<rparr>"
proof -
  have u: "unat (SHARED_BASE + off) = 0x80000000 + unat off" "unat off < 0x01000000"
    using assms by (simp_all add: SHARED_BASE_def unat_word_ariths word_less_nat_alt)
  then show ?thesis
    by (simp add: bus_route_def core_new_def emu_new_def mmio_devices_def bus_add_device_def dev_match_def Let_def
        word_le_nat_alt word_less_nat_alt MMIO_BASE_def UART_BASE_def SHARED_BASE_def)
qed

text \<open>
  C20. Cores communicate through the shared window: a word that core \<open>i\<close> stores on its bus at an
  offset inside the shared memory is the word that core \<open>j\<close>, the same or another, then loads from
  that address on its own bus; the store changes these four bytes of the shared memory and
  nothing else of the cluster, the load changes nothing.
\<close>

theorem shared_window_coherent:
  fixes v :: u32
  assumes "i < length (cores c)" and "j < length (cores c)"
    and "\<forall>e \<in> set (cores c). e_bus e = e_bus (core_new cc) \<and> e_shared e = []"
    and "off < 0x01000000" and "unat off + 4 \<le> length (ram_data (shared_ram c))"
  defines "c' \<equiv> c\<lparr>shared_ram := (shared_ram c)\<lparr>ram_data := splice_at (unat off) (le_bytes32 v) (ram_data (shared_ram c))\<rparr>\<rparr>"
  shows "on_core i (emu_bus_write32 (SHARED_BASE + off) v) c = (Ok (), c')
    \<and> on_core j (emu_bus_read32 (SHARED_BASE + off)) c' = (Ok v, c')"
proof -
  have bus: "e_bus (cores c ! k) = e_bus (core_new cc)" "(cores c)[k := (cores c ! k)\<lparr>e_shared := []\<rparr>] = cores c"
    if "k < length (cores c)" for k
  proof -
    from that assms(3) have "e_bus (cores c ! k) = e_bus (core_new cc)" "e_shared (cores c ! k) = []" by simp_all
    then show "e_bus (cores c ! k) = e_bus (core_new cc)" "(cores c)[k := (cores c ! k)\<lparr>e_shared := []\<rparr>] = cores c"
      by (simp_all add: list_update_same_conv that)
  qed
  have "slice (unat off) 4 (splice_at (unat off) (le_bytes32 v) (ram_data (shared_ram c))) = le_bytes32 v"
    using slice_splice_at_same [of "unat off" "le_bytes32 v"] assms(5) by simp
  with assms(1,2,5) bus show ?thesis
    by (simp add: on_core_def emu_bus_write32_def emu_bus_read32_def bus_write32_def bus_read32_def
        shared_route [OF assms(4)] update_res_def mem_write_def mem_read_def c'_def)
qed

theorem shared_window_coherent_witness:
  "\<exists>c. on_core 0 (emu_bus_write32 (SHARED_BASE + 8) 0x11223344) demo_cluster = (Ok (), c)
    \<and> on_core 1 (emu_bus_read32 (SHARED_BASE + 8)) c = (Ok 0x11223344, c)"
proof -
  have "map e_bus (cores demo_cluster) = replicate 2 (e_bus (core_new (cl_cfg demo_cluster)))"
    "map e_shared (cores demo_cluster) = [[], []]" by code_simp+
  then have "\<forall>e \<in> set (cores demo_cluster). e_bus e = e_bus (core_new (cl_cfg demo_cluster)) \<and> e_shared e = []"
    by (auto simp: map_eq_Cons_conv numeral_2_eq_2)
  moreover have "length (cores demo_cluster) = 2" "length (ram_data (shared_ram demo_cluster)) = 16" by code_simp+
  ultimately show ?thesis
    using shared_window_coherent [of 0 demo_cluster 1 "cl_cfg demo_cluster" 8 "0x11223344"] by simp
qed

lemma nth_flush_others:
  "i < length (cores c) \<Longrightarrow> cores (flush_others va k c) ! i
     = (if i = k then cores c ! i else (cores c ! i)\<lparr>e_mmu := tlb_flush_va va (e_mmu (cores c ! i))\<rparr>)"
  by (simp add: flush_others_def nth_enumerate_eq)

lemma find_flush_va:
  "find (tlb_match (page_of va') a) (tlb (tlb_flush_va va m))
     = (if page_of va' = page_of va then None else find (tlb_match (page_of va') a) (tlb m))"
proof (cases "page_of va' = page_of va")
  case True
  then show ?thesis by (auto simp: find_None_iff tlb_flush_va_def tlb_match_def)
next
  case False
  then have "find (tlb_match (page_of va') a) (map (\<lambda>e. if tlb_valid e \<and> tlb_vpn e = page_of va
     then e\<lparr>tlb_valid := False\<rparr> else e) es) = find (tlb_match (page_of va') a) es" for es
    by (induction es) (auto simp: tlb_match_def)
  with False show ?thesis by (simp add: tlb_flush_va_def)
qed

text \<open>
  A shootdown removes one page from every other core and nothing else: after it, no core but
  the initiator finds the page in its TLB, under whatever address space and for whatever
  access, while lookups of every other page, and every lookup of the initiator, answer as before.
\<close>

theorem shootdown_reaches_others:
  assumes "i < length (cores c)"
  shows "fst (tlb_lookup csr va' need (e_mmu (cores (tlb_shootdown va who c) ! i)))
     = (if i \<noteq> who \<and> page_of va' = page_of va then None else fst (tlb_lookup csr va' need (e_mmu (cores c ! i))))"
  using assms by (simp add: tlb_shootdown_def nth_flush_others tlb_lookup_def find_flush_va split: option.split)

theorem shootdown_reaches_others_witness:
  "fst (tlb_lookup None 0x1234 1 (e_mmu (cores (tlb_shootdown 0x1000 0 demo_cluster) ! 1))) = None"
proof -
  have "length (cores demo_cluster) = 2" "page_of 0x1234 = page_of 0x1000" by code_simp+
  then show ?thesis using shootdown_reaches_others [of 1 demo_cluster None "0x1234" 1 "0x1000" 0] by simp
qed

lemma shl_bit: "bit (shl 1 3 :: u32) n \<longleftrightarrow> n = 3"
  unfolding shl_def by (auto simp only: bit_push_bit_iff bit_1_iff possible_bit_def) simp_all

lemma send_ipi_others: "j \<noteq> tgt \<Longrightarrow> cores (send_ipi tgt c) ! j = cores c ! j"
  by (simp add: send_ipi_def)

text \<open>
  An inter-core interrupt arrives: the target core, when it accepts software interrupts and has
  no external or timer interrupt pending, takes the software interrupt at its next check and
  continues at the vector of its trap handler with interrupts masked; no other core changes, and
  an index beyond the cores is ignored.
\<close>

theorem ipi_delivered:
  assumes "tgt < length (cores c)" and "s = cores c ! tgt"
    and "csr_read (e_csr s) CSR_MSTATUS AND shl 1 3 \<noteq> 0" and "bit (csr_read (e_csr s) CSR_MIE) 3"
    and "\<not> bit (mip (e_intc s)) 7" and "\<not> bit (mip (e_intc s)) 11"
  shows "\<exists>s'. check_interrupts (cores (send_ipi tgt c) ! tgt) = (Ok (), s')
      \<and> pc (e_regs s') = irq_vector (take_trap_csr (interrupt_trap MachineSoft) (e_csr s)) (interrupt_trap MachineSoft)
      \<and> \<not> csr_mstatus_mie (e_csr s')
      \<and> (\<forall>j. j \<noteq> tgt \<longrightarrow> cores (send_ipi tgt c) ! j = cores c ! j) \<and> send_ipi (length (cores c)) c = c"
proof -
  let ?i = "raise_soft (e_intc s)"
  have m: "bit (mip ?i) n \<longleftrightarrow> bit (mip (e_intc s)) n \<or> n = 3" for n
    unfolding raise_soft_def by (cases "n = 3") (auto simp: bit_or_iff shl_bit)
  have tst: "(mip ?i AND ucast (csr_read (e_csr s) CSR_MIE)) AND shl 1 n \<noteq> 0
      \<longleftrightarrow> bit (mip ?i) n \<and> bit (csr_read (e_csr s) CSR_MIE) n" if "n < 32" for n
    using that by (auto simp: and_shl_one bit_simps)
  have "bit (ucast (mip ?i) AND csr_read (e_csr s) CSR_MIE) 3"
    using m [of 3] assms(4) by (simp add: bit_simps)
  then have "ucast (mip ?i) AND csr_read (e_csr s) CSR_MIE \<noteq> 0" by auto
  with assms(3) have "interrupt_pending (Some (e_csr s)) ?i" by (simp add: interrupt_pending_def Let_def)
  with tst [of 11] tst [of 7] tst [of 3] m assms(4-6)
  have p: "pending_interrupt (Some (e_csr s)) ?i = Some (interrupt_trap MachineSoft)"
    by (simp add: pending_interrupt_def Let_def)
  have "cores (send_ipi tgt c) ! tgt = s\<lparr>e_intc := ?i\<rparr>" using assms(1,2) by (simp add: send_ipi_def)
  with p show ?thesis
    by (simp add: check_interrupts_def emu_take_trap_def take_trap_def set_pc_def take_trap_masks send_ipi_others)
      (simp add: send_ipi_def)
qed

definition ipi_core :: emu where
  "ipi_core = (emu_new 32 16)\<lparr>e_csr := csr_write CSR_MTVEC 0x40 (csr_write CSR_MIE 8 (csr_write CSR_MSTATUS 8 csr_init))\<rparr>"

theorem ipi_delivered_witness:
  "\<exists>s. check_interrupts (cores (send_ipi 1 (demo_cluster\<lparr>cores := [ipi_core, ipi_core]\<rparr>)) ! 1) = (Ok (), s)
     \<and> pc (e_regs s) = 0x40 \<and> \<not> csr_mstatus_mie (e_csr s)"
proof -
  have "csr_read (e_csr ipi_core) CSR_MSTATUS AND shl 1 3 \<noteq> 0" "bit (csr_read (e_csr ipi_core) CSR_MIE) 3"
    "\<not> bit (mip (e_intc ipi_core)) 7" "\<not> bit (mip (e_intc ipi_core)) 11"
    "irq_vector (take_trap_csr (interrupt_trap MachineSoft) (e_csr ipi_core)) (interrupt_trap MachineSoft) = 0x40"
    by code_simp+
  then show ?thesis
    using ipi_delivered [of 1 "demo_cluster\<lparr>cores := [ipi_core, ipi_core]\<rparr>" ipi_core] by auto
qed

text \<open>
  The fast run keeps no such agreement: it advances the clock by the quantum for each round,
  whatever the cores ran. After two cores have each spent one cycle, with a quantum of one, the
  clock reads one.
\<close>

theorem fast_clock_drifts:
  "map_option (\<lambda>(r, c). (r, global_clock (det c), total_cycles c)) (cl_run_fast demo_host 100 10 10 demo_cluster)
     = Some (Ok (), 1, 2)"
  by code_simp

lemma shared_window_unchecked:
  assumes "i < length (cores c)" and "e_bus (cores c ! i) = e_bus (core_new cc)"
    and "off < 0x01000000" and "length (ram_data (shared_ram c)) < unat off + 4"
  shows "fst (on_core i (emu_bus_read32 (SHARED_BASE + off)) c) = Undef"
  using assms by (simp add: on_core_def emu_bus_read32_def bus_read32_def shared_route [OF assms(3)] mem_read_def)

end
