(* ===== verification/Reports.thy ===== *)
theory Reports
  imports Parallel Observe Bridge Cluster
begin

text \<open>
  The one-line reports that are built with \<open>snprintf\<close> into a fixed buffer from integers and
  strings: warp scheduler, systolic array, deterministic engine, checkpoint history, CSR file,
  cluster, TLM adapter and FPGA. The theorem: no buffer is too small, whatever the counters are,
  except that of the FPGA report, which ends in a path of any length. Reports with a
  floating-point conversion are in \<open>Stats\<close>.
\<close>

text \<open>\<open>%llx\<close>\<close>

definition fmt_llx :: "u64 \<Rightarrow> string" where
  "fmt_llx w = map tolower (show_base 16 (unat w))"

section \<open>The texts\<close>

definition warp_text :: "warp_scheduler \<Rightarrow> string" where
  "warp_text w = ''warp scheduler '' @ u32_text (num_sms (w_cfg w)) @ ''x'' @ u32_text (max_warps_per_sm (w_cfg w))
     @ '' active='' @ u32_text (active_warps w) @ '' scheduled='' @ u64_text (scheduled w) @ '' stalls='' @ u64_text (w_stalls w)"

definition systolic_text :: "systolic \<Rightarrow> string" where
  "systolic_text y = ''systolic '' @ u32_text (sys_rows (sy_cfg y)) @ ''x'' @ u32_text (sys_cols (sy_cfg y))
     @ '' tiles='' @ u64_text (tiles y) @ '' cycles='' @ u64_text (sys_total_cycles y)"

definition det_text :: "det_engine \<Rightarrow> string" where
  "det_text d = ''deterministic quantum='' @ u64_text (quantum d) @ '' global_clock='' @ u64_text (global_clock d)
     @ '' seq='' @ u64_text (seq d)"

definition ckpt_text :: "ckpt_manager \<Rightarrow> string" where
  "ckpt_text m = ''checkpoint history '' @ u64_text (of_nat (length (history m))) @ ''/'' @ u64_text (max_history m)"

definition csr_text :: "csr_file \<Rightarrow> string" where
  "csr_text c = ''priv='' @ u64_text (priv_code (priv c)) @ '' mstatus=0x'' @ fmt_llx (csr_read c CSR_MSTATUS)
     @ '' mtvec=0x'' @ fmt_llx (csr_read c CSR_MTVEC) @ '' mepc=0x'' @ fmt_llx (csr_read c CSR_MEPC)
     @ '' mcause=0x'' @ fmt_llx (csr_read c CSR_MCAUSE) @ '' satp=0x'' @ fmt_llx (csr_read c CSR_SATP)"

definition cluster_text :: "cluster \<Rightarrow> string" where
  "cluster_text c = ''Cluster '' @ u64_text (of_nat (length (cores c))) @ '' cores shared_ram='' @ u64_text (ram_size (shared_ram c) div 1024)
     @ ''KB det_clock='' @ u64_text (global_clock (det c)) @ '' total_cyc='' @ u64_text (total_cycles c)
     @ '' total_instr='' @ u64_text (total_instructions c)"

definition backend_name :: "fpga_backend \<Rightarrow> string" where
  "backend_name b = (if b = FpgaPCIe then ''PCIe'' else if b = FpgaSimulated then ''sim'' else if b = FpgaNone then ''none'' else ''usb'')"

definition fpga_text :: "fpga \<Rightarrow> string" where
  "fpga_text f = ''FPGA backend='' @ backend_name (backend (f_cfg f)) @ '' available='' @ (if available f then ''yes'' else ''no'')
     @ '' offloaded='' @ u64_text (offloaded f) @ '' fallback='' @ u64_text (fallback f)
     @ '' bitstream='' @ (if bitstream (f_cfg f) = [] then ''<none>'' else bitstream (f_cfg f))"

section \<open>The reports\<close>

definition warp_report :: "warp_scheduler \<Rightarrow> string" where
  "warp_report w = snprintf 192 (warp_text w)"

definition systolic_report :: "systolic \<Rightarrow> string" where
  "systolic_report y = snprintf 192 (systolic_text y)"

definition det_report :: "det_engine \<Rightarrow> string" where
  "det_report d = snprintf 128 (det_text d)"

definition ckpt_stats :: "ckpt_manager \<Rightarrow> string" where
  "ckpt_stats m = snprintf 128 (ckpt_text m)"

definition csr_dump :: "csr_file \<Rightarrow> string" where
  "csr_dump c = snprintf 512 (csr_text c)"

definition cluster_report :: "cluster \<Rightarrow> string" where
  "cluster_report c = snprintf 512 (cluster_text c)"

definition fpga_report :: "fpga \<Rightarrow> string" where
  "fpga_report f = snprintf 256 (fpga_text f)"

definition tlm_report :: "tlm_adapter \<Rightarrow> string" where
  "tlm_report a = ''TLM bound='' @ (if bound (initiator a) then ''yes'' else ''no'')"

section \<open>Lengths\<close>

lemma length_fmt_llx: "length (fmt_llx w) \<le> 16"
proof -
  have "unat w < 16 ^ Suc 15" using unsigned_less [of w, where 'a = nat] by simp
  then show ?thesis using length_show_base [of 16 "unat w" 15] by (simp add: fmt_llx_def)
qed

text \<open>
  No fixed report buffer is too small: for all values of the counters and sizes, the reports of
  the warp scheduler, the systolic array, the deterministic engine, the checkpoint history,
  the CSR file and the cluster are the complete text; that of the FPGA is, when the path of
  the bitstream has at most 130 characters.
\<close>

theorem reports_complete:
  "warp_report w = warp_text w \<and> systolic_report y = systolic_text y \<and> det_report d = det_text d
   \<and> ckpt_stats m = ckpt_text m \<and> csr_dump c = csr_text c \<and> cluster_report cl = cluster_text cl
   \<and> (130 < length (bitstream (f_cfg f)) \<or> fpga_report f = fpga_text f)"
proof (intro conjI)
  note u32 = length_u32_text and u64 = length_u64_text and x = length_fmt_llx
  show "warp_report w = warp_text w" unfolding warp_report_def
    using u32 [of "num_sms (w_cfg w)"] u32 [of "max_warps_per_sm (w_cfg w)"] u32 [of "active_warps w"]
      u64 [of "scheduled w"] u64 [of "w_stalls w"] by (intro snprintf_fits) (simp add: warp_text_def)
  show "systolic_report y = systolic_text y" unfolding systolic_report_def
    using u32 [of "sys_rows (sy_cfg y)"] u32 [of "sys_cols (sy_cfg y)"] u64 [of "tiles y"] u64 [of "sys_total_cycles y"]
    by (intro snprintf_fits) (simp add: systolic_text_def)
  show "det_report d = det_text d" unfolding det_report_def
    using u64 [of "quantum d"] u64 [of "global_clock d"] u64 [of "seq d"] by (intro snprintf_fits) (simp add: det_text_def)
  show "ckpt_stats m = ckpt_text m" unfolding ckpt_stats_def
    using u64 [of "of_nat (length (history m))"] u64 [of "max_history m"] by (intro snprintf_fits) (simp only: ckpt_text_def length_append, simp)
  show "csr_dump c = csr_text c" unfolding csr_dump_def
    using u64 [of "priv_code (priv c)"] x [of "csr_read c CSR_MSTATUS"] x [of "csr_read c CSR_MTVEC"] x [of "csr_read c CSR_MEPC"]
      x [of "csr_read c CSR_MCAUSE"] x [of "csr_read c CSR_SATP"] by (intro snprintf_fits) (simp add: csr_text_def)
  show "cluster_report cl = cluster_text cl" unfolding cluster_report_def
    using u64 [of "of_nat (length (cores cl))"] u64 [of "ram_size (shared_ram cl) div 1024"] u64 [of "global_clock (det cl)"]
      u64 [of "total_cycles cl"] u64 [of "total_instructions cl"]
    by (intro snprintf_fits) (simp only: cluster_text_def length_append, simp)
  have fits: "length (fpga_text f) < 256" if "length (bitstream (f_cfg f)) \<le> 130"
    using that u64 [of "offloaded f"] u64 [of "fallback f"] by (auto simp: fpga_text_def backend_name_def)
  show "130 < length (bitstream (f_cfg f)) \<or> fpga_report f = fpga_text f"
    unfolding fpga_report_def using fits snprintf_fits [of "fpga_text f" 256] by linarith
qed

end
