(* ===== verification/CApi.thy ===== *)
theory CApi
  imports Emu_Props
begin

text \<open>
  The C interface of \<^verbatim>\<open>include/aiasm/aism.h\<close>, implemented at the end of
  \<^verbatim>\<open>src/emulator.cpp\<close>. A handle is the emulator it points to. Each wrapper runs the C++
  operation under \<open>catch (...)\<close>: an exception becomes a return code, a default value or
  nothing, and the state the exception left behind stays. A buffer the caller passes is a list,
  and writing past its end is undefined. Allocation of the two memories may fail, which is the
  parameter \<open>alloc\<close> of \<open>aism_create\<close>.

  The floating-point ratios (\<open>aism_dma_throughput\<close>, \<open>aism_block_cache_hit_rate\<close>) are in \<open>Stats\<close>, the
  host description (\<open>aism_host_info\<close>) in \<open>Console\<close>.
\<close>

section \<open>Exceptions at the boundary\<close>

text \<open>\<open>try { m; return f; } catch (...) { return bad; }\<close>\<close>

definition catch_all :: "('a \<Rightarrow> 'b) \<Rightarrow> 'b \<Rightarrow> 'a res \<times> 's \<Rightarrow> 'b res \<times> 's" where
  "catch_all f bad o1 = (case o1 of
     (Ok a, s) \<Rightarrow> (Ok (f a), s)
   | (Err e, s) \<Rightarrow> (Ok bad, s)
   | (Undef, s) \<Rightarrow> (Undef, s))"

definition status_code :: "unit res \<times> 's \<Rightarrow> int res \<times> 's" where
  "status_code = catch_all (\<lambda>_. 0) (-1)"

section \<open>Lifetime and loading\<close>

definition aism_create :: "(size_t \<Rightarrow> size_t \<Rightarrow> bool) \<Rightarrow> u32 \<Rightarrow> u32 \<Rightarrow> emu option" where
  "aism_create alloc scratchpad_bytes main_ram_bytes =
    (let s = (if scratchpad_bytes = 0 then SCRATCHPAD_SIZE else ucast scratchpad_bytes);
         m = (if main_ram_bytes = 0 then MAIN_RAM_SIZE else ucast main_ram_bytes)
     in if alloc s m then Some (emu_new s m) else None)"

definition aism_reset :: "unit emu_op" where
  "aism_reset = modify emu_reset"

definition aism_load_program :: "u32 list \<Rightarrow> u32 \<Rightarrow> int emu_op" where
  "aism_load_program instrs count s = status_code (load_program instrs (ucast count) s)"

definition aism_load_main_ram :: "u32 \<Rightarrow> u8 list \<Rightarrow> u32 \<Rightarrow> int emu_op" where
  "aism_load_main_ram off data count s = status_code (load_main_ram off data (ucast count) s)"

definition aism_load_tensor :: "u32 \<Rightarrow> f32 list \<Rightarrow> u32 \<Rightarrow> int emu_op" where
  "aism_load_tensor addr data count s = status_code (load_tensor addr data (ucast count) s)"

definition aism_write_scratchpad :: "u32 \<Rightarrow> u8 list \<Rightarrow> u32 \<Rightarrow> int emu_op" where
  "aism_write_scratchpad addr data count s = status_code (update_res
     (\<lambda>s. sram_write_bytes (e_scratchpad s) addr data (ucast count)) (\<lambda>m s. s\<lparr>e_scratchpad := m\<rparr>) s)"

definition aism_write32 :: "u32 \<Rightarrow> u32 \<Rightarrow> int emu_op" where
  "aism_write32 addr v s = status_code (emu_bus_write32 addr v s)"

definition aism_read32 :: "u32 \<Rightarrow> u32 emu_op" where
  "aism_read32 addr s = catch_all id 0 (emu_bus_read32 addr s)"

section \<open>Execution\<close>

definition aism_run :: "host_env \<Rightarrow> nat \<Rightarrow> emu \<Rightarrow> (unit res \<times> emu) option" where
  "aism_run h fuel s = map_option (catch_all id ()) (run h fuel s)"

definition aism_run_fast :: "host_env \<Rightarrow> nat \<Rightarrow> emu \<Rightarrow> (unit res \<times> emu) option" where
  "aism_run_fast h fuel s = map_option (catch_all id ()) (run_fast h fuel s)"

definition aism_step :: "host_env \<Rightarrow> unit emu_op" where
  "aism_step h s = catch_all id () (step h s)"

definition aism_set_verbose :: "int \<Rightarrow> unit emu_op" where
  "aism_set_verbose v = modify (set_verbose (v \<noteq> 0))"

definition aism_halted :: "int emu_op" where
  "aism_halted = gets (\<lambda>s. if halt (e_regs s) then 1 else 0)"

section \<open>Debugger\<close>

definition on_debugger :: "(debugger \<Rightarrow> debugger) \<Rightarrow> unit emu_op" where
  "on_debugger f = modify (\<lambda>s. s\<lparr>e_debugger := f (e_debugger s)\<rparr>)"

definition aism_add_breakpoint :: "u32 \<Rightarrow> unit emu_op" where
  "aism_add_breakpoint addr = on_debugger (dbg_add_breakpoint addr)"

definition aism_remove_breakpoint :: "u32 \<Rightarrow> unit emu_op" where
  "aism_remove_breakpoint addr = on_debugger (dbg_remove_breakpoint addr)"

definition aism_clear_breakpoints :: "unit emu_op" where
  "aism_clear_breakpoints = on_debugger dbg_clear_breakpoints"

definition aism_has_breakpoint :: "u32 \<Rightarrow> int emu_op" where
  "aism_has_breakpoint addr = gets (\<lambda>s. if dbg_has_breakpoint addr (e_debugger s) then 1 else 0)"

definition aism_enable_single_step :: "unit emu_op" where
  "aism_enable_single_step = on_debugger dbg_enable_single_step"

definition aism_disable_single_step :: "unit emu_op" where
  "aism_disable_single_step = on_debugger dbg_disable_single_step"

section \<open>Registers, counters, disassembly\<close>

definition aism_pc :: "u32 emu_op" where
  "aism_pc = gets (\<lambda>s. pc (e_regs s))"

definition aism_read_gpr :: "u8 \<Rightarrow> u32 emu_op" where
  "aism_read_gpr idx = rd_gpr idx"

text \<open>The caller's array \<open>out\<close> after the copy of at most sixteen lanes.\<close>

definition aism_read_vr :: "u8 \<Rightarrow> f32 list \<Rightarrow> u32 \<Rightarrow> f32 list emu_op" where
  "aism_read_vr idx out count = lift_res (\<lambda>s. bind_res (read_vr (e_regs s) idx) (\<lambda>v.
     let n = (if unat count < VEC_WIDTH then unat count else VEC_WIDTH)
     in mem_write out 0 (take n v)))"

definition aism_instruction_count :: "u64 emu_op" where
  "aism_instruction_count = gets (\<lambda>s. instr_count (e_profiler s))"

definition aism_cycle_count :: "u64 emu_op" where
  "aism_cycle_count = gets (\<lambda>s. cycle_count (e_profiler s))"

definition aism_dma_bytes :: "u64 emu_op" where
  "aism_dma_bytes = gets (\<lambda>s. dma_bytes (e_profiler s))"

definition aism_block_cache_hits :: "u64 emu_op" where
  "aism_block_cache_hits = gets (\<lambda>s. bc_hits (e_block_cache s))"

definition aism_block_cache_misses :: "u64 emu_op" where
  "aism_block_cache_misses = gets (\<lambda>s. bc_misses (e_block_cache s))"

text \<open>\<open>snprintf(buf, n, "%s", str)\<close>: at most \<open>n - 1\<close> characters and a terminator, nothing for \<open>n = 0\<close>.\<close>

definition snprintf_s :: "string \<Rightarrow> u32 \<Rightarrow> string \<Rightarrow> string res" where
  "snprintf_s buf n str = (if n = 0 then Ok buf
     else mem_write buf 0 (take (unat n - 1) str @ [CHR 0x00]))"

definition aism_disassemble_at :: "u32 \<Rightarrow> string \<Rightarrow> u32 \<Rightarrow> (int \<times> string) emu_op" where
  "aism_disassemble_at addr buf bufsize = lift_res (\<lambda>s. case disassemble_at addr s of
       Ok str \<Rightarrow> map_res (Pair 0) (snprintf_s buf bufsize str)
     | Err e \<Rightarrow> map_res (Pair (-1)) (snprintf_s buf bufsize ''???'')
     | Undef \<Rightarrow> Undef)"

section \<open>Targets\<close>

definition aism_set_target_cpu :: "unit emu_op" where
  "aism_set_target_cpu = modify (set_target_kind CPU)"

definition aism_set_target_gpu :: "unit emu_op" where
  "aism_set_target_gpu = modify (set_target_kind GPU)"

definition aism_set_target_asic :: "unit emu_op" where
  "aism_set_target_asic = modify (set_target_kind ASIC)"

definition aism_set_acceleration :: "int \<Rightarrow> unit emu_op" where
  "aism_set_acceleration enable = modify (set_acceleration (enable \<noteq> 0))"

section \<open>Sessions\<close>

text \<open>
  The calls that may change the emulator, and the sequences of them that a client can make.
  What a call returns is dropped here, except that a call whose behaviour is undefined ends the
  session.
\<close>

datatype capi_call =
    CReset
  | CLoadProgram "u32 list" u32
  | CLoadMainRam u32 "u8 list" u32
  | CLoadTensor u32 "f32 list" u32
  | CWriteScratchpad u32 "u8 list" u32
  | CWrite32 u32 u32
  | CRead32 u32
  | CRun
  | CRunFast
  | CStep
  | CSetVerbose int
  | CAddBreakpoint u32
  | CRemoveBreakpoint u32
  | CClearBreakpoints
  | CEnableSingleStep
  | CDisableSingleStep
  | CSetTargetCpu
  | CSetTargetGpu
  | CSetTargetAsic
  | CSetAcceleration int

definition void_call :: "'a res \<times> emu \<Rightarrow> (unit res \<times> emu) option" where
  "void_call o1 = Some (map_res (\<lambda>_. ()) (fst o1), snd o1)"

fun capi :: "host_env \<Rightarrow> nat \<Rightarrow> capi_call \<Rightarrow> emu \<Rightarrow> (unit res \<times> emu) option" where
  "capi h fuel CReset s = void_call (aism_reset s)"
| "capi h fuel (CLoadProgram ws n) s = void_call (aism_load_program ws n s)"
| "capi h fuel (CLoadMainRam a bs n) s = void_call (aism_load_main_ram a bs n s)"
| "capi h fuel (CLoadTensor a fs n) s = void_call (aism_load_tensor a fs n s)"
| "capi h fuel (CWriteScratchpad a bs n) s = void_call (aism_write_scratchpad a bs n s)"
| "capi h fuel (CWrite32 a v) s = void_call (aism_write32 a v s)"
| "capi h fuel (CRead32 a) s = void_call (aism_read32 a s)"
| "capi h fuel CRun s = aism_run h fuel s"
| "capi h fuel CRunFast s = aism_run_fast h fuel s"
| "capi h fuel CStep s = void_call (aism_step h s)"
| "capi h fuel (CSetVerbose v) s = void_call (aism_set_verbose v s)"
| "capi h fuel (CAddBreakpoint a) s = void_call (aism_add_breakpoint a s)"
| "capi h fuel (CRemoveBreakpoint a) s = void_call (aism_remove_breakpoint a s)"
| "capi h fuel CClearBreakpoints s = void_call (aism_clear_breakpoints s)"
| "capi h fuel CEnableSingleStep s = void_call (aism_enable_single_step s)"
| "capi h fuel CDisableSingleStep s = void_call (aism_disable_single_step s)"
| "capi h fuel CSetTargetCpu s = void_call (aism_set_target_cpu s)"
| "capi h fuel CSetTargetGpu s = void_call (aism_set_target_gpu s)"
| "capi h fuel CSetTargetAsic s = void_call (aism_set_target_asic s)"
| "capi h fuel (CSetAcceleration v) s = void_call (aism_set_acceleration v s)"

fun session :: "host_env \<Rightarrow> nat \<Rightarrow> capi_call list \<Rightarrow> emu \<Rightarrow> (unit res \<times> emu) option" where
  "session h fuel [] s = Some (Ok (), s)"
| "session h fuel (c # cs) s = (case capi h fuel c s of
     Some (Ok _, s') \<Rightarrow> session h fuel cs s'
   | other \<Rightarrow> other)"

section \<open>No exception crosses the interface\<close>

lemma catch_all_cases:
  "catch_all f b (m, s) = (r, s') \<longleftrightarrow> s' = s \<and> (case m of Ok a \<Rightarrow> r = Ok (f a) | Err _ \<Rightarrow> r = Ok b | Undef \<Rightarrow> r = Undef)"
  by (auto simp: catch_all_def split: res.split)

lemma catch_all_no_err [simp]: "fst (catch_all f b o1) \<noteq> Err e"
  by (cases o1) (auto simp: catch_all_def split: res.split)

lemma catch_all_snd [simp]: "snd (catch_all f b o1) = snd o1"
  by (cases o1) (auto simp: catch_all_def split: res.split)

lemma catch_all_undef [simp]: "fst (catch_all f b o1) = Undef \<longleftrightarrow> fst o1 = Undef"
  by (cases o1) (auto simp: catch_all_def split: res.split)

lemma map_res_err [simp]: "map_res f r = Err e \<longleftrightarrow> r = Err e" "map_res f r = Undef \<longleftrightarrow> r = Undef"
  by (cases r; simp)+

lemmas call_defs = void_call_def aism_reset_def aism_load_program_def aism_load_main_ram_def aism_load_tensor_def
  aism_write_scratchpad_def aism_write32_def aism_read32_def aism_run_def aism_run_fast_def aism_step_def
  aism_set_verbose_def aism_add_breakpoint_def aism_remove_breakpoint_def aism_clear_breakpoints_def
  aism_enable_single_step_def aism_disable_single_step_def aism_set_target_cpu_def aism_set_target_gpu_def
  aism_set_target_asic_def aism_set_acceleration_def status_code_def on_debugger_def

lemma capi_no_err: "capi h fuel c s = Some o1 \<Longrightarrow> fst o1 \<noteq> Err e"
  by (cases c) (auto simp: call_defs)

lemma write_scratchpad_load:
  "update_res (\<lambda>s. sram_write_bytes (e_scratchpad s) addr data n) (\<lambda>m s. s\<lparr>e_scratchpad := m\<rparr>) = load_data addr data n"
  by (simp add: load_data_def sram_write_bytes_def sram_load_def)

text \<open>A C call is one of the operations that \<open>reachable\<close> is closed under.\<close>

lemma reachable_pairs:
  assumes "reachable h m k s"
  shows "fst (load_program ws n s) \<noteq> Undef \<Longrightarrow> reachable h m k (snd (load_program ws n s))"
    and "fst (load_main_ram a bs n s) \<noteq> Undef \<Longrightarrow> reachable h m k (snd (load_main_ram a bs n s))"
    and "fst (load_tensor a fs n s) \<noteq> Undef \<Longrightarrow> reachable h m k (snd (load_tensor a fs n s))"
    and "fst (load_data a bs n s) \<noteq> Undef \<Longrightarrow> reachable h m k (snd (load_data a bs n s))"
    and "fst (emu_bus_write32 a v s) \<noteq> Undef \<Longrightarrow> reachable h m k (snd (emu_bus_write32 a v s))"
    and "fst (emu_bus_read32 a s) \<noteq> Undef \<Longrightarrow> reachable h m k (snd (emu_bus_read32 a s))"
    and "fst (step h s) \<noteq> Undef \<Longrightarrow> reachable h m k (snd (step h s))"
    and "run h fuel s = Some o1 \<Longrightarrow> fst o1 \<noteq> Undef \<Longrightarrow> reachable h m k (snd o1)"
    and "run_fast h fuel s = Some o1 \<Longrightarrow> fst o1 \<noteq> Undef \<Longrightarrow> reachable h m k (snd o1)"
  using assms
  by (metis prod.collapse reach_program, metis prod.collapse reach_dram, metis prod.collapse reach_tensor,
      metis prod.collapse reach_data, metis prod.collapse reach_bus, metis prod.collapse reach_bus,
      metis prod.collapse reach_step, metis prod.collapse reach_run, metis prod.collapse reach_run_fast)

lemma capi_reachable:
  assumes "reachable h m k s" and "capi h fuel c s = Some o1" and "fst o1 \<noteq> Undef"
  shows "reachable h m k (snd o1)"
  using assms
  by (cases c) (auto simp: call_defs write_scratchpad_load
      intro: reachable_pairs reach_run reach_run_fast reach_reset reach_config)

lemma session_reachable:
  "reachable h m k s \<Longrightarrow> session h fuel cs s = Some o1 \<Longrightarrow>
   fst o1 = Undef \<or> fst o1 = Ok () \<and> reachable h m k (snd o1)"
proof (induction cs arbitrary: s)
  case (Cons c cs)
  from Cons.prems(2) obtain r s' where c: "capi h fuel c s = Some (r, s')"
    by (auto split: option.splits)
  show ?case
  proof (cases r)
    case (Ok u)
    with capi_reachable [OF Cons.prems(1) c] have "reachable h m k s'" by simp
    with Cons c Ok show ?thesis by simp
  next
    case (Err e)
    with capi_no_err [OF c, of e] show ?thesis by simp
  next
    case Undef
    with Cons.prems c show ?thesis by auto
  qed
qed auto

lemma create_reachable: "aism_create alloc a b = Some s \<Longrightarrow> \<exists>m k. reachable h m k s"
  by (auto simp: aism_create_def Let_def split: if_splits intro: reach.new)

section \<open>Properties\<close>

text \<open>
  C5. The C interface is safe for any client: whatever sequence of calls is made on a handle
  that \<open>aism_create\<close> returned, with whatever arguments and whatever guest program, no exception
  crosses the interface, and unless a call ran into undefined behaviour the emulator behind the
  handle is well-formed at the end.
\<close>

theorem capi_session_safe:
  assumes "aism_create alloc a b = Some s0" and "session h fuel cs s0 = Some (r, s)"
  shows "r = Undef \<or> (r = Ok () \<and> emu_wf s)"
proof -
  from create_reachable [OF assms(1)] obtain m k where "reachable h m k s0" by blast
  from session_reachable [OF this assms(2)] have "r = Undef \<or> r = Ok () \<and> reachable h m k s" by simp
  then show ?thesis using reachable_inv [of h m k s] by (auto simp: emu_inv_def)
qed

definition demo_calls :: "capi_call list" where
  "demo_calls = [CLoadProgram [enc_movi 1 7, enc_store 1 0 0x20, enc_halt] 3, CLoadProgram [] 0xFFFFFFFF,
     CWrite32 100 1, CRun, CSetTargetGpu, CReset]"

theorem capi_session_safe_witness:
  "\<exists>s. session demo_host 10 demo_calls (emu_new 64 16) = Some (Ok (), s) \<and> emu_wf s"
proof -
  let ?go = "session demo_host 10 demo_calls (emu_new 64 16)"
  have "map_option (\<lambda>o1. (fst o1, target_kind (e_target (snd o1)))) ?go = Some (Ok (), GPU)" by code_simp
  then obtain s where s: "?go = Some (Ok (), s)" by auto
  have c: "aism_create (\<lambda>_ _. True) 64 16 = Some (emu_new 64 16)" by (simp add: aism_create_def)
  from capi_session_safe [OF c s] s show ?thesis by simp
qed

text \<open>
  What is written through the C interface is read back through it: outside the device
  window \<open>aism_write32\<close> returns 0 exactly when the four bytes lie in the scratchpad, and then
  \<open>aism_read32\<close> returns the value; otherwise it returns -1, changes nothing, and \<open>aism_read32\<close>
  returns 0.
\<close>

theorem capi_write_read:
  assumes "reachable h m k s" and "\<not> device_addr a"
  shows "if in_range (sram_data (e_scratchpad s)) a 4
     then fst (aism_write32 a v s) = Ok 0 \<and> fst (aism_read32 a (snd (aism_write32 a v s))) = Ok v
     else aism_write32 a v s = (Ok (-1), s) \<and> aism_read32 a s = (Ok 0, s)"
proof -
  note inv = reachable_inv [OF assms(1)]
  let ?s = "s\<lparr>e_scratchpad := (e_scratchpad s)\<lparr>sram_data := splice_at (unat a) (le_bytes32 v) (a_mem (arch_of s))\<rparr>\<rparr>"
  show ?thesis
  proof (cases "in_range (sram_data (e_scratchpad s)) a 4")
    case True
    then have w: "emu_bus_write32 a v s = (Ok (), ?s)" by (simp add: bus_write_arch [OF inv assms(2)])
    then have "reachable h m k ?s" using assms(1) by (blast intro: reach_bus)
    from bus_read_arch [OF reachable_inv [OF this] assms(2)] True
    have "emu_bus_read32 a ?s = (Ok v, ?s)"
      using slice_splice_at_same [of "unat a" "le_bytes32 v" "a_mem (arch_of s)"] by (simp add: in_range_def)
    with True w show ?thesis by (simp add: aism_write32_def aism_read32_def status_code_def catch_all_def)
  next
    case False
    then show ?thesis
      using bus_write_arch [OF inv assms(2)] bus_read_arch [OF inv assms(2)]
      by (simp add: aism_write32_def aism_read32_def status_code_def catch_all_def)
  qed
qed

theorem capi_write_read_witness:
  "fst (aism_read32 60 (snd (aism_write32 60 7 (emu_new 64 16)))) = Ok 7
   \<and> aism_write32 61 7 (emu_new 64 16) = (Ok (-1), emu_new 64 16)"
proof -
  have r: "reachable demo_host 64 16 (emu_new 64 16)" by (rule reach.new)
  have d: "\<not> device_addr 60" "\<not> device_addr 61" by code_simp+
  have i: "in_range (sram_data (e_scratchpad (emu_new 64 16))) 60 4"
    "\<not> in_range (sram_data (e_scratchpad (emu_new 64 16))) 61 4" by code_simp+
  show ?thesis using capi_write_read [OF r d(1), of 7] capi_write_read [OF r d(2), of 7] i by simp
qed

end
