(* ===== verification/Stats.thy ===== *)
theory Stats
  imports Floats Reports CApi
begin

text \<open>
  The ratios that the sources compute as \<open>double\<close> (instructions per cycle, DMA throughput, hit
  and miss rates, utilisation) and the reports that print them: profiler, caches and memory
  controller, pipeline, performance counters. The theorems: a ratio of counters below
  \<open>2 ^ 53\<close> is the nearest \<open>double\<close> and its text is accurate to the last digit shown; a rate lies
  between 0 and 1; no report buffer is too small, except that of the profiler, whose header is
  complete as long as the counters have at most thirteen digits.
\<close>

section \<open>Ratios\<close>

definition profiler_ipc :: "profiler \<Rightarrow> dbl" where
  "profiler_ipc p = dbl_ratio (instr_count p) (cycle_count p)"

definition dma_throughput :: "profiler \<Rightarrow> dbl" where
  "dma_throughput p = dbl_ratio (dma_bytes p) (dma_cycle_count p)"

definition cache_hit_rate :: "cache_stats \<Rightarrow> dbl" where
  "cache_hit_rate st = dbl_ratio (hits st) (hits st + misses st)"

definition row_hit_rate :: "mem_controller \<Rightarrow> dbl" where
  "row_hit_rate m = dbl_ratio (row_hits m) (mc_total_accesses m)"

definition stall_rate :: "u64 \<Rightarrow> pipeline \<Rightarrow> dbl" where
  "stall_rate tot p = dbl_ratio (stalls p) tot"

definition pmc_ipc :: "pmc \<Rightarrow> dbl" where
  "pmc_ipc c = dbl_ratio (pmc_get EvInstructions c) (pmc_get EvCycles c)"

definition cache_miss_rate :: "u64 \<Rightarrow> u64 \<Rightarrow> dbl" where
  "cache_miss_rate h m = dbl_ratio m (h + m)"

definition bc_hit_rate :: "block_cache \<Rightarrow> dbl" where
  "bc_hit_rate c = dbl_ratio (bc_hits c) (bc_hits c + bc_misses c)"

definition tlb_hit_rate :: "mmu \<Rightarrow> dbl" where
  "tlb_hit_rate m = dbl_ratio (tlb_hits m) (tlb_hits m + tlb_misses m)"

definition fabric_utilization :: "interconnect \<Rightarrow> dbl" where
  "fabric_utilization ic = dbl_ratio (completed ic) (completed ic + stalled ic)"

definition aism_dma_throughput :: "dbl emu_op" where
  "aism_dma_throughput = gets (\<lambda>s. dma_throughput (e_profiler s))"

definition aism_block_cache_hit_rate :: "dbl emu_op" where
  "aism_block_cache_hit_rate = gets (\<lambda>s. bc_hit_rate (e_block_cache s))"

section \<open>Reports\<close>

definition coherence_name :: "coherence_protocol \<Rightarrow> string" where
  "coherence_name c = (if c = MESI then ''MESI'' else if c = MOESI then ''MOESI'' else ''none'')"

definition cache_text :: "string \<Rightarrow> cache \<Rightarrow> string" where
  "cache_text name c = name @ '' '' @ u64_text (size_bytes (c_cfg c) div 1024) @ ''KiB/'' @ u64_text (associativity (c_cfg c))
     @ ''-way '' @ coherence_name (coherence (c_cfg c)) @ '' hit='' @ u64_text (hits (c_stats c))
     @ '' miss='' @ u64_text (misses (c_stats c)) @ '' rate='' @ fmt_f 1 (percent (cache_hit_rate (c_stats c))) @ ''%''"

definition cache_report :: "string \<Rightarrow> cache \<Rightarrow> string" where
  "cache_report name c = snprintf 256 (cache_text name c)"

definition mc_text :: "mem_controller \<Rightarrow> string" where
  "mc_text m = ''MC '' @ (if mc_type (mc_cfg m) = DDR5 then ''DDR5'' else ''HBM3'') @ '' banks='' @ u32_text (banks (mc_cfg m))
     @ '' row_hit='' @ fmt_f 1 (percent (row_hit_rate m)) @ ''% tCAS='' @ u32_text (tCAS (mc_cfg m))"

definition mc_report :: "mem_controller \<Rightarrow> string" where
  "mc_report m = snprintf 256 (mc_text m)"

definition hierarchy_report :: "hierarchy \<Rightarrow> string" where
  "hierarchy_report h = cache_report ''L1'' (l1 h) @ '' | '' @ cache_report ''L2'' (l2 h) @ '' | ''
     @ cache_report ''L3'' (l3 h) @ '' | '' @ mc_report (mc h)"

definition pipeline_text :: "u64 \<Rightarrow> pipeline \<Rightarrow> string" where
  "pipeline_text tot p = ''pipeline '' @ (if ooo (p_cfg p) then ''OoO'' else ''in-order'') @ '' stalls='' @ u64_text (stalls p)
     @ '' mispredicts='' @ u64_text (mispredicts p) @ '' stall_rate='' @ fmt_f 1 (percent (stall_rate tot p)) @ ''%''"

definition pipeline_report :: "u64 \<Rightarrow> pipeline \<Rightarrow> string" where
  "pipeline_report tot p = snprintf 256 (pipeline_text tot p)"

definition pmc_text :: "u64 \<Rightarrow> u64 \<Rightarrow> pmc \<Rightarrow> string" where
  "pmc_text h m c = ''PMCs IPC='' @ fmt_f 3 (pmc_ipc c) @ '' cyc='' @ u64_text (pmc_get EvCycles c)
     @ '' instr='' @ u64_text (pmc_get EvInstructions c) @ '' br_miss='' @ u64_text (pmc_get EvBranchMispredicts c)
     @ '' cache_miss_rate='' @ fmt_f 1 (percent (cache_miss_rate h m)) @ ''% tlb_miss='' @ u64_text (pmc_get EvTLBMisses c)
     @ '' dma_B='' @ u64_text (pmc_get EvDMABandwidth c) @ '' warp_stall='' @ u64_text (pmc_get EvWarpStalls c)
     @ '' tiles='' @ u64_text (pmc_get EvSystolicTiles c)"

definition pmc_report :: "u64 \<Rightarrow> u64 \<Rightarrow> pmc \<Rightarrow> string" where
  "pmc_report h m c = snprintf 512 (pmc_text h m c)"

text \<open>The table of opcode names; entries without an initialiser are null.\<close>

definition report_names :: "string option list" where
  "report_names = map Some [''NOP'', ''HALT'', ''JMP'', ''BEQ'', ''BNE'', ''ADD'', ''SUB'', ''MUL'',
     ''LOAD'', ''STORE'', ''MOV'', ''MOVI'', ''LOAD_VR'', ''STORE_VR'', [], [],
     ''VEC_ADD'', ''MATMUL_TILE'', ''DMA_LOAD'', ''DMA_STORE'', [], [], [], [], [], [], [], [], [], []]
     @ replicate 34 None"

definition newline :: string where "newline = [char_of (10 :: nat)]"

definition profiler_header :: "profiler \<Rightarrow> string" where
  "profiler_header p = ''=== Performance Report ==='' @ newline
     @ ''Instructions:    '' @ u64_text (instr_count p) @ newline
     @ ''Total cycles:    '' @ u64_text (cycle_count p) @ newline
     @ ''IPC:             '' @ fmt_f 4 (profiler_ipc p) @ newline
     @ ''DMA bytes:       '' @ u64_text (dma_bytes p) @ newline
     @ ''DMA cycles:      '' @ u64_text (dma_cycle_count p) @ newline
     @ ''DMA throughput:  '' @ fmt_f 2 (dma_throughput p) @ '' bytes/cycle'' @ newline
     @ newline @ ''Opcode histogram:'' @ newline"

definition hist_text :: "nat \<Rightarrow> u64 \<Rightarrow> string" where
  "hist_text i n = ''  ['' @ pad_left 2 (CHR '' '') (fmt_u i) @ ''] ''
     @ pad_right 12 (CHR '' '') (case report_names ! i of Some s \<Rightarrow> s | None \<Rightarrow> ''???'') @ '' '' @ u64_text n @ newline"

definition hist_lines :: "profiler \<Rightarrow> string list" where
  "hist_lines p = map (\<lambda>i. snprintf 256 (hist_text i (opcode_hist p ! i)))
     (filter (\<lambda>i. opcode_hist p ! i > 0) [0..<NUM_OPCODES])"

definition profiler_report :: "profiler \<Rightarrow> string" where
  "profiler_report p = snprintf 256 (profiler_header p) @ concat (hist_lines p)"

section \<open>Lemmas\<close>

lemmas ratio_defs = profiler_ipc_def dma_throughput_def cache_hit_rate_def row_hit_rate_def stall_rate_def pmc_ipc_def
  cache_miss_rate_def bc_hit_rate_def tlb_hit_rate_def fabric_utilization_def

lemma length_coherence_name: "length (coherence_name c) \<le> 5"
  by (simp add: coherence_name_def)

lemma length_newline [simp]: "length newline = 1"
  by (simp add: newline_def)

lemma no_wrap_sum: "unat a + unat b < 2 ^ 64 \<Longrightarrow> unat (a + b) = unat a + unat (b :: u64)"
  by (simp add: unat_plus_if_size word_size)

lemma rate_unit:
  assumes "unat a + unat b < 2 ^ 53"
  shows "dreal (dbl_ratio a (a + b)) \<le> 1"
proof (cases "a + b = 0")
  case False
  have sum: "unat (a + b) = unat a + unat b" using assms by (intro no_wrap_sum) simp
  have "dreal (dbl_of_u64 a) \<le> real 1 * dreal (dbl_of_u64 (a + b))"
    using dbl_of_u64_exact [of a] dbl_of_u64_exact [of "a + b"] assms unfolding sum of_nat_add by linarith
  moreover have "0 < dreal (dbl_of_u64 (a + b))" using dbl_of_u64_pos [OF False] by simp
  ultimately show ?thesis using dbl_div_le [of "dbl_of_u64 (a + b)" "dbl_of_u64 a" 1] False by (simp add: dbl_ratio_def)
qed (simp add: dbl_ratio_def)

section \<open>Properties\<close>

text \<open>
  The instructions per cycle that the profiler reports are accurate: with counters below
  \<open>2 ^ 53\<close>, the \<open>double\<close> that is computed differs from the quotient by a relative error of at
  most \<open>2 ^ -53\<close>, and the four decimals that are printed by at most half a unit of the last
  one more.
\<close>

theorem ipc_accurate:
  assumes "unat (instr_count p) < 2 ^ 53" and "unat (cycle_count p) < 2 ^ 53" and "cycle_count p \<noteq> 0"
  defines "r \<equiv> real (unat (instr_count p)) / real (unat (cycle_count p))"
  shows "\<bar>dreal (profiler_ipc p) - r\<bar> \<le> r / 2 ^ 53
    \<and> \<bar>real (decimal 4 (profiler_ipc p)) / 10 ^ 4 - r\<bar> \<le> 1 / 20000 + r / 2 ^ 53"
proof -
  have "\<bar>dreal (profiler_ipc p) - r\<bar> \<le> r / 2 ^ 53" unfolding profiler_ipc_def r_def by (rule dbl_ratio_error [OF assms(1-3)])
  moreover have "\<bar>real (decimal 4 (profiler_ipc p)) / 10 ^ 4 - dreal (profiler_ipc p)\<bar> \<le> 1 / 20000"
    using decimal_error [of 4 "profiler_ipc p"] by simp
  ultimately show ?thesis by linarith
qed

text \<open>
  No buffer of a statistics report is too small: for all values of the counters, the reports of
  the three caches, the memory controller, the pipeline and the performance counters are the
  complete text, and so is every line of the opcode histogram.
\<close>

theorem stats_reports_complete:
  "hierarchy_report h = cache_text ''L1'' (l1 h) @ '' | '' @ cache_text ''L2'' (l2 h) @ '' | '' @ cache_text ''L3'' (l3 h)
     @ '' | '' @ mc_text (mc h)
   \<and> pipeline_report tot p = pipeline_text tot p \<and> pmc_report a b c = pmc_text a b c
   \<and> hist_lines q = map (\<lambda>i. hist_text i (opcode_hist q ! i)) (filter (\<lambda>i. opcode_hist q ! i > 0) [0..<NUM_OPCODES])"
proof (intro conjI)
  note u32 = length_u32_text and u64 = length_u64_text and pc = length_percent_text [of 1]
  have "cache_report name c = cache_text name c" if "length name = 2" for name c
    unfolding cache_report_def
    using that u64 [of "size_bytes (c_cfg c) div 1024"] u64 [of "associativity (c_cfg c)"] u64 [of "hits (c_stats c)"]
      u64 [of "misses (c_stats c)"] pc [of "hits (c_stats c)" "hits (c_stats c) + misses (c_stats c)"]
      length_coherence_name [of "coherence (c_cfg c)"]
    by (intro snprintf_fits) (simp only: cache_text_def cache_hit_rate_def length_append, simp)
  moreover have "mc_report m = mc_text m" for m
    unfolding mc_report_def
    using u32 [of "banks (mc_cfg m)"] u32 [of "tCAS (mc_cfg m)"] pc [of "row_hits m" "mc_total_accesses m"]
    by (intro snprintf_fits) (simp only: mc_text_def row_hit_rate_def length_append, simp)
  ultimately show "hierarchy_report h = cache_text ''L1'' (l1 h) @ '' | '' @ cache_text ''L2'' (l2 h) @ '' | ''
      @ cache_text ''L3'' (l3 h) @ '' | '' @ mc_text (mc h)"
    by (simp add: hierarchy_report_def)
  show "pipeline_report tot p = pipeline_text tot p" unfolding pipeline_report_def
    using u64 [of "stalls p"] u64 [of "mispredicts p"] pc [of "stalls p" tot]
    by (intro snprintf_fits) (simp only: pipeline_text_def stall_rate_def length_append, simp)
  show "pmc_report a b c = pmc_text a b c" unfolding pmc_report_def
    using length_ratio_text [of 3 "pmc_get EvInstructions c" "pmc_get EvCycles c"] u64 [of "pmc_get EvCycles c"]
      u64 [of "pmc_get EvInstructions c"] u64 [of "pmc_get EvBranchMispredicts c"] pc [of b "a + b"]
      u64 [of "pmc_get EvTLBMisses c"] u64 [of "pmc_get EvDMABandwidth c"] u64 [of "pmc_get EvWarpStalls c"]
      u64 [of "pmc_get EvSystolicTiles c"]
    by (intro snprintf_fits) (simp only: pmc_text_def pmc_ipc_def cache_miss_rate_def length_append, simp)
  show "hist_lines q = map (\<lambda>i. hist_text i (opcode_hist q ! i)) (filter (\<lambda>i. opcode_hist q ! i > 0) [0..<NUM_OPCODES])"
    unfolding hist_lines_def
  proof (rule map_cong [OF refl])
    fix i assume "i \<in> set (filter (\<lambda>i. opcode_hist q ! i > 0) [0..<NUM_OPCODES])"
    then have i: "i < 64" by (simp add: NUM_OPCODES_def)
    have "list_all (\<lambda>n. length (case n of Some s \<Rightarrow> s | None \<Rightarrow> ''???'') \<le> 12) report_names" "length report_names = 64"
      by code_simp+
    then have "length (case report_names ! i of Some s \<Rightarrow> s | None \<Rightarrow> ''???'') \<le> 12" using i by (simp add: list_all_length)
    moreover have "length (fmt_u i) \<le> 2" using length_fmt_u [of i 1] i by simp
    ultimately show "snprintf 256 (hist_text i (opcode_hist q ! i)) = hist_text i (opcode_hist q ! i)"
      using u64 [of "opcode_hist q ! i"] by (intro snprintf_fits) (simp only: hist_text_def pad_left_def pad_right_def length_append, simp)
  qed
qed

theorem ipc_accurate_witness:
  "\<bar>dreal (profiler_ipc (profiler_init\<lparr>instr_count := 2, cycle_count := 3\<rparr>)) - 2 / 3\<bar> \<le> 2 / 3 / 2 ^ 53"
  using ipc_accurate [of "profiler_init\<lparr>instr_count := 2, cycle_count := 3\<rparr>"] by simp

text \<open>
  A rate is a rate: when fewer than \<open>2 ^ 53\<close> look-ups were made, the hit rate of the block cache
  that \<open>aism_block_cache_hit_rate\<close> returns and the hit rate of the TLB lie between 0 and 1, and
  the percentages printed from them are at most \<open>100.0\<close>.
\<close>

theorem rates_unit:
  assumes "unat (bc_hits (e_block_cache s)) + unat (bc_misses (e_block_cache s)) < 2 ^ 53"
    and "unat (tlb_hits (e_mmu s)) + unat (tlb_misses (e_mmu s)) < 2 ^ 53"
  shows "\<exists>r. aism_block_cache_hit_rate s = (Ok r, s) \<and> dreal r \<le> 1 \<and> decimal 1 (percent r) \<le> 1000
    \<and> dreal (tlb_hit_rate (e_mmu s)) \<le> 1 \<and> decimal 1 (percent (tlb_hit_rate (e_mmu s))) \<le> 1000"
proof -
  have "decimal 1 (percent r) \<le> 100 * 10 ^ 1" if "dreal r \<le> 1" for r
    using percent_le [OF that] by (intro decimal_le) simp
  with rate_unit [OF assms(1)] rate_unit [OF assms(2)] show ?thesis
    by (simp add: aism_block_cache_hit_rate_def ratio_defs)
qed

theorem rates_unit_witness:
  "\<exists>r. aism_block_cache_hit_rate demo_emu = (Ok r, demo_emu) \<and> dreal r \<le> 1"
  using rates_unit [of demo_emu]
  by (auto simp: demo_emu_def emu_new_def block_cache_init_def mmu_init_def)

text \<open>
  The names of the histogram are the mnemonics: for every instruction that has a handler, the
  entry of the table is the word with which its disassembly starts.
\<close>

theorem report_names_mnemonics:
  assumes "dispatch h (instr_opcode i) = Some f"
  shows "\<exists>name rest. report_names ! unat (opcode_code (instr_opcode i)) = Some name \<and> name \<noteq> []
    \<and> disasm_text i = name @ rest"
  using assms by (cases "instr_opcode i") (simp_all add: report_names_def disasm_text_def)

theorem report_names_mnemonics_witness:
  "\<exists>name rest. report_names ! 5 = Some name \<and> name \<noteq> [] \<and> disasm_text \<lparr>raw = enc_add 3 1 2\<rparr> = name @ rest"
proof -
  have op: "instr_opcode \<lparr>raw = enc_add 3 1 2\<rparr> = ADD" by code_simp
  show ?thesis using report_names_mnemonics [of demo_host "\<lparr>raw = enc_add 3 1 2\<rparr>"] by (simp add: op)
qed

lemma length_small_ratio:
  assumes "unat a < 10 ^ Suc j" and "unat b < 2 ^ 53" and "0 < p" and "j \<le> 12"
  shows "length (fmt_f p (dbl_ratio a b)) \<le> Suc j + Suc p"
proof (rule length_fmt_f [OF _ assms(1,3)])
  have "(10 :: nat) ^ Suc j \<le> 10 ^ 13" using assms(4) by (intro power_increasing) simp_all
  then have a: "unat a < 10 ^ 13" using assms(1) by simp
  show "dreal (dbl_ratio a b) \<le> real (unat a)"
  proof (cases "b = 0")
    case False
    then have "0 < unat b" by (simp add: unat_gt_0)
    then have b: "1 \<le> real (unat b)" by linarith
    have e: "dreal (dbl_of_u64 b) = real (unat b)" "dreal (dbl_of_u64 a) = real (unat a)"
      using dbl_of_u64_exact assms(2) a by simp_all
    have "real (unat a) * 1 \<le> real (unat a) * real (unat b)" by (rule mult_left_mono [OF b of_nat_0_le_iff])
    then have "dreal (dbl_of_u64 a) \<le> real (unat a) * dreal (dbl_of_u64 b)" unfolding e by linarith
    moreover have "0 < dreal (dbl_of_u64 b)" unfolding e using b by linarith
    ultimately show ?thesis using dbl_div_le [of "dbl_of_u64 b" "dbl_of_u64 a" "unat a"] a False by (simp add: dbl_ratio_def)
  qed (use of_nat_0_le_iff [of "unat a", where 'a = real] in \<open>simp add: dbl_ratio_def\<close>)
qed

text \<open>
  The profiler's report is complete as long as no counter has more than thirteen digits: the
  header then fits into its 256-byte buffer.
\<close>

theorem profiler_report_complete:
  assumes "unat (instr_count p) < 10 ^ 13" and "unat (cycle_count p) < 10 ^ 13" and "unat (dma_bytes p) < 10 ^ 13"
    and "unat (dma_cycle_count p) < 10 ^ 13"
  shows "profiler_report p = profiler_header p @ concat (hist_lines p)"
proof -
  have "length (u64_text n) \<le> 13" if "unat n < 10 ^ 13" for n using length_fmt_u [of "unat n" 12] that by simp
  from this [OF assms(1)] this [OF assms(2)] this [OF assms(3)] this [OF assms(4)]
  have "length (profiler_header p) < 256"
    using length_small_ratio [of "instr_count p" 12 "cycle_count p" 4] length_small_ratio [of "dma_bytes p" 12 "dma_cycle_count p" 2] assms
    by (simp only: profiler_header_def profiler_ipc_def dma_throughput_def length_append, simp)
  then show ?thesis by (simp add: profiler_report_def snprintf_fits)
qed

theorem profiler_report_complete_witness:
  "profiler_report profiler_init = profiler_header profiler_init @ concat (hist_lines profiler_init)"
  using profiler_report_complete [of profiler_init] by (simp add: profiler_init_def)

end
