(* ===== verification/Console.thy ===== *)
theory Console
  imports Stats
begin

text \<open>
  What the debugger and the verbose mode print (\<^verbatim>\<open>src/emulator.cpp\<close>): the register dump, the
  memory dump, the disassembly of a range and the log line of a step; and the feature string of
  the host (\<^verbatim>\<open>include/aiasm/host.h\<close>), whose predefined compiler macros are arguments; and the
  version constants (\<^verbatim>\<open>include/aiasm/version.h\<close>). Each
  \<open>snprintf\<close> keeps the size of its buffer. \<open>dump_memory\<close> reads through an unchecked pointer, and
  its loop variable may wrap, so the loop has fuel; one turn per line is enough.
\<close>

section \<open>Register dump\<close>

definition bool_d :: "bool \<Rightarrow> string" where
  "bool_d b = (if b then ''1'' else ''0'')"

definition gpr_cell :: "nat \<Rightarrow> u32 \<Rightarrow> string" where
  "gpr_cell i w = snprintf 48 (''r'' @ fmt_u i @ ''=0x'' @ fmt_08X w @ '' '')"

definition vr_cell :: "f32 \<Rightarrow> string" where
  "vr_cell w = snprintf 16 (fmt_61f w @ '' '')"

definition vr_line :: "nat \<Rightarrow> f32 list \<Rightarrow> string" where
  "vr_line i v = snprintf 192 (''v'' @ fmt_u i @ '': '') @ concat (map vr_cell v) @ newline"

definition flags_text :: "status_flags \<Rightarrow> string" where
  "flags_text f = ''Z='' @ bool_d (sf_zero f) @ '' N='' @ bool_d (sf_negative f) @ '' V='' @ bool_d (sf_overflow f)"

definition dump_registers :: "register_file \<Rightarrow> string" where
  "dump_registers r =
     concat (map (\<lambda>i. gpr_cell i (gpr r ! i)) [0..<NUM_GPR]) @ newline
     @ concat (map (\<lambda>i. vr_line i (map (\<lambda>j. vr r ! i ! j) [0..<VEC_WIDTH])) [0..<NUM_VR])
     @ snprintf 128 (''PC=0x'' @ fmt_08X (pc r) @ ''  '' @ flags_text (status r) @ newline)"

section \<open>Memory dump\<close>

definition fmt_02X :: "u8 \<Rightarrow> string" where
  "fmt_02X b = pad_left 2 (CHR ''0'') (show_base 16 (unat b))"

fun dump_row :: "sram \<Rightarrow> u32 \<Rightarrow> size_t \<Rightarrow> size_t \<Rightarrow> nat list \<Rightarrow> string \<Rightarrow> string res" where
  "dump_row m addr cnt i [] line = Ok line"
| "dump_row m addr cnt i (j # js) line =
     (if i + of_nat j < cnt
      then bind_res (arr_get (sram_data m) (unat (addr + ucast (i + of_nat j)))) (\<lambda>b.
        dump_row m addr cnt i js (line @ snprintf (160 - length line) (fmt_02X b @ '' '')))
      else Ok line)"

fun dump_loop :: "nat \<Rightarrow> sram \<Rightarrow> u32 \<Rightarrow> size_t \<Rightarrow> size_t \<Rightarrow> string res option" where
  "dump_loop n m addr cnt i =
     (if i < cnt
      then (case n of 0 \<Rightarrow> None
        | Suc k \<Rightarrow> (case dump_row m addr cnt i [0..<16] (snprintf 160 (fmt_08X (addr + ucast i) @ '': '')) of
             Ok line \<Rightarrow> map_option (map_res (\<lambda>rest. line @ newline @ rest)) (dump_loop k m addr cnt (i + 16))
           | Err e \<Rightarrow> Some (Err e)
           | Undef \<Rightarrow> Some Undef))
      else Some (Ok []))"

declare dump_loop.simps [simp del]

definition dump_memory :: "nat \<Rightarrow> sram \<Rightarrow> u32 \<Rightarrow> size_t \<Rightarrow> string res option" where
  "dump_memory fuel m addr cnt = dump_loop fuel m addr cnt 0"

section \<open>Disassembly of a range\<close>

definition range_text :: "u32 \<Rightarrow> u32 \<Rightarrow> string" where
  "range_text addr w = fmt_08X addr @ '': '' @ fmt_08X w @ ''  '' @ disassemble \<lparr>raw = w\<rparr> @ newline"

fun range_loop :: "sram \<Rightarrow> u32 \<Rightarrow> size_t \<Rightarrow> nat \<Rightarrow> string res" where
  "range_loop m start i 0 = Ok []"
| "range_loop m start i (Suc n) = (let addr = start + ucast (i * 4) in
     bind_res (sram_read32 m addr) (\<lambda>w.
     map_res (\<lambda>rest. snprintf 128 (range_text addr w) @ rest) (range_loop m start (i + 1) n)))"

definition disassemble_range :: "sram \<Rightarrow> u32 \<Rightarrow> size_t \<Rightarrow> string res" where
  "disassemble_range m start cnt = range_loop m start 0 (unat cnt)"

section \<open>Verbose mode\<close>

text \<open>The last part of the text depends on the registers after the step and on the snapshot.\<close>

fun changed_gprs :: "register_file \<Rightarrow> u32 list \<Rightarrow> nat list \<Rightarrow> string res" where
  "changed_gprs r old [] = Ok []"
| "changed_gprs r old (i # is) =
     bind_res (read_gpr r (of_nat i)) (\<lambda>after.
     bind_res (arr_get old i) (\<lambda>b.
     map_res (\<lambda>rest. (if after \<noteq> b then ''  r'' @ fmt_u i @ ''=0x'' @ fmt_08X after else []) @ rest)
       (changed_gprs r old is)))"

definition log_head :: "u32 \<Rightarrow> instruction \<Rightarrow> u32 \<Rightarrow> string" where
  "log_head p i cycles = ''[0x'' @ fmt_08X p @ ''] 0x'' @ fmt_08X (raw i) @ ''  ''
     @ pad_right 32 (CHR '' '') (disassemble i) @ '' '' @ u32_text cycles @ '' cy''"

definition log_tail :: "u32 \<Rightarrow> instruction \<Rightarrow> register_file \<Rightarrow> string" where
  "log_tail p i r = (if pc r \<noteq> p + 4 then ''  ->PC=0x'' @ fmt_08X (pc r) else [])
     @ (if instr_opcode i = DMA_LOAD \<or> instr_opcode i = DMA_STORE then ''  DMA='' @ fmt_u (unat (instr_func i)) @ ''B'' else [])
     @ ''  ['' @ flags_text (status r) @ '']'' @ newline"

definition log_step :: "u32 \<Rightarrow> instruction \<Rightarrow> u32 \<Rightarrow> string emu_op" where
  "log_step p i cycles = lift_res (\<lambda>s. map_res (\<lambda>ch. snprintf 256 (log_head p i cycles) @ ch @ log_tail p i (e_regs s))
     (changed_gprs (e_regs s) (e_last_gpr s) [0..<NUM_GPR]))"

text \<open>All of \<open>step\<close>: what it does to the state, then the text it prints.\<close>

definition verbose_step :: "host_env \<Rightarrow> string emu_op" where
  "verbose_step h = bind (step_body h) (\<lambda>logged. case logged of
     None \<Rightarrow> ret []
   | Some (pc_before, i, cycles) \<Rightarrow>
       bind (gets e_verbose) (\<lambda>v. if v then log_step pc_before i cycles else ret []))"

section \<open>Host features\<close>

datatype host_isa_kind = X86_64 | AArch64 | UnknownHost

record host_macros =
  on_x86 :: bool
  on_arm :: bool
  macro_avx2 :: bool
  macro_avx512f :: bool
  macro_neon :: bool
  macro_aarch64 :: bool
  macro_sve :: bool

definition host_isa :: "host_macros \<Rightarrow> host_isa_kind" where
  "host_isa m = (if on_x86 m then X86_64 else if on_arm m then AArch64 else UnknownHost)"

fun host_isa_name :: "host_isa_kind \<Rightarrow> string" where
  "host_isa_name X86_64 = ''x86_64''"
| "host_isa_name AArch64 = ''aarch64''"
| "host_isa_name UnknownHost = ''unknown''"

definition has_avx2 :: "host_macros \<Rightarrow> bool" where "has_avx2 m = macro_avx2 m"

definition has_avx512f :: "host_macros \<Rightarrow> bool" where "has_avx512f m = macro_avx512f m"

definition has_neon :: "host_macros \<Rightarrow> bool" where
  "has_neon m \<longleftrightarrow> on_arm m \<and> (macro_neon m \<or> macro_aarch64 m)"

definition has_sve :: "host_macros \<Rightarrow> bool" where "has_sve m = macro_sve m"

fun add_features :: "(string \<times> bool) list \<Rightarrow> string \<Rightarrow> bool \<Rightarrow> string \<times> bool" where
  "add_features [] s first = (s, first)"
| "add_features ((n, v) # fs) s first =
     (if v then add_features fs (s @ (if first then [] else '','') @ n) False else add_features fs s first)"

definition host_feature_string :: "host_macros \<Rightarrow> string" where
  "host_feature_string m =
     (case add_features [(''AVX2'', has_avx2 m), (''AVX512F'', has_avx512f m), (''NEON'', has_neon m), (''SVE'', has_sve m)]
         (host_isa_name (host_isa m) @ '' ['') True of
        (s, first) \<Rightarrow> (if first then s @ ''scalar'' else s) @ '']'')"

definition aism_host_info :: "host_macros \<Rightarrow> string" where
  "aism_host_info m = host_feature_string m"

section \<open>Version\<close>

definition NOVIUM_VERSION_MAJOR :: nat where "NOVIUM_VERSION_MAJOR = 1"
definition NOVIUM_VERSION_MINOR :: nat where "NOVIUM_VERSION_MINOR = 0"
definition NOVIUM_VERSION_PATCH :: nat where "NOVIUM_VERSION_PATCH = 0"
definition NOVIUM_VERSION_STRING :: string where "NOVIUM_VERSION_STRING = ''v1.0.0''"
definition NOVIUM_VERSION_NAME :: string where "NOVIUM_VERSION_NAME = ''v1.0''"

text \<open>The two strings are made of the three numbers.\<close>

lemma version_consistent:
  "NOVIUM_VERSION_NAME = ''v'' @ fmt_u NOVIUM_VERSION_MAJOR @ ''.'' @ fmt_u NOVIUM_VERSION_MINOR"
  "NOVIUM_VERSION_STRING = NOVIUM_VERSION_NAME @ ''.'' @ fmt_u NOVIUM_VERSION_PATCH"
  by code_simp+

section \<open>Line buffers\<close>

lemma range_text_fits: "snprintf 128 (range_text addr w) = range_text addr w"
  using disasm_text_short [of "\<lparr>raw = w\<rparr>"] by (intro snprintf_fits) (simp add: range_text_def disassemble_def snprintf_def)

lemma log_head_fits: "snprintf 256 (log_head p i c) = log_head p i c"
  using disasm_text_short [of i] length_u32_text [of c]
  by (intro snprintf_fits) (simp add: log_head_def disassemble_def snprintf_def pad_right_def)

lemma length_fmt_02X [simp]: "length (fmt_02X b) = 2"
proof -
  have "unat b < 16 ^ Suc 1" using unat_u8_less [of b] by (simp del: unat_u8_less)
  then have "length (show_base 16 (unat b)) \<le> 2" using length_show_base [of 16 "unat b" 1] by simp
  then show ?thesis by (simp add: fmt_02X_def pad_left_def)
qed

section \<open>Listing\<close>

definition listing :: "u32 \<Rightarrow> u32 list \<Rightarrow> string" where
  "listing start ws = concat (map (\<lambda>k. range_text (start + of_nat (4 * k)) (ws ! k)) [0..<length ws])"

lemma range_loop_listing:
  assumes "\<And>k. k < n \<Longrightarrow> sram_read32 m (start + of_nat (4 * (i + k))) = Ok (ws ! (i + k))" and "i + n < 2 ^ 30"
  shows "range_loop m start (of_nat i) n
    = Ok (concat (map (\<lambda>k. range_text (start + of_nat (4 * k)) (ws ! k)) [i..<i + n]))"
  using assms
proof (induction n arbitrary: i)
  case (Suc n)
  have "of_nat i * 4 = (of_nat (4 * i) :: size_t)" by simp
  then have a: "start + ucast (of_nat i * 4 :: size_t) = start + of_nat (4 * i)"
    using Suc.prems(2) by (simp only: unsigned_of_nat) (simp add: take_bit_nat_eq_self)
  have "range_loop m start (of_nat (Suc i)) n
      = Ok (concat (map (\<lambda>k. range_text (start + of_nat (4 * k)) (ws ! k)) [Suc i..<Suc i + n]))"
    using Suc.prems(1) [of "Suc k" for k] Suc.prems(2) by (intro Suc.IH) simp_all
  moreover have "sram_read32 m (start + of_nat (4 * i)) = Ok (ws ! i)" using Suc.prems(1) [of 0] by simp
  moreover have "[i..<i + Suc n] = i # [Suc i..<Suc i + n]" by (subst upt_conv_Cons) simp_all
  ultimately show ?case using a by (simp add: Let_def range_text_fits add.commute [of 1] del: upt_Suc)
qed simp

lemma listing_loaded:
  assumes "emu_inv m k s" and "length ws < 2 ^ 30" and "load_program ws (of_nat (length ws)) s = (Ok (), s')"
  shows "disassemble_range (e_scratchpad s') 0 (of_nat (length ws)) = Ok (listing 0 ws)"
proof -
  have "\<forall>i < length ws. sram_read32 (e_scratchpad s') (of_nat (4 * i)) = Ok (ws ! i)"
    using load_program_outcome [OF assms(1,2)] assms(3) by simp
  then have "range_loop (e_scratchpad s') 0 (of_nat 0) (length ws) = Ok (listing 0 ws)"
    unfolding listing_def using range_loop_listing [of "length ws" "e_scratchpad s'" 0 0 ws] assms(2) by simp
  moreover have "unat (of_nat (length ws) :: size_t) = length ws"
    using assms(2) by (simp add: unat_of_nat take_bit_nat_eq_self)
  ultimately show ?thesis by (simp add: disassemble_range_def)
qed

text \<open>
  The debugger lists what was loaded: after a program has been loaded, the disassembly of its
  range is one complete line per word (address, word and disassembly), none of them cut at the
  128-byte buffer.
\<close>

theorem disassemble_range_lists_program:
  assumes "emu_inv m k s" and "length ws < 2 ^ 30" and "load_program ws (of_nat (length ws)) s = (Ok (), s')"
  shows "disassemble_range (e_scratchpad s') 0 (of_nat (length ws)) = Ok (listing 0 ws)"
  using listing_loaded [OF assms] .

theorem disassemble_range_lists_program_witness:
  "\<exists>s'. load_program demo_program 4 demo_emu = (Ok (), s')
     \<and> disassemble_range (e_scratchpad s') 0 4 = Ok (listing 0 demo_program)"
proof -
  have "fst (load_program demo_program 4 demo_emu) = Ok ()" by code_simp
  then obtain s' where s': "load_program demo_program 4 demo_emu = (Ok (), s')" by (metis prod.collapse)
  have len: "length demo_program = 4" by (simp add: demo_program_def)
  from disassemble_range_lists_program [OF demo_inv, of demo_program] s' len show ?thesis by auto
qed

section \<open>Dump of memory\<close>

definition dump_text :: "u8 list \<Rightarrow> nat \<Rightarrow> nat \<Rightarrow> string" where
  "dump_text bs a n = fmt_08X (of_nat a) @ '': '' @ concat (map (\<lambda>b. fmt_02X b @ '' '') (slice a (min 16 n) bs)) @ newline"

lemma slice_Suc: "a < length xs \<Longrightarrow> slice a (Suc n) xs = xs ! a # slice (Suc a) n xs"
  by (simp add: slice_def flip: Cons_nth_drop_Suc)

lemma dump_row_text:
  assumes "unat addr + unat cnt \<le> length (sram_data m)" and "unat i + 16 < 2 ^ 64" and "unat addr + unat cnt \<le> 2 ^ 32"
    and "j \<le> 16" and "length line = 10 + 3 * j" and "unat i < unat cnt"
  shows "dump_row m addr cnt i [j..<16] line
    = Ok (line @ concat (map (\<lambda>b. fmt_02X b @ '' '') (slice (unat addr + unat i + j) (min 16 (unat cnt - unat i) - j) (sram_data m))))"
  using assms(4,5)
proof (induction "16 - j" arbitrary: j line)
  case 0
  then show ?case by (simp add: slice_def)
next
  case (Suc d)
  then have j: "j < 16" "[j..<16] = j # [Suc j..<16]" by (simp_all add: upt_conv_Cons)
  have i: "unat (i + of_nat j) = unat i + j" using assms(2) j by (simp add: unat_word_ariths unat_of_nat take_bit_nat_eq_self)
  show ?case
  proof (cases "unat i + j < unat cnt")
    case False
    then have "\<not> i + of_nat j < cnt" by (simp add: word_less_nat_alt i)
    moreover have "min 16 (unat cnt - unat i) - j = 0" using False by simp
    ultimately show ?thesis using j(2) by (simp add: slice_def)
  next
    case True
    let ?a = "unat addr + unat i + j" and ?d = "sram_data m"
    have lt: "i + of_nat j < cnt" using True by (simp add: word_less_nat_alt i)
    have u: "unat (ucast (i + of_nat j) :: u32) = unat i + j"
      using True assms(3) by (simp add: unsigned_ucast_eq i take_bit_nat_eq_self)
    have a: "unat (addr + ucast (i + of_nat j)) = ?a"
      using True assms(3) by (simp add: unat_word_ariths u)
    have get: "arr_get ?d ?a = Ok (?d ! ?a)" using True assms(1) by (simp add: arr_get_def)
    have "snprintf (160 - length line) (fmt_02X (?d ! ?a) @ '' '') = fmt_02X (?d ! ?a) @ '' ''"
      using Suc.prems(2) j(1) by (intro snprintf_fits) simp
    moreover have "dump_row m addr cnt i [Suc j..<16] (line @ fmt_02X (?d ! ?a) @ '' '')
        = Ok ((line @ fmt_02X (?d ! ?a) @ '' '') @ concat (map (\<lambda>b. fmt_02X b @ '' '')
            (slice (unat addr + unat i + Suc j) (min 16 (unat cnt - unat i) - Suc j) ?d)))"
      using Suc.hyps(2) Suc.prems(2) j(1) by (intro Suc.hyps(1)) simp_all
    moreover have "min 16 (unat cnt - unat i) - j = Suc (min 16 (unat cnt - unat i) - Suc j)" using True j(1) by simp
    then have "slice ?a (min 16 (unat cnt - unat i) - j) ?d
        = ?d ! ?a # slice (unat addr + unat i + Suc j) (min 16 (unat cnt - unat i) - Suc j) ?d"
      using slice_Suc [of ?a ?d] True assms(1) by simp
    ultimately show ?thesis using j(2) lt get a by simp
  qed
qed

lemma dump_loop_text:
  assumes "unat addr + unat cnt \<le> length (sram_data m)" and "unat addr + unat cnt \<le> 2 ^ 32" and "unat i + 16 * n \<ge> unat cnt"
    and "unat i \<le> unat cnt + 15"
  shows "dump_loop n m addr cnt i = Some (Ok (concat (map (\<lambda>k. dump_text (sram_data m) (unat addr + unat i + 16 * k) (unat cnt - unat i - 16 * k))
      [0..<(unat cnt - unat i + 15) div 16])))"
  using assms(3,4)
proof (induction n arbitrary: i)
  case 0
  then have "\<not> i < cnt" by (simp add: word_less_nat_alt)
  then show ?case using 0 by (subst dump_loop.simps) simp
next
  case (Suc n)
  show ?case
  proof (cases "i < cnt")
    case False
    then show ?thesis using Suc.prems by (subst dump_loop.simps) (simp add: word_less_nat_alt)
  next
    case True
    then have lt: "unat i < unat cnt" by (simp add: word_less_nat_alt)
    have w: "unat i + 16 < 2 ^ 64" using lt assms(2) by simp
    have i16: "unat (i + 16) = unat i + 16" using w by (simp add: unat_word_ariths)
    have "unat (ucast i :: u32) = unat i" using lt assms(2) by (simp add: unsigned_ucast_eq take_bit_nat_eq_self)
    then have "unat (addr + ucast i) = unat addr + unat i" using lt assms(2) by (simp add: unat_word_ariths)
    then have a: "of_nat (unat addr + unat i) = addr + ucast i"
      by (metis of_nat_unat ucast_id)
    have head: "snprintf 160 (fmt_08X (addr + ucast i) @ '': '') = fmt_08X (addr + ucast i) @ '': ''"
      by (intro snprintf_fits) simp
    have "dump_row m addr cnt i [0..<16] (fmt_08X (addr + ucast i) @ '': '')
        = Ok ((fmt_08X (addr + ucast i) @ '': '') @ concat (map (\<lambda>b. fmt_02X b @ '' '')
            (slice (unat addr + unat i) (min 16 (unat cnt - unat i)) (sram_data m))))"
      using dump_row_text [OF assms(1) w assms(2), of 0 "fmt_08X (addr + ucast i) @ '': ''"] lt by simp
    moreover note Suc.IH [of "i + 16", unfolded i16]
    moreover have "[0..<(unat cnt - unat i + 15) div 16] = 0 # map Suc [0..<(unat cnt - (unat i + 16) + 15) div 16]"
    proof -
      have r: "(r + 15) div 16 = Suc ((r - 16 + 15) div 16)" if "0 < r" for r :: nat
        using that div_add_self1 [of 16 "r - 1"] div_add_self1 [of 16 "r - 16 + 15"] by (cases "r \<le> 16") simp_all
      have "(unat cnt - unat i + 15) div 16 = Suc ((unat cnt - (unat i + 16) + 15) div 16)"
        using r [of "unat cnt - unat i"] lt by simp
      then show ?thesis by (simp only: map_Suc_upt) (simp only: upt_conv_Cons [OF zero_less_Suc] One_nat_def)
    qed
    ultimately show ?thesis using True Suc.prems head lt
      by (subst dump_loop.simps) (simp add: dump_text_def a a [unfolded add.commute [of "unat addr"]] o_def add_ac del: of_nat_add)
  qed
qed

text \<open>
  C25. The memory dump shows the memory: for a range inside the scratchpad, one turn per line is
  enough, and the text is one line for every sixteen bytes, its address and the bytes in
  hexadecimal, none of them cut at the 160-byte buffer.
\<close>

theorem dump_memory_text:
  assumes "unat addr + unat cnt \<le> length (sram_data m)" and "unat addr + unat cnt \<le> 2 ^ 32" and "unat cnt \<le> 16 * fuel"
  shows "dump_memory fuel m addr cnt = Some (Ok (concat (map (\<lambda>k. dump_text (sram_data m) (unat addr + 16 * k) (unat cnt - 16 * k))
      [0..<(unat cnt + 15) div 16])))"
  using dump_loop_text [OF assms(1,2), of 0 fuel] assms(3) by (simp add: dump_memory_def)

lemma dump_row_unchecked:
  assumes "i + of_nat j < cnt" and "length (sram_data m) \<le> unat (addr + ucast (i + of_nat j))"
  shows "dump_row m addr cnt i (j # js) line = Undef"
  using assms by (simp add: arr_get_def)

text \<open>
  The memory dump does not check its range: where every other access throws, dumping a line that
  starts behind the end of the scratchpad reads outside the allocation.
\<close>

theorem dump_memory_unchecked:
  assumes "length (sram_data m) \<le> unat addr" and "0 < cnt"
  shows "dump_memory (Suc fuel) m addr cnt = Some Undef"
proof -
  have "dump_row m addr cnt 0 (0 # [1..<16]) line = Undef" for line
    using assms by (intro dump_row_unchecked) simp_all
  moreover have "[0..<16] = 0 # [1..<16]" by (simp add: upt_conv_Cons)
  ultimately show ?thesis using assms(2) by (simp add: dump_memory_def dump_loop.simps)
qed

theorem dump_memory_text_witness:
  "dump_memory 1 (e_scratchpad demo_emu) 0 16 = Some (Ok (dump_text (bytes_of_words demo_program) 0 16))"
proof -
  have "sram_data (e_scratchpad demo_emu) = bytes_of_words demo_program" by (simp add: demo_emu_def)
  moreover have "length (bytes_of_words demo_program) = 16" by (simp add: demo_program_def)
  ultimately show ?thesis using dump_memory_text [of 0 16 "e_scratchpad demo_emu" 1] by simp
qed

theorem dump_memory_unchecked_witness: "dump_memory 1 (e_scratchpad demo_emu) 16 1 = Some Undef"
proof -
  have "length (sram_data (e_scratchpad demo_emu)) = 16" by (simp add: demo_emu_def demo_program_def)
  then show ?thesis using dump_memory_unchecked [of "e_scratchpad demo_emu" 16 1 0] by simp
qed

section \<open>Dump of registers\<close>

definition small_float :: "f32 \<Rightarrow> bool" where
  "small_float w \<longleftrightarrow> float_finite w \<and> dreal (float_mag w) \<le> 99999999999"

definition register_text :: "register_file \<Rightarrow> string" where
  "register_text r =
     concat (map (\<lambda>i. ''r'' @ fmt_u i @ ''=0x'' @ fmt_08X (gpr r ! i) @ '' '') [0..<NUM_GPR]) @ newline
     @ concat (map (\<lambda>i. ''v'' @ fmt_u i @ '': '' @ concat (map (\<lambda>j. fmt_61f (vr r ! i ! j) @ '' '') [0..<VEC_WIDTH]) @ newline) [0..<NUM_VR])
     @ ''PC=0x'' @ fmt_08X (pc r) @ ''  '' @ flags_text (status r) @ newline"

lemma vr_cell_fits: "small_float w \<Longrightarrow> vr_cell w = fmt_61f w @ '' ''"
proof -
  assume w: "small_float w"
  then have "length (fmt_f 1 (float_mag w)) \<le> 13"
    using length_fmt_f [of "float_mag w" 99999999999 10 1] by (simp add: small_float_def)
  then show ?thesis unfolding vr_cell_def using w
    by (intro snprintf_fits) (simp add: fmt_61f_def pad_left_def float_text_def small_float_def, linarith)
qed

lemma gpr_cell_fits: "i < 16 \<Longrightarrow> gpr_cell i w = ''r'' @ fmt_u i @ ''=0x'' @ fmt_08X w @ '' ''"
  unfolding gpr_cell_def using length_fmt_u [of i 1] by (intro snprintf_fits) simp

lemma vr_line_fits:
  assumes "i < 8" and "\<And>w. w \<in> set v \<Longrightarrow> small_float w"
  shows "vr_line i v = ''v'' @ fmt_u i @ '': '' @ concat (map (\<lambda>w. fmt_61f w @ '' '') v) @ newline"
proof -
  have "snprintf 192 (''v'' @ fmt_u i @ '': '') = ''v'' @ fmt_u i @ '': ''"
    using length_fmt_u [of i 1] assms(1) by (intro snprintf_fits) simp
  moreover have "map vr_cell v = map (\<lambda>w. fmt_61f w @ '' '') v" using assms(2) vr_cell_fits by simp
  ultimately show ?thesis by (simp only: vr_line_def append_assoc)
qed

text \<open>
  The register dump is complete as long as the vector registers hold numbers below \<open>10 ^ 11\<close>:
  no buffer cuts its text.
\<close>

theorem dump_registers_complete:
  assumes "\<forall>i < NUM_VR. \<forall>j < VEC_WIDTH. small_float (vr r ! i ! j)"
  shows "dump_registers r = register_text r"
proof -
  have "map (\<lambda>i. gpr_cell i (gpr r ! i)) [0..<NUM_GPR]
      = map (\<lambda>i. ''r'' @ fmt_u i @ ''=0x'' @ fmt_08X (gpr r ! i) @ '' '') [0..<NUM_GPR]"
    by (rule map_cong [OF refl], rule gpr_cell_fits) (simp add: NUM_GPR_def)
  moreover have "map (\<lambda>i. vr_line i (map (\<lambda>j. vr r ! i ! j) [0..<VEC_WIDTH])) [0..<NUM_VR]
      = map (\<lambda>i. ''v'' @ fmt_u i @ '': '' @ concat (map (\<lambda>j. fmt_61f (vr r ! i ! j) @ '' '') [0..<VEC_WIDTH]) @ newline) [0..<NUM_VR]"
  proof (rule map_cong [OF refl])
    fix i assume "i \<in> set [0..<NUM_VR]"
    then have "i < 8" "i < NUM_VR" by (simp_all add: NUM_VR_def)
    with assms have "small_float w" if "w \<in> set (map (\<lambda>j. vr r ! i ! j) [0..<VEC_WIDTH])" for w using that by auto
    from vr_line_fits [of i "map (\<lambda>j. vr r ! i ! j) [0..<VEC_WIDTH]", OF \<open>i < 8\<close> this] show "vr_line i (map (\<lambda>j. vr r ! i ! j) [0..<VEC_WIDTH])
        = ''v'' @ fmt_u i @ '': '' @ concat (map (\<lambda>j. fmt_61f (vr r ! i ! j) @ '' '') [0..<VEC_WIDTH]) @ newline"
      by (simp add: o_def)
  qed
  moreover have "snprintf 128 (''PC=0x'' @ fmt_08X (pc r) @ ''  '' @ flags_text (status r) @ newline)
      = ''PC=0x'' @ fmt_08X (pc r) @ ''  '' @ flags_text (status r) @ newline"
    by (intro snprintf_fits) (simp add: flags_text_def bool_d_def)
  ultimately show ?thesis by (simp only: dump_registers_def register_text_def append_assoc)
qed

theorem dump_registers_complete_witness: "dump_registers regs_init = register_text regs_init"
proof (rule dump_registers_complete)
  have "small_float 0" by (simp add: small_float_def float_finite_def float_mag_def dreal_def)
  then show "\<forall>i < NUM_VR. \<forall>j < VEC_WIDTH. small_float (vr regs_init ! i ! j)" by (simp add: regs_init_def)
qed

text \<open>
  Larger numbers are cut: the cell of a vector element is written into sixteen bytes, so that
  the dump shows \<open>1e20\<close>, whose text is \<open>100000002004087734272.0\<close>, as \<open>100000002004087\<close>, without
  the separator that ends a cell.
\<close>

theorem dump_registers_cuts:
  "fmt_61f 0x60AD78EC = ''100000002004087734272.0'' \<and> vr_cell 0x60AD78EC = ''100000002004087''"
proof -
  have "fmt_61f 0x60AD78EC = ''100000002004087734272.0''"
    by (simp add: dbl_eval text_eval fmt_61f_def float_text_def float_mag_def float_finite_def digit_chars)
  then show ?thesis by (simp add: vr_cell_def snprintf_def)
qed

section \<open>Verbose mode\<close>

text \<open>
  The verbose flag and the snapshot for the log. No part of a step looks at them but the one
  that takes the snapshot, so that a machine whose log is hidden does the same steps.
\<close>

definition set_log :: "bool \<Rightarrow> u32 \<Rightarrow> u32 list \<Rightarrow> emu \<Rightarrow> emu" where
  "set_log v p g s = s\<lparr>e_verbose := v, e_last_pc := p, e_last_gpr := g\<rparr>"

interpretation log: unseen "set_log v p g" for v p g
  by unfold_locales (simp_all add: set_log_def)

definition hide_log :: "emu \<Rightarrow> emu" where
  "hide_log s = set_log False 0 (replicate NUM_GPR 0) s"

lemma set_log_own: "set_log (e_verbose s) (e_last_pc s) (e_last_gpr s) s = s"
  by (simp add: set_log_def)

lemma blind_keeps_log:
  assumes "\<And>v p g. blind (set_log v p g) f" and "f s = (r, s')"
  shows "e_verbose s' = e_verbose s \<and> e_last_gpr s' = e_last_gpr s"
proof -
  have "f s = (r, set_log (e_verbose s) (e_last_pc s) (e_last_gpr s) s')"
    using blindD [OF assms(1) [of "e_verbose s" "e_last_pc s" "e_last_gpr s"] assms(2)] by (simp add: set_log_own)
  with assms(2) have eq: "s' = set_log (e_verbose s) (e_last_pc s) (e_last_gpr s) s'" by simp
  show ?thesis using arg_cong [OF eq, of e_verbose] arg_cong [OF eq, of e_last_gpr] by (simp add: set_log_def)
qed

lemma blind_save_verbose: "blind hide_log save_verbose"
  by (rule blindI) (simp add: hide_log_def set_log_def save_verbose_def)

lemma blind_step_body: "blind hide_log (step_body h)"
  unfolding step_body_def
  by (intro blind_intros blind_save_verbose; (simp add: hide_log_def [abs_def])?; intro unseen_ops blind_gets; simp add: log.sel)

lemma blind_step: "blind hide_log (step h)"
  unfolding step_def by (intro blind_intros blind_step_body)

lemma hide_log_stopped: "stopped (hide_log s) = stopped s"
  by (simp add: stopped_def hide_log_def log.sel)

lemma hide_log_run_loop: "run_loop h n (hide_log s) = map_option (map_prod id hide_log) (run_loop h n s)"
proof (induction n arbitrary: s)
  case 0
  show ?case by (simp add: run_loop.simps hide_log_stopped)
next
  case (Suc n)
  obtain r s1 where st: "step h s = (r, s1)" by force
  from blindD [OF blind_step st] Suc st show ?case
    by (cases r) (simp_all add: run_loop.simps [of h "Suc n"] hide_log_stopped)
qed

lemma hide_log_flush: "flush_uart (map_prod id hide_log x) = map_prod id hide_log (flush_uart x)"
  by (cases x; cases "fst x") (auto simp: flush_uart_def hide_log_def log.sel log.upd)

lemma hide_log_run: "run h n (hide_log s) = map_option (map_prod id hide_log) (run h n s)"
  by (simp add: run_def hide_log_run_loop option.map_comp o_def hide_log_flush)

definition gprs_kept :: "u32 list \<Rightarrow> bool \<Rightarrow> emu \<Rightarrow> bool" where
  "gprs_kept g v s \<longleftrightarrow> gpr (e_regs s) = g \<and> e_verbose s = v"

lemma interrupts_keep_gprs: "preserves (gprs_kept g v) check_interrupts"
  unfolding check_interrupts_def emu_take_trap_def set_pc_def
  by (auto intro!: pres preserves_modify preserves_update_res simp: gprs_kept_def split: option.split prod.splits)

text \<open>The registers that a log line shows: those whose value is not the old one.\<close>

definition changes :: "u32 list \<Rightarrow> u32 list \<Rightarrow> string" where
  "changes old new = concat (map (\<lambda>i. if new ! i \<noteq> old ! i then ''  r'' @ fmt_u i @ ''=0x'' @ fmt_08X (new ! i) else []) [0..<NUM_GPR])"

lemma changed_gprs_ok:
  assumes "wf_regs r" and "length old = NUM_GPR" and "\<forall>i \<in> set is. i < NUM_GPR"
  shows "changed_gprs r old is
    = Ok (concat (map (\<lambda>i. if gpr r ! i \<noteq> old ! i then ''  r'' @ fmt_u i @ ''=0x'' @ fmt_08X (gpr r ! i) else []) is))"
  using assms(3)
proof (induction "is")
  case (Cons i "is")
  have "read_gpr r (of_nat i) = Ok (gpr r ! i)"
  proof (cases "i = 0")
    case False
    then have "unat (of_nat i :: u8) = i" using Cons.prems by (simp add: unat_of_nat take_bit_nat_eq_self)
    moreover have "(of_nat i :: u8) \<noteq> 0" using calculation False by (metis unat_0)
    ultimately show ?thesis using assms(1) Cons.prems by (simp add: read_gpr_def arr_get_def wf_regs_def)
  qed (use assms(1) in \<open>simp add: read_gpr_def wf_regs_def\<close>)
  with Cons assms(2) show ?case by (simp add: arr_get_def)
qed simp

lemma step_body_parts:
  assumes "\<not> halt (e_regs s)" and "step h s = (Ok (), s')"
  obtains s0 i s2 c s3 where "check_interrupts s = (Ok (), s0)" "fetch (snd (save_verbose s0)) = (Ok i, s2)"
    "execute h i s2 = (Ok c, s3)" "s' = tick_peripherals s3" "step_body h s = (Ok (Some (pc (e_regs s0), i, c)), s')"
proof -
  from assms obtain x where x: "step_body h s = (Ok x, s')" by (auto simp: step_def elim!: bind_OkE)
  then show thesis
    using assms(1) that unfolding step_body_def
    by (auto simp: save_verbose_def elim!: bind_OkE)
qed

lemma logged_state:
  assumes "emu_inv m k s" and "e_verbose s" and "\<not> halt (e_regs s)" and "check_interrupts s = (Ok (), s0)"
    and "fetch (snd (save_verbose s0)) = (Ok i, s2)" and "execute h i s2 = (Ok c, s3)"
  shows "e_verbose (tick_peripherals s3) \<and> e_last_gpr (tick_peripherals s3) = gpr (e_regs s)"
proof -
  have g0: "gpr (e_regs s0) = gpr (e_regs s)" "e_verbose s0"
    using preservesD [OF interrupts_keep_gprs, of "gpr (e_regs s)" True s] assms(2,4) by (simp_all add: gprs_kept_def)
  have "wf_regs (e_regs s)" using assms(1) by (rule kept_regs)
  then have "map (\<lambda>i. if i = 0 then 0 else gpr (e_regs s0) ! i) [0..<NUM_GPR] = gpr (e_regs s)"
    using g0(1) by (intro nth_equalityI) (auto simp: wf_regs_def)
  then have "e_verbose (snd (save_verbose s0)) \<and> e_last_gpr (snd (save_verbose s0)) = gpr (e_regs s)"
    using g0(2) by (simp add: save_verbose_def)
  moreover have "e_verbose s2 = e_verbose (snd (save_verbose s0)) \<and> e_last_gpr s2 = e_last_gpr (snd (save_verbose s0))"
    by (rule blind_keeps_log [OF log.blind_fetch assms(5)])
  moreover have "e_verbose s3 = e_verbose s2 \<and> e_last_gpr s3 = e_last_gpr s2"
    by (rule blind_keeps_log [OF log.blind_execute assms(6)])
  moreover have "e_verbose (tick_peripherals s3) = e_verbose s3 \<and> e_last_gpr (tick_peripherals s3) = e_last_gpr s3"
    by (rule blind_keeps_log [OF log.blind_tick]) simp
  ultimately show ?thesis by simp
qed

lemma verbose_step_text:
  assumes "emu_inv m k s" and "e_verbose s" and "\<not> halt (e_regs s)" and "step h s = (Ok (), s')"
  shows "\<exists>s0 i s2 c s3. check_interrupts s = (Ok (), s0) \<and> fetch (snd (save_verbose s0)) = (Ok i, s2) \<and> execute h i s2 = (Ok c, s3)
    \<and> verbose_step h s = (Ok (log_head (pc (e_regs s0)) i c @ changes (gpr (e_regs s)) (gpr (e_regs s')) @ log_tail (pc (e_regs s0)) i (e_regs s')), s')"
proof -
  from step_body_parts [OF assms(3,4)] obtain s0 i s2 c s3 where
    p: "check_interrupts s = (Ok (), s0)" "fetch (snd (save_verbose s0)) = (Ok i, s2)" "execute h i s2 = (Ok c, s3)"
    and s': "s' = tick_peripherals s3" and b: "step_body h s = (Ok (Some (pc (e_regs s0), i, c)), s')" by blast
  have lg: "e_verbose s'" "e_last_gpr s' = gpr (e_regs s)"
    using logged_state [OF assms(1-3) p] by (simp_all add: s')
  have wf: "wf_regs (e_regs s)" "wf_regs (e_regs s')"
    using assms(1) preservesD [OF pres_step assms(1), of h] assms(4) by (simp_all add: kept_regs)
  have "changed_gprs (e_regs s') (gpr (e_regs s)) [0..<NUM_GPR] = Ok (changes (gpr (e_regs s)) (gpr (e_regs s')))"
    unfolding changes_def using wf by (intro changed_gprs_ok) (simp_all add: wf_regs_def)
  with b lg have "verbose_step h s = (Ok (log_head (pc (e_regs s0)) i c @ changes (gpr (e_regs s)) (gpr (e_regs s')) @ log_tail (pc (e_regs s0)) i (e_regs s')), s')"
    by (simp add: verbose_step_def bind_eq log_step_def log_head_fits)
  with p show ?thesis by blast
qed

lemma verbose_step_error:
  "step h s = (Err e, s') \<Longrightarrow> verbose_step h s = (Err e, s')"
  by (auto simp: step_def verbose_step_def bind_def split: prod.splits res.splits)

text \<open>
  C23. Verbose mode prints and does nothing else to \<open>step\<close> and \<open>run\<close>. The same machine with
  the log hidden (not verbose, no snapshot) does the same step and the same run, the same
  exceptions included, and ends in the same state but for the log. (\<open>run_fast\<close> is not part of
  this: on a verbose machine it steps instead of replaying blocks.) When the step of a verbose
  machine returns, the text it prints is: the address after the interrupt check, the
  instruction that is fetched there and the cycles its execution takes; then exactly the
  scalar registers whose value the step has changed, with their new value; then the tail. No
  part of it is cut at the buffer. A step that throws prints nothing.
\<close>

theorem verbose_log:
  assumes "emu_inv m k s" and "e_verbose s" and "\<not> halt (e_regs s)"
  shows "step h (hide_log s) = map_prod id hide_log (step h s)
   \<and> run h n (hide_log s) = map_option (map_prod id hide_log) (run h n s)
   \<and> (\<forall>s'. step h s = (Ok (), s') \<longrightarrow> (\<exists>s0 i s2 c s3. check_interrupts s = (Ok (), s0)
        \<and> fetch (snd (save_verbose s0)) = (Ok i, s2) \<and> execute h i s2 = (Ok c, s3)
        \<and> verbose_step h s = (Ok (log_head (pc (e_regs s0)) i c @ changes (gpr (e_regs s)) (gpr (e_regs s'))
            @ log_tail (pc (e_regs s0)) i (e_regs s')), s')))
   \<and> (\<forall>e s'. step h s = (Err e, s') \<longrightarrow> verbose_step h s = (Err e, s'))"
proof -
  have "step h (hide_log s) = map_prod id hide_log (step h s)"
    using blind_step [of h] by (simp add: blind_def map_prod_def split: prod.split)
  with hide_log_run verbose_step_text [OF assms] verbose_step_error show ?thesis by blast
qed

theorem verbose_log_witness:
  "\<exists>s0 i s2 c s3. check_interrupts (set_verbose True demo_emu) = (Ok (), s0)
     \<and> fetch (snd (save_verbose s0)) = (Ok i, s2) \<and> execute demo_host i s2 = (Ok c, s3)
     \<and> verbose_step demo_host (set_verbose True demo_emu)
     = (Ok (log_head (pc (e_regs s0)) i c @ ''  r1=0x00000005''
         @ log_tail (pc (e_regs s0)) i (e_regs (snd (step demo_host (set_verbose True demo_emu))))), snd (step demo_host (set_verbose True demo_emu)))"
proof -
  let ?s = "set_verbose True demo_emu"
  have st: "fst (step demo_host ?s) = Ok ()" "changes (gpr (e_regs ?s)) (gpr (e_regs (snd (step demo_host ?s)))) = ''  r1=0x00000005''"
    by code_simp+
  then have eq: "step demo_host ?s = (Ok (), snd (step demo_host ?s))" by (metis prod.collapse)
  have "emu_inv 16 0 ?s" using inv_config(1) [OF demo_inv] .
  moreover have "e_verbose ?s" "\<not> halt (e_regs ?s)"
    by (simp_all add: set_verbose_def demo_emu_def emu_new_def regs_init_def)
  ultimately have "\<forall>s'. step demo_host ?s = (Ok (), s') \<longrightarrow> (\<exists>s0 i s2 c s3. check_interrupts ?s = (Ok (), s0)
        \<and> fetch (snd (save_verbose s0)) = (Ok i, s2) \<and> execute demo_host i s2 = (Ok c, s3)
        \<and> verbose_step demo_host ?s = (Ok (log_head (pc (e_regs s0)) i c @ changes (gpr (e_regs ?s)) (gpr (e_regs s'))
            @ log_tail (pc (e_regs s0)) i (e_regs s')), s'))"
    using verbose_log [of 16 0 ?s demo_host 0] by blast
  from this [rule_format, OF eq, unfolded st(2)] show ?thesis .
qed

end
