(* ===== verification/Cli.thy ===== *)
theory Cli
  imports Coremark Frontend Console
begin

text \<open>
  The command line of \<^verbatim>\<open>src/main.cpp\<close>: with a source file as argument, it is translated, loaded,
  listed, run on the fast path and reported; without one, a demonstration program runs in the
  interpreter, on the fast path under three target profiles, and with and without host
  acceleration. The results that the demonstration checks are here, the text that it
  prints about them is in \<open>Demos\<close>. Characters that the guest sends to the UART are in the
  UART's record, not in the text here. An exception is not caught and terminates the process.
\<close>

section \<open>A source file\<close>

datatype cli_outcome = Exit nat string | Terminated | CliUndefined | OutOfFuel

definition identity_matrix :: "f32 list" where
  "identity_matrix = [0x3F800000, 0, 0, 0, 0, 0x3F800000, 0, 0, 0, 0, 0x3F800000, 0, 0, 0, 0, 0x3F800000]"

definition counting_matrix :: "f32 list" where
  "counting_matrix = [0x3F800000, 0x40000000, 0x40400000, 0x40800000, 0x40A00000, 0x40C00000, 0x40E00000, 0x41000000,
     0x41100000, 0x41200000, 0x41300000, 0x41400000, 0x41500000, 0x41600000, 0x41700000, 0x41800000]"

definition new_emulator :: emu where
  "new_emulator = emu_new SCRATCHPAD_SIZE MAIN_RAM_SIZE"

definition c_string :: "string \<Rightarrow> string" where
  "c_string s = takeWhile (\<lambda>c. c \<noteq> CHR 0x00) s"

definition cli_setup :: "load_result \<Rightarrow> string emu_op" where
  "cli_setup r = (let n = of_nat (length (fe_program r)) in
     bind (modify (set_target (fe_target r))) (\<lambda>_.
     bind (load_program (fe_program r) n) (\<lambda>_.
     bind (load_main_ram 0 (bytes_of_words identity_matrix) 64) (\<lambda>_.
     bind (load_main_ram 64 (bytes_of_words counting_matrix) 64) (\<lambda>_.
     lift_res (\<lambda>s. disassemble_range (e_scratchpad s) 0 n))))))"

definition cli_done :: "host_macros \<Rightarrow> string emu_op" where
  "cli_done mac = bind (rd_gpr 3) (\<lambda>r3. gets (\<lambda>s.
     profiler_report (e_profiler s) @ newline
     @ ''Done. r3='' @ u32_text r3 @ '' halted='' @ bool_d (halt (e_regs s)) @ '' host='' @ host_feature_string mac @ newline))"

fun exit_of :: "string \<Rightarrow> string res \<Rightarrow> cli_outcome" where
  "exit_of out (Ok t) = Exit 0 (out @ t)"
| "exit_of out (Err e) = Terminated"
| "exit_of out Undef = CliUndefined"

definition cli_program :: "host_env \<Rightarrow> host_macros \<Rightarrow> nat \<Rightarrow> load_result \<Rightarrow> string \<Rightarrow> cli_outcome" where
  "cli_program h mac fuel r out =
    (case cli_setup r new_emulator of
       (Ok dis, s1) \<Rightarrow>
         let out1 = out @ ''Disassembly ('' @ fmt_u (length (fe_program r)) @ '' instrs, target='' @ c_string (target_name (fe_target r))
             @ ''):'' @ newline @ c_string dis @ newline
         in (case run_fast h fuel s1 of
              None \<Rightarrow> OutOfFuel
            | Some (Ok _, s2) \<Rightarrow> exit_of out1 (fst (cli_done mac s2))
            | Some (Err e, s2) \<Rightarrow> Terminated
            | Some (Undef, s2) \<Rightarrow> CliUndefined)
     | (Err e, s1) \<Rightarrow> Terminated
     | (Undef, s1) \<Rightarrow> CliUndefined)"

definition cli_main :: "host_env \<Rightarrow> host_macros \<Rightarrow> nat \<Rightarrow> string option \<Rightarrow> string \<Rightarrow> cli_outcome" where
  "cli_main h mac fuel contents path =
    (case frontend_load contents path of
       Loaded r \<Rightarrow>
         let out = ''Frontend ['' @ kind_name (fe_kind r) @ '']: '' @ c_string (fe_diag r) @ newline
         in if \<not> fe_ok r then Exit 1 out else cli_program h mac fuel r out
     | OutOfRange \<Rightarrow> Terminated
     | ScanUndefined \<Rightarrow> CliUndefined)"

section \<open>The demonstration\<close>

definition SCRATCH_A :: u32 where "SCRATCH_A = 0x1000"
definition SCRATCH_B :: u32 where "SCRATCH_B = 0x1040"
definition MAIN_A :: u32 where "MAIN_A = 0"
definition MAIN_B :: u32 where "MAIN_B = 0x40"
definition MAIN_RESULT :: u32 where "MAIN_RESULT = 0x2000"

lemmas demo_addrs = SCRATCH_A_def SCRATCH_B_def MAIN_A_def MAIN_B_def MAIN_RESULT_def

definition main_program :: "u32 list" where
  "main_program = [
     enc_movi 1 0, enc_movi 2 5, enc_movi 4 1, enc_movi 3 0,
     enc_add 1 1 4, enc_add 3 3 1, enc_bne 1 2 (- 12),
     enc_movi 5 (ucast SCRATCH_A), enc_movi 6 (ucast SCRATCH_B), enc_movi 7 (ucast MAIN_A), enc_movi 8 (ucast MAIN_B),
     enc_dma_load 5 7 64, enc_dma_load 6 8 64,
     enc_load_vr 0 5 0, enc_load_vr 1 6 0,
     enc_vec_add 2 0 1,
     enc_matmul_tile 3 0 1 4,
     enc_store_vr 3 5 0,
     enc_movi 9 (ucast MAIN_RESULT),
     enc_dma_store 9 5 64,
     enc_halt]"

definition demo_load :: "unit emu_op" where
  "demo_load =
     bind (load_program main_program (of_nat (length main_program))) (\<lambda>_.
     bind (load_main_ram MAIN_A (bytes_of_words identity_matrix) 64) (\<lambda>_.
     load_main_ram MAIN_B (bytes_of_words counting_matrix) 64))"

text \<open>Loading, running and reading back the sum and the product.\<close>

definition demo_result :: "(u32 \<times> f32 list) emu_op" where
  "demo_result = bind (rd_gpr 3) (\<lambda>r3.
     bind (lift_res (\<lambda>s. ram_read (e_main_ram s) MAIN_RESULT 64)) (\<lambda>bs. ret (r3, words_of_bytes bs)))"

definition run_demo :: "host_env \<Rightarrow> nat \<Rightarrow> bool \<Rightarrow> emu \<Rightarrow> ((u32 \<times> f32 list) res \<times> emu) option" where
  "run_demo h fuel use_fast s = (case demo_load s of
     (Ok _, s1) \<Rightarrow> (case (if use_fast then run_fast h fuel s1 else run h fuel s1) of
         None \<Rightarrow> None
       | Some (Ok _, s2) \<Rightarrow> Some (demo_result s2)
       | Some (Err e, s2) \<Rightarrow> Some (Err e, s2)
       | Some (Undef, s2) \<Rightarrow> Some (Undef, s2))
   | (Err e, s1) \<Rightarrow> Some (Err e, s1)
   | (Undef, s1) \<Rightarrow> Some (Undef, s1))"

definition demo_silent :: "host_env \<Rightarrow> nat \<Rightarrow> ((u32 \<times> f32 list) res \<times> emu) option" where
  "demo_silent h fuel = run_demo h fuel False new_emulator"

definition bench_target :: "host_env \<Rightarrow> nat \<Rightarrow> target_profile \<Rightarrow> ((u32 \<times> f32 list) res \<times> emu) option" where
  "bench_target h fuel prof = run_demo h fuel True (set_target prof new_emulator)"

definition accuracy_ref :: "host_env \<Rightarrow> nat \<Rightarrow> ((u32 \<times> f32 list) res \<times> emu) option" where
  "accuracy_ref h fuel = run_demo h fuel False (set_acceleration False new_emulator)"

definition accuracy_fast :: "host_env \<Rightarrow> nat \<Rightarrow> ((u32 \<times> f32 list) res \<times> emu) option" where
  "accuracy_fast h fuel = run_demo h fuel True (set_acceleration True new_emulator)"

section \<open>Symbolic execution\<close>

lemma main_words:
  "length main_program = 21" "main_program ! 0 = enc_movi 1 0" "main_program ! Suc 0 = enc_movi 2 5" "main_program ! 2 = enc_movi 4 1"
  "main_program ! 3 = enc_movi 3 0" "main_program ! 4 = enc_add 1 1 4" "main_program ! 5 = enc_add 3 3 1"
  "main_program ! 6 = enc_bne 1 2 (- 12)" "main_program ! 7 = enc_movi 5 0x1000" "main_program ! 8 = enc_movi 6 0x1040"
  "main_program ! 9 = enc_movi 7 0" "main_program ! 10 = enc_movi 8 64" "main_program ! 11 = enc_dma_load 5 7 64"
  "main_program ! 12 = enc_dma_load 6 8 64" "main_program ! 13 = enc_load_vr 0 5 0" "main_program ! 14 = enc_load_vr 1 6 0"
  "main_program ! 15 = enc_vec_add 2 0 1" "main_program ! 16 = enc_matmul_tile 3 0 1 4" "main_program ! 17 = enc_store_vr 3 5 0"
  "main_program ! 18 = enc_movi 9 0x2000" "main_program ! 19 = enc_dma_store 9 5 64" "main_program ! 20 = enc_halt"
  by (simp_all add: main_program_def demo_addrs)

lemma cpp_words:
  "length cpp_demo_program = 19" "cpp_demo_program ! 0 = enc_movi 1 0" "cpp_demo_program ! Suc 0 = enc_movi 2 5"
  "cpp_demo_program ! 2 = enc_movi 4 1" "cpp_demo_program ! 3 = enc_movi 3 0" "cpp_demo_program ! 4 = enc_add 1 1 4"
  "cpp_demo_program ! 5 = enc_add 3 3 1" "cpp_demo_program ! 6 = enc_bne 1 2 (- 12)" "cpp_demo_program ! 7 = enc_movi 5 0x1000"
  "cpp_demo_program ! 8 = enc_movi 6 0x1040" "cpp_demo_program ! 9 = enc_movi 7 0" "cpp_demo_program ! 10 = enc_movi 8 64"
  "cpp_demo_program ! 11 = enc_dma_load 5 7 64" "cpp_demo_program ! 12 = enc_dma_load 6 8 64"
  "cpp_demo_program ! 13 = enc_load_vr 0 5 0" "cpp_demo_program ! 14 = enc_load_vr 1 6 0"
  "cpp_demo_program ! 15 = enc_vec_add 2 0 1" "cpp_demo_program ! 16 = enc_matmul_tile 3 0 1 4"
  "cpp_demo_program ! 17 = enc_store_vr 3 5 0" "cpp_demo_program ! 18 = enc_halt"
  by (simp_all add: cpp_demo_program_def)

lemma enc_dma_store_fields:
  assumes "reg5 d" and "reg5 a"
  shows "instr_opcode \<lparr>raw = enc_dma_store d a n\<rparr> = DMA_STORE" "instr_rd \<lparr>raw = enc_dma_store d a n\<rparr> = d"
    "instr_ra \<lparr>raw = enc_dma_store d a n\<rparr> = a"
  using assms by (simp_all add: enc_unfold field_lemmas named_opcodes_def)

lemma enc_dma_store_func: "instr_func \<lparr>raw = enc_dma_store 9 5 64\<rparr> = 64"
  by code_simp

lemma buffers:
  assumes "0x1080 \<le> length m" and "length x = 64" and "length y = 64"
  shows "slice 0x1000 64 (splice_at 0x1040 x (splice_at 0x1000 y m)) = y"
    and "slice 0x1040 64 (splice_at 0x1040 x (splice_at 0x1000 y m)) = x"
  using assms slice_splice_at_same [of "0x1000" y m] slice_splice_at_same [of "0x1040" x "splice_at 0x1000 y m"]
    slice_splice_at_disjoint [where off = "0x1040" and src = x and xs = "splice_at 0x1000 y m" and a = "0x1000" and n = 64]
  by simp_all

lemma main_runs:
  assumes "0x1080 \<le> length m" and "0x2040 \<le> length d" and "length (V 3) = 16"
  shows "\<exists>B. rom_run fp 128 main_program 33
      \<lparr>a_gpr = g0, a_vr = V, a_pc = 0, a_halt = False, a_flags = f0, a_mem = m, a_dram = d\<rparr> = Some B
    \<and> a_halt B \<and> a_gpr B 3 = 15 \<and> a_pc B = 0x54
    \<and> slice 0x2000 64 (a_dram B) = bytes_of_words (product fp (words_of_bytes (slice 0 64 d)) (words_of_bytes (slice 64 64 d)))"
proof -
  have out: "slice 0x1000 64 (splice_at 0x1000 z n) = z" if "length z = 64" "0x1080 \<le> length n" for z n :: "u8 list"
    using that slice_splice_at_same [of "0x1000" z n] by simp
  have out2: "slice 0x2000 64 (splice_at 0x2000 z n) = z" if "length z = 64" "0x2040 \<le> length n" for z n :: "u8 list"
    using that slice_splice_at_same [of "0x2000" z n] by simp
  show ?thesis using assms
    by (simp add: sym_exec main_words enc_dma_store_fields enc_dma_store_func matmul_ref_product buffers out out2)
qed

lemma cpp_runs:
  assumes "0x1080 \<le> length m" and "0x80 \<le> length d" and "length (V 3) = 16"
  shows "\<exists>B. rom_run fp 128 cpp_demo_program 31
      \<lparr>a_gpr = g0, a_vr = V, a_pc = 0, a_halt = False, a_flags = f0, a_mem = m, a_dram = d\<rparr> = Some B
    \<and> a_halt B \<and> a_gpr B 3 = 15"
  using assms by (simp add: sym_exec cpp_words)

section \<open>Loading a program and two matrices\<close>

lemma load_all_ok:
  assumes "cm_fresh m k s" and "4 * length ws \<le> m" and "4 * length ws \<le> 128" and "0x80 \<le> k" and "length a = 16" and "length b = 16"
  obtains s1 s2 s3 where "load_program ws (of_nat (length ws)) s = (Ok (), s1)" "load_mat 0 (Some a) s1 = (Ok (), s2)"
    "load_mat 0x40 (Some b) s2 = (Ok (), s3)" "cm_fresh m k s3" "e_scratchpad s3 = e_scratchpad s1"
    "take (4 * length ws) (sram_data (e_scratchpad s3)) = bytes_of_words ws" "blocks (e_block_cache s3) = Map.empty"
    "slice 0 64 (ram_data (e_main_ram s3)) = bytes_of_words a" "slice 64 64 (ram_data (e_main_ram s3)) = bytes_of_words b"
proof -
  note len = cm_fresh_sizes(1,2) [OF assms(1)]
  from load_words_ok [OF assms(1-3)] obtain s1 where s1: "load_program ws (of_nat (length ws)) s = (Ok (), s1)" "cm_fresh m k s1"
    "sram_data (e_scratchpad s1) = splice_at 0 (bytes_of_words ws) (sram_data (e_scratchpad s))"
    "blocks (e_block_cache s1) = Map.empty" by (simp add: bc_clear_def)
  from load_mat_ok [OF s1(2), of 0 a] assms(4,5) obtain s2 where s2: "load_mat 0 (Some a) s1 = (Ok (), s2)" "cm_fresh m k s2"
    "ram_data (e_main_ram s2) = splice_at 0 (bytes_of_words a) (ram_data (e_main_ram s1))"
    "e_scratchpad s2 = e_scratchpad s1" "e_block_cache s2 = e_block_cache s1" by simp
  from load_mat_ok [OF s2(2), of "0x40" b] assms(4,6) obtain s3 where s3: "load_mat 0x40 (Some b) s2 = (Ok (), s3)" "cm_fresh m k s3"
    "ram_data (e_main_ram s3) = splice_at 64 (bytes_of_words b) (ram_data (e_main_ram s2))"
    "e_scratchpad s3 = e_scratchpad s2" "e_block_cache s3 = e_block_cache s2" by simp
  show ?thesis
  proof (rule that [OF s1(1) s2(1) s3(1,2)])
    show "take (4 * length ws) (sram_data (e_scratchpad s3)) = bytes_of_words ws"
      using s1(3) s2(4) s3(4) len assms(2) by (simp add: splice_at_def)
    show "slice 0 64 (ram_data (e_main_ram s3)) = bytes_of_words a" "slice 64 64 (ram_data (e_main_ram s3)) = bytes_of_words b"
      using s2(3) s3(3) cm_fresh_sizes(2) [OF s1(2)] assms(4-6)
        slice_splice_at_same [of 0 "bytes_of_words a" "ram_data (e_main_ram s1)"]
        slice_splice_at_same [of 64 "bytes_of_words b" "ram_data (e_main_ram s2)"]
        slice_splice_at_disjoint [where off = 64 and src = "bytes_of_words b" and xs = "ram_data (e_main_ram s2)" and a = 0 and n = 64]
      by simp_all
  qed (use s1(4) s2(4,5) s3(4,5) in simp_all)
qed

lemma cm_fresh_config:
  "cm_fresh m k s \<Longrightarrow> wf_target p \<Longrightarrow> cm_fresh m k (set_target p s)"
  "cm_fresh m k s \<Longrightarrow> cm_fresh m k (set_acceleration v s)"
  using inv_config(2,3) [of True m k s] by (auto simp: cm_fresh_def fast_ok_def quiet_def set_target_def set_acceleration_def)

lemma new_fresh: "cm_fresh 67108864 67108864 new_emulator"
  using cm_fresh_new [of SCRATCHPAD_SIZE MAIN_RAM_SIZE] by (simp add: new_emulator_def SCRATCHPAD_SIZE_def MAIN_RAM_SIZE_def)

lemma length_matrices [simp]: "length identity_matrix = 16" "length counting_matrix = 16"
  by (simp_all add: identity_matrix_def counting_matrix_def)

lemma rd_gpr_of_arch: "emu_inv m k s \<Longrightarrow> a_gpr (arch_of s) 3 = v \<Longrightarrow> rd_gpr 3 s = (Ok v, s)"
  using rd_gpr_arch [OF inv_parts(1), of m k s 3] by (simp add: gpr_ok_def)

lemma demo_load_ok:
  assumes "cm_fresh m k s" and "0x1080 \<le> m" and "0x80 \<le> k"
  obtains s' where "demo_load s = (Ok (), s')" "cm_fresh m k s'"
    "take (4 * length main_program) (sram_data (e_scratchpad s')) = bytes_of_words main_program" "blocks (e_block_cache s') = Map.empty"
    "slice 0 64 (ram_data (e_main_ram s')) = bytes_of_words identity_matrix"
    "slice 64 64 (ram_data (e_main_ram s')) = bytes_of_words counting_matrix"
proof -
  have pre: "4 * length main_program \<le> m" "4 * length main_program \<le> 128" using assms(2) by (simp_all add: main_words)
  show ?thesis
  proof (rule load_all_ok [OF assms(1) pre assms(3) length_matrices])
    fix s1 s2 s3
    assume "load_program main_program (of_nat (length main_program)) s = (Ok (), s1)" "load_mat 0 (Some identity_matrix) s1 = (Ok (), s2)"
      "load_mat 0x40 (Some counting_matrix) s2 = (Ok (), s3)"
    then have "demo_load s = (Ok (), s3)" by (simp add: demo_load_def bind_def load_mat_def demo_addrs)
    moreover assume "cm_fresh m k s3"
      "take (4 * length main_program) (sram_data (e_scratchpad s3)) = bytes_of_words main_program" "blocks (e_block_cache s3) = Map.empty"
      "slice 0 64 (ram_data (e_main_ram s3)) = bytes_of_words identity_matrix"
      "slice 64 64 (ram_data (e_main_ram s3)) = bytes_of_words counting_matrix"
    ultimately show ?thesis by (rule that)
  qed
qed

lemma demo_runs_to:
  assumes "cm_fresh m k s" and "0x1080 \<le> m" and "0x2040 \<le> k"
  shows "\<exists>s3 s4. demo_load s = (Ok (), s3) \<and> (if use_fast then run_fast h 33 s3 else run h 33 s3) = Some (Ok (), s4)
     \<and> demo_result s4 = (Ok (15, product (h_fpu h) identity_matrix counting_matrix), s4) \<and> emu_inv m k s4 \<and> pc (e_regs s4) = 0x54"
proof -
  have k: "0x80 \<le> k" using assms(3) by simp
  obtain s3 where load: "demo_load s = (Ok (), s3)" and fr: "cm_fresh m k s3"
    and tx: "take (4 * length main_program) (sram_data (e_scratchpad s3)) = bytes_of_words main_program" "blocks (e_block_cache s3) = Map.empty"
    and mt: "slice 0 64 (ram_data (e_main_ram s3)) = bytes_of_words identity_matrix"
      "slice 64 64 (ram_data (e_main_ram s3)) = bytes_of_words counting_matrix"
    by (rule demo_load_ok [OF assms(1,2) k])
  let ?P = "product (h_fpu h) identity_matrix counting_matrix"
  from main_runs [of "sram_data (e_scratchpad s3)" "ram_data (e_main_ram s3)" "vrs (vr (e_regs s3))" "h_fpu h"
      "gprs (gpr (e_regs s3))" "flags_of (status (e_regs s3))"] cm_fresh_vr [OF fr] cm_fresh_sizes [OF fr] assms(2,3) fr mt
  obtain B where B: "rom_run (h_fpu h) 128 main_program 33 (arch_of s3) = Some B" "a_gpr B 3 = 15"
    "slice 0x2000 64 (a_dram B) = bytes_of_words ?P" "a_pc B = 0x54"
    by (auto simp: arch_of_def words_of_bytes_of_words cm_fresh_def)
  have "128 \<le> m" using assms(2) by simp
  from loaded_runs [OF fr this _ tx B(1), of use_fast] obtain s4 where
    s4: "(if use_fast then run_fast h 33 s3 else run h 33 s3) = Some (Ok (), s4)" "arch_of s4 = B" "emu_inv m k s4"
    by (auto simp: main_words)
  have "ram_read (e_main_ram s4) 0x2000 64 = Ok (bytes_of_words ?P)"
    using bounds_iff [OF inv_parts(6) [OF s4(3)] no_wrap_64, of "0x2000"] B(3) s4(2,3) assms(3)
    by (auto simp: ram_read_def ram_check_bounds_def ram_size_def mem_read_def inv_defs arch_of_def)
  then have "demo_result s4 = (Ok (15, ?P), s4)"
    using rd_gpr_of_arch [OF s4(3)] s4(2) B(2)
    by (simp add: demo_result_def bind_def demo_addrs words_of_bytes_of_words product_def)
  moreover have "pc (e_regs s4) = 0x54" using B(4) s4(2) by auto
  ultimately show ?thesis using load s4(1,3) by blast
qed

lemma demo_runs:
  assumes "cm_fresh m k s" and "0x1080 \<le> m" and "0x2040 \<le> k"
  shows "\<exists>s'. run_demo h 33 use_fast s = Some (Ok (15, product (h_fpu h) identity_matrix counting_matrix), s')"
  using demo_runs_to [OF assms, of use_fast h] by (auto simp: run_demo_def)

section \<open>Properties\<close>

text \<open>
  C8. The demonstration gives bit-identical results everywhere: on every host, under every target
  profile, with and without acceleration, in the interpreter and on the fast path, the
  program of \<open>main\<close> runs to its end in 33 instructions and leaves 15 in \<open>r3\<close> and the same
  product of the two matrices in the main memory.
\<close>

theorem demo_bit_identical:
  assumes "wf_target p"
  shows "\<exists>s'. run_demo h 33 use_fast (set_acceleration acc (set_target p new_emulator))
      = Some (Ok (15, product (h_fpu h) identity_matrix counting_matrix), s')"
  by (rule demo_runs [OF cm_fresh_config(2) [OF cm_fresh_config(1) [OF new_fresh assms]]]) simp_all

theorem demo_bit_identical_witness:
  "\<exists>s'. run_demo demo_host 33 True (set_acceleration False (set_target make_gpu_profile new_emulator))
      = Some (Ok (15, product (h_fpu demo_host) identity_matrix counting_matrix), s')"
  using demo_bit_identical [of make_gpu_profile] by simp

text \<open>What the checks of \<open>main\<close> need of the arithmetic: zero and one behave as in IEEE 754 on the numbers 1 to 16.\<close>

definition exact_identity :: "fpu \<Rightarrow> bool" where
  "exact_identity fp \<longleftrightarrow> fadd fp 0 0 = 0 \<and> list_all (\<lambda>x. fmul fp 0x3F800000 x = x \<and> fmul fp 0 x = 0
     \<and> fadd fp 0 x = x \<and> fadd fp x 0 = x) counting_matrix"

lemma identity_product:
  assumes "exact_identity fp"
  shows "product fp identity_matrix counting_matrix = counting_matrix"
  using assms
  by (simp add: exact_identity_def product_def dot_def identity_matrix_def counting_matrix_def upt_rec)

definition demo_checks :: "host_env \<Rightarrow> ((u32 \<times> f32 list) res \<times> emu) option list" where
  "demo_checks h = [demo_silent h 33, bench_target h 33 make_cpu_profile, bench_target h 33 make_gpu_profile,
     bench_target h 33 make_asic_profile, accuracy_ref h 33, accuracy_fast h 33]"

text \<open>
  The checks of the demonstration pass: with an arithmetic in which zero and one are neutral as
  IEEE 754 has it, the silent run, the runs under the three target profiles and the two runs of the
  accuracy check all end with \<open>r3 = 15\<close> and the second matrix, exactly, as the product.
\<close>

theorem demo_checks_pass:
  assumes "exact_identity (h_fpu h)"
  shows "list_all (\<lambda>r. map_option fst r = Some (Ok (15, counting_matrix))) (demo_checks h)"
proof -
  have "map_option fst (run_demo h 33 use_fast s) = Some (Ok (15, counting_matrix))" if "cm_fresh 67108864 67108864 s" for s use_fast
    using demo_runs [OF that, of h use_fast] identity_product [OF assms] by auto
  then show ?thesis
    by (simp add: demo_checks_def demo_silent_def bench_target_def accuracy_ref_def accuracy_fast_def new_fresh cm_fresh_config
        del: map_option_eq_Some)
qed

definition one_host :: host_env where
  "one_host = demo_host\<lparr>h_fpu := \<lparr>fadd = (\<lambda>x y. if x = 0 then y else x), fmul = (\<lambda>x y. if x = 0x3F800000 then y else 0)\<rparr>\<rparr>"

theorem demo_checks_pass_witness:
  "list_all (\<lambda>r. map_option fst r = Some (Ok (15, counting_matrix))) (demo_checks one_host)"
proof (rule demo_checks_pass)
  show "exact_identity (h_fpu one_host)" by (simp add: exact_identity_def one_host_def counting_matrix_def)
qed

section \<open>The command line\<close>

lemma fold_cpp_line_none: "\<forall>l \<in> set ls. regex_search re_novium l = None \<Longrightarrow> fold cpp_line ls acc = acc"
  by (induction ls arbitrary: acc) (simp_all add: cpp_line_def)

text \<open>
  C21. Running a C++ file that has neither annotations nor a kernel pragma: the command line exits with
  code 0 after at most 31 instructions and its last line reports \<open>r3=15 halted=1\<close>.
\<close>

theorem cli_plain_cpp:
  assumes "kind_from_extension path = KCpp" and "\<forall>l \<in> set (getlines src). regex_search re_novium l = None"
    and "\<not> sublist ''novium::kernel'' src" and "\<not> sublist ''novium kernel'' src"
  shows "\<exists>out. cli_main h mac 31 (Some src) path
      = Exit 0 (out @ ''Done. r3=15 halted=1 host='' @ host_feature_string mac @ newline)"
proof -
  define r where "r = load_cpp src path"
  have r: "fe_program r = cpp_demo_program" "fe_ok r" "wf_target (fe_target r)"
    using assms(2-4) fold_cpp_line_none wf_target_profiles(1) by (simp_all add: r_def load_cpp_def Let_def wf_target_def)
  have load: "frontend_load (Some src) path = Loaded r" using assms(1) by (simp add: frontend_load_def r_def)
  let ?s = "set_target (fe_target r) new_emulator" and ?ws = cpp_demo_program
  have fr0: "cm_fresh 67108864 67108864 ?s" by (rule cm_fresh_config(1) [OF new_fresh r(3)])
  have pre: "4 * length ?ws \<le> 67108864" "4 * length ?ws \<le> 128" by (simp_all add: cpp_words)
  obtain s1 s2 s3 where
    ld: "load_program ?ws (of_nat (length ?ws)) ?s = (Ok (), s1)" "load_mat 0 (Some identity_matrix) s1 = (Ok (), s2)"
    "load_mat 0x40 (Some counting_matrix) s2 = (Ok (), s3)" and fr: "cm_fresh 67108864 67108864 s3" and sp: "e_scratchpad s3 = e_scratchpad s1"
    and tx: "take (4 * length ?ws) (sram_data (e_scratchpad s3)) = bytes_of_words ?ws" "blocks (e_block_cache s3) = Map.empty"
    by (rule load_all_ok [OF fr0 pre _ length_matrices]) simp_all
  have "disassemble_range (e_scratchpad s1) 0 (of_nat (length ?ws)) = Ok (listing 0 ?ws)"
    using fr0 by (intro listing_loaded [OF _ _ ld(1), of 67108864 67108864]) (simp_all add: cm_fresh_def fast_ok_def cpp_words)
  then have su: "cli_setup r new_emulator = (Ok (listing 0 ?ws), s3)"
    using ld sp r(1) by (simp add: cli_setup_def Let_def bind_def load_mat_def)
  from cpp_runs [of "sram_data (e_scratchpad s3)" "ram_data (e_main_ram s3)" "vrs (vr (e_regs s3))" "h_fpu h"
      "gprs (gpr (e_regs s3))" "flags_of (status (e_regs s3))"] cm_fresh_vr [OF fr] cm_fresh_sizes [OF fr] fr
  obtain B where B: "rom_run (h_fpu h) 128 ?ws 31 (arch_of s3) = Some B" "a_gpr B 3 = 15" "a_halt B"
    by (auto simp: arch_of_def cm_fresh_def)
  from loaded_runs [OF fr _ pre(2) tx B(1), of True] obtain s4 where
    s4: "run_fast h 31 s3 = Some (Ok (), s4)" "arch_of s4 = B" "emu_inv 67108864 67108864 s4" by auto
  have "rd_gpr 3 s4 = (Ok 15, s4)" "halt (e_regs s4)"
    using rd_gpr_of_arch [OF s4(3), of 15] B(2,3) unfolding s4(2) [symmetric] by simp_all
  then have "cli_done mac s4 = (Ok (profiler_report (e_profiler s4) @ newline @ ''Done. r3=15 halted=1 host='' @ host_feature_string mac @ newline), s4)"
    by (simp add: cli_done_def bind_def bool_d_def fmt_u_def show_base.simps digit_char_def digit_chars)
  with load su s4(1) r(1,2) show ?thesis by (simp add: cli_main_def cli_program_def Let_def)
qed

theorem cli_plain_cpp_witness:
  "\<forall>mac. \<exists>out. cli_main demo_host mac 31 (Some ''int main() {}'') ''a.cpp''
      = Exit 0 (out @ ''Done. r3=15 halted=1 host='' @ host_feature_string mac @ newline)"
proof (rule allI, rule cli_plain_cpp)
  show "kind_from_extension ''a.cpp'' = KCpp" by code_simp
  show "\<forall>l \<in> set (getlines ''int main() {}''). regex_search re_novium l = None" by code_simp
  show "\<not> sublist ''novium::kernel'' ''int main() {}''" by code_simp
  show "\<not> sublist ''novium kernel'' ''int main() {}''" by code_simp
qed

end
