(* ===== verification/Score.thy ===== *)
theory Score
  imports Cli
begin

text \<open>
  The figures that the benchmark computes from its counters and the report that it prints
  (\<^verbatim>\<open>include/aiasm/coremark.h\<close>, end of \<^verbatim>\<open>src/coremark.cpp\<close>). The clock is outside the
  program: the microseconds between its two readings are an argument, for a clock that does
  not go back. The theorems: the score is the quotient that the comment in the source gives, up to
  two roundings; the report buffer holds the whole text; a run on a new machine ends in a report
  that says \<open>OVERALL PASS\<close>.
\<close>

section \<open>Figures\<close>

record cm_report = cm_result +
  cm_host_info :: string
  cm_wall_us :: dbl
  cm_per_mhz :: dbl
  cm_per_sec :: dbl

abbreviation million :: dbl where "million \<equiv> to_double 1000000 1"

definition mhz_cycles :: "u64 \<Rightarrow> dbl" where
  "mhz_cycles cycles = dbl_div (dbl_of_u64 cycles) million"

definition coremark_per_mhz :: "u32 \<Rightarrow> u64 \<Rightarrow> dbl" where
  "coremark_per_mhz iterations cycles =
     (if fst (mhz_cycles cycles) > 0 then dbl_div (to_double (unat iterations) 1) (mhz_cycles cycles) else dbl_zero)"

definition iterations_per_sec :: "u32 \<Rightarrow> u64 \<Rightarrow> dbl" where
  "iterations_per_sec iterations wall =
     (if fst (dbl_of_u64 wall) > 0 then dbl_div (dbl_mul (to_double (unat iterations) 1) million) (dbl_of_u64 wall) else dbl_zero)"

definition coremark_figures :: "host_macros \<Rightarrow> u64 \<Rightarrow> cm_result \<Rightarrow> cm_report" where
  "coremark_figures mac wall r = cm_result.extend r (cm_report.fields (host_feature_string mac) (dbl_of_u64 wall)
     (coremark_per_mhz (cm_iterations r) (cm_total_cycles r)) (iterations_per_sec (cm_iterations r) wall))"

definition coremark_main :: "host_env \<Rightarrow> host_macros \<Rightarrow> u64 \<Rightarrow> nat \<Rightarrow> u32 \<Rightarrow> bool \<Rightarrow> f32 list option \<Rightarrow> f32 list option \<Rightarrow> emu
    \<Rightarrow> (cm_report res \<times> emu) option" where
  "coremark_main h mac wall fuel iterations use_fast a b s =
     map_option (map_prod (map_res (coremark_figures mac wall)) id) (coremark_run h fuel iterations use_fast a b s)"

section \<open>Report\<close>

definition pass_fail :: "bool \<Rightarrow> string" where
  "pass_fail b = (if b then ''PASS'' else ''FAIL'')"

definition coremark_text :: "cm_report \<Rightarrow> string" where
  "coremark_text r = ''CoreMark ['' @ c_string (cm_target_name r) @ '' on '' @ c_string (cm_host_info r) @ '']'' @ newline
     @ ''  iterations      : '' @ u32_text (cm_iterations r) @ newline
     @ ''  total_cycles    : '' @ u64_text (cm_total_cycles r) @ newline
     @ ''  total_instrs    : '' @ u64_text (cm_total_instrs r) @ newline
     @ ''  wall_time       : '' @ fmt_f 1 (cm_wall_us r) @ '' us'' @ newline
     @ ''  iter/sec        : '' @ fmt_f 1 (cm_per_sec r) @ newline
     @ ''  CoreMark/MHz    : '' @ fmt_f 3 (cm_per_mhz r) @ newline
     @ ''  checks: list='' @ pass_fail (cm_list_ok r) @ '' matrix='' @ pass_fail (cm_matrix_ok r) @ '' crc='' @ pass_fail (cm_crc_ok r)
     @ ''  '' @ (if cm_list_ok r \<and> cm_matrix_ok r \<and> cm_crc_ok r then ''OVERALL PASS'' else ''OVERALL FAIL'') @ newline"

definition coremark_report :: "cm_report \<Rightarrow> string" where
  "coremark_report r = snprintf 1024 (coremark_text r)"

section \<open>Accuracy\<close>

lemma dbl_mul_error: "\<bar>dreal (dbl_mul x y) - dreal x * dreal y\<bar> \<le> dreal x * dreal y / 2 ^ 53"
proof -
  obtain n d n' d' where f: "dbl_frac x = (n, d)" "dbl_frac y = (n', d')" by fastforce
  with to_double_error [of "d * d'" "n * n'"] dbl_mul_frac [OF f] show ?thesis by (simp only: dbl_mul_def split)
qed

lemma within: "\<bar>x - a\<bar> \<le> a * e \<Longrightarrow> a * (1 - e) \<le> x \<and> x \<le> a * (1 + e)" for x a e :: real
  unfolding abs_le_iff by (simp add: algebra_simps)

text \<open>A quotient whose operands and result are each rounded once.\<close>

lemma rounded_quotient:
  fixes a b x y q :: real
  assumes "\<bar>x - a\<bar> \<le> a / 2 ^ 53" and "\<bar>y - b\<bar> \<le> b / 2 ^ 53" and "\<bar>q - x / y\<bar> \<le> x / y / 2 ^ 53" and "0 \<le> a" and "0 < b"
  shows "\<bar>q - a / b\<bar> \<le> a / b / 2 ^ 51"
proof -
  define e :: real where "e = 1 / 2 ^ 53"
  have e: "0 < e" "e \<le> 1 / 2 ^ 10" "4 * e = 1 / 2 ^ 51" by (simp_all add: e_def)
  have x: "a * (1 - e) \<le> x" "x \<le> a * (1 + e)" using within [of x a e] assms(1) by (simp_all add: e_def)
  have y: "b * (1 - e) \<le> y" "y \<le> b * (1 + e)" using within [of y b e] assms(2) by (simp_all add: e_def)
  have yp: "0 < b * (1 - e)" using assms(5) e(2) by simp
  have xp: "0 \<le> x" using order_trans [OF _ x(1)] assms(4) e(2) by simp
  define r where "r = a / b"
  have r: "0 \<le> r" using assms(4,5) by (simp add: r_def)
  have "x / y \<le> a * (1 + e) / (b * (1 - e))" using x(2) y(1) yp assms(4) e(1) by (intro frac_le) simp_all
  then have up: "x / y \<le> r * ((1 + e) / (1 - e))" by (simp add: r_def)
  have "a * (1 - e) / (b * (1 + e)) \<le> x / y" using x y yp xp assms(4) e(2) by (intro frac_le) simp_all
  then have lo: "r * ((1 - e) / (1 + e)) \<le> x / y" by (simp add: r_def)
  have q: "x / y * (1 - e) \<le> q" "q \<le> x / y * (1 + e)" using within [of q "x / y" e] assms(3) by (simp_all add: e_def)
  have c: "(1 + e) / (1 - e) * (1 + e) \<le> 1 + 4 * e" "1 - 4 * e \<le> (1 - e) / (1 + e) * (1 - e)" by (simp_all add: e_def)
  have "q \<le> r * ((1 + e) / (1 - e)) * (1 + e)" using q(2) mult_right_mono [OF up, of "1 + e"] e(1) by simp
  also have "\<dots> \<le> r * (1 + 4 * e)" using mult_left_mono [OF c(1) r] by (simp only: mult.assoc)
  finally have up: "q - r \<le> r * (4 * e)" by (simp add: algebra_simps)
  have "r * (1 - 4 * e) \<le> r * ((1 - e) / (1 + e)) * (1 - e)" using mult_left_mono [OF c(2) r] by (simp only: mult.assoc)
  also have "\<dots> \<le> q" using q(1) mult_right_mono [OF lo, of "1 - e"] e(2) by simp
  finally have "r - q \<le> r * (4 * e)" by (simp add: algebra_simps)
  with up have "\<bar>q - r\<bar> \<le> r * (4 * e)" by (simp only: abs_le_iff) simp
  then show ?thesis unfolding e(3) r_def by simp
qed

lemma dreal_million [simp]: "dreal (to_double 1000000 (Suc 0)) = 1000000"
  using to_double_int [of 1000000] by simp

lemma real_unat_nonneg [simp]: "0 \<le> (unsigned n :: real)" for n :: u32
  using of_nat_0_le_iff [of "unat n"] by simp

lemma dreal_u32 [simp]: "dreal (to_double (unat (n :: u32)) (Suc 0)) = real (unat n)"
  using unat_u32_less [of n] to_double_int [of "unat n"] by (simp del: unat_u32_less)

lemma dreal_pos: "0 < dreal x \<longleftrightarrow> 0 < fst x"
  by (cases x) (simp add: dreal_def zero_less_mult_iff)

lemma mhz_error: "\<bar>dreal (mhz_cycles c) - dreal (dbl_of_u64 c) / 1000000\<bar> \<le> dreal (dbl_of_u64 c) / 1000000 / 2 ^ 53"
  using dbl_div_error [of million "dbl_of_u64 c"] by (simp add: mhz_cycles_def)

lemma mhz_pos: "c \<noteq> 0 \<Longrightarrow> 1 / 4000000 \<le> dreal (mhz_cycles c)"
  using abs_le_D2 [OF mhz_error [of c]] dbl_of_u64_pos [of c] by simp

text \<open>
  C24. The score is accurate: for fewer than \<open>2 ^ 53\<close> cycles, the \<open>CoreMark/MHz\<close> that is computed
  differs from the number of iterations per million cycles by a relative error of at most
  \<open>2 ^ -51\<close>, and the iterations per second from the quotient by the wall-clock time likewise.
\<close>

theorem coremark_score_accurate:
  fixes n :: u32
  assumes "c \<noteq> 0" and "unat c < 2 ^ 53" and "w \<noteq> 0" and "unat w < 2 ^ 53"
  defines "score \<equiv> real (unat n) / (real (unat c) / 1000000)"
    and "rate \<equiv> real (unat n) * 1000000 / real (unat w)"
  shows "\<bar>dreal (coremark_per_mhz n c) - score\<bar> \<le> score / 2 ^ 51
    \<and> \<bar>dreal (iterations_per_sec n w) - rate\<bar> \<le> rate / 2 ^ 51"
proof
  have c: "0 < real (unat c)" "0 < real (unat w)" using assms(1,3) by (simp_all only: of_nat_0_less_iff unat_gt_0 not_False_eq_True)
  have m: "0 < dreal (mhz_cycles c)" using mhz_pos [OF assms(1)] by simp
  then have p: "coremark_per_mhz n c = dbl_div (to_double (unat n) 1) (mhz_cycles c)"
    by (simp add: coremark_per_mhz_def dreal_pos)
  show "\<bar>dreal (coremark_per_mhz n c) - score\<bar> \<le> score / 2 ^ 51"
    unfolding score_def p
  proof (rule rounded_quotient [where x = "real (unat n)"])
    show "\<bar>dreal (mhz_cycles c) - real (unat c) / 1000000\<bar> \<le> real (unat c) / 1000000 / 2 ^ 53"
      using mhz_error [of c] by (simp add: dbl_of_u64_exact [OF assms(2)])
    show "\<bar>dreal (dbl_div (to_double (unat n) 1) (mhz_cycles c)) - real (unat n) / dreal (mhz_cycles c)\<bar>
        \<le> real (unat n) / dreal (mhz_cycles c) / 2 ^ 53"
      using dbl_div_error [OF m, of "to_double (unat n) 1"] by simp
  qed (use c in simp_all)
  let ?n = "dbl_mul (to_double (unat n) 1) million"
  have w: "dreal (dbl_of_u64 w) = real (unat w)" by (rule dbl_of_u64_exact [OF assms(4)])
  then have wp: "0 < dreal (dbl_of_u64 w)" using c by simp
  show "\<bar>dreal (iterations_per_sec n w) - rate\<bar> \<le> rate / 2 ^ 51"
    unfolding rate_def
  proof (rule rounded_quotient [where x = "dreal ?n" and y = "real (unat w)"])
    show "\<bar>dreal ?n - real (unat n) * 1000000\<bar> \<le> real (unat n) * 1000000 / 2 ^ 53"
      using dbl_mul_error [of "to_double (unat n) 1" million] by simp
    show "\<bar>dreal (iterations_per_sec n w) - dreal ?n / real (unat w)\<bar> \<le> dreal ?n / real (unat w) / 2 ^ 53"
      using dbl_div_error [OF wp, of ?n] wp [unfolded dreal_pos] by (simp add: iterations_per_sec_def w)
  qed (use c in simp_all)
qed

theorem coremark_score_accurate_witness:
  "\<bar>dreal (coremark_per_mhz 100 23800) - 100 / (23800 / 1000000)\<bar> \<le> 100 / (23800 / 1000000) / 2 ^ 51"
  using coremark_score_accurate [of 23800 1000 100] by simp

section \<open>The report\<close>

lemma real_u32_less: "real (unat (n :: u32)) < 2 ^ 32"
  using of_nat_less_iff [where 'a = real, THEN iffD2, OF unsigned_less [of n, where 'a = nat]] by simp

lemma quotient_bound:
  assumes "0 < d" and "d \<le> dreal y" and "dreal x \<le> b"
  shows "dreal (dbl_div x y) \<le> 2 * (b / d)"
proof -
  have "dreal x / dreal y \<le> b / d" using assms order_trans [OF dreal_nonneg assms(3)] by (intro frac_le) simp_all
  moreover have "dreal (dbl_div x y) \<le> dreal x / dreal y * (1 + 1 / 2 ^ 53)"
    using within [of "dreal (dbl_div x y)" "dreal x / dreal y" "1 / 2 ^ 53"] dbl_div_error [of y x] assms(1,2) by simp
  moreover have "dreal x / dreal y * (1 + 1 / 2 ^ 53) \<le> dreal x / dreal y * 2" by (intro mult_left_mono) simp_all
  ultimately show ?thesis by linarith
qed

lemma per_mhz_bound: "dreal (coremark_per_mhz n c) \<le> real (10 ^ 17)"
proof (cases "0 < fst (mhz_cycles c)")
  case True
  then have "c \<noteq> 0" by (auto simp: mhz_cycles_def dbl_of_u64_def to_double_def dbl_div_def dbl_frac_def split: prod.splits)
  from quotient_bound [OF _ mhz_pos [OF this], of "to_double (unat n) 1" "2 ^ 32"] real_u32_less [of n] True show ?thesis
    by (simp add: coremark_per_mhz_def)
qed (simp add: coremark_per_mhz_def)

lemma per_sec_bound: "dreal (iterations_per_sec n w) \<le> real (10 ^ 17)"
proof (cases "0 < fst (dbl_of_u64 w)")
  case True
  then have "w \<noteq> 0" by (auto simp: dbl_of_u64_def to_double_def)
  let ?x = "dbl_mul (to_double (unat n) 1) million"
  have "\<bar>dreal ?x - real (unat n) * 1000000\<bar> \<le> real (unat n) * 1000000 * (1 / 2 ^ 53)"
    using dbl_mul_error [of "to_double (unat n) 1" million] by simp
  then have "dreal ?x \<le> real (unat n) * 1000000 * (1 + 1 / 2 ^ 53)" using within by blast
  also have "\<dots> \<le> 2 ^ 32 * 1000000 * (1 + 1 / 2 ^ 53)" using real_u32_less [of n] by (intro mult_right_mono) simp_all
  finally show ?thesis
    using quotient_bound [OF _ dbl_of_u64_pos [OF \<open>w \<noteq> 0\<close>], of ?x "2 ^ 32 * 1000000 * (1 + 1 / 2 ^ 53)"] True by (simp add: iterations_per_sec_def)
qed (simp add: iterations_per_sec_def)

lemma wall_bound: "dreal (dbl_of_u64 w) \<le> real (10 ^ 20)"
proof -
  have "real (unat w) < 2 ^ 64" using of_nat_less_iff [where 'a = real, THEN iffD2, OF unsigned_less [of w, where 'a = nat]] by simp
  then show ?thesis using abs_le_D1 [OF dbl_of_u64_error [of w]] by simp
qed

lemma length_host_features: "length (host_feature_string mac) \<le> 40"
  by (simp add: host_feature_string_def host_isa_def)

lemma length_c_string: "length (c_string s) \<le> length s"
  by (simp add: c_string_def length_takeWhile_le)

lemma length_pass_fail [simp]: "length (pass_fail b) = 4"
  by (simp add: pass_fail_def)

lemma report_fits:
  assumes "length (cm_target_name r) \<le> 600"
  shows "coremark_report (coremark_figures mac wall r) = coremark_text (coremark_figures mac wall r)"
proof -
  let ?r = "coremark_figures mac wall r"
  have "length (c_string (cm_target_name r)) \<le> 600" "length (c_string (host_feature_string mac)) \<le> 40"
    using length_c_string assms length_host_features order_trans by blast+
  moreover have "length (fmt_f 1 (dbl_of_u64 wall)) \<le> 23" using length_fmt_f [OF wall_bound, of 20 1] by simp
  moreover have "length (fmt_f 1 (iterations_per_sec (cm_iterations r) wall)) \<le> 20" using length_fmt_f [OF per_sec_bound, of 17 1] by simp
  moreover have "length (fmt_f 3 (coremark_per_mhz (cm_iterations r) (cm_total_cycles r))) \<le> 22" using length_fmt_f [OF per_mhz_bound, of 17 3] by simp
  moreover note length_u32_text [of "cm_iterations r"] length_u64_text [of "cm_total_cycles r"] length_u64_text [of "cm_total_instrs r"]
  ultimately have "length (coremark_text ?r) \<le> 1023"
    unfolding coremark_text_def coremark_figures_def cm_result.defs cm_report.defs by (simp only: length_append) simp
  then show ?thesis by (simp add: coremark_report_def snprintf_fits)
qed

lemma coremark_report_ok:
  assumes "cm_fresh m k s" and "0x1080 \<le> m" and "0x80 \<le> k" and "length a = 16" and "length b = 16"
    and "length (target_name (e_target s)) \<le> 600"
  shows "\<exists>r s' out. coremark_main h mac wall 34 n use_fast (Some a) (Some b) s = Some (Ok r, s')
     \<and> cm_iterations r = n \<and> coremark_report r = coremark_text r
     \<and> coremark_report r = out @ ''  checks: list=PASS matrix=PASS crc=PASS  OVERALL PASS'' @ newline"
proof -
  from coremark_passes [OF assms(1-5), of h n use_fast] obtain r s' where
    r: "coremark_run h 34 n use_fast (Some a) (Some b) s = Some (Ok r, s')" "cm_iterations r = n"
    "cm_list_ok r" "cm_matrix_ok r" "cm_crc_ok r" "cm_target_name r = target_name (e_target s)" by blast
  let ?r = "coremark_figures mac wall r"
  have "coremark_report ?r = coremark_text ?r" using report_fits r(6) assms(6) by simp
  moreover have "\<exists>out. coremark_text ?r = out @ ''  checks: list=PASS matrix=PASS crc=PASS  OVERALL PASS'' @ newline"
    unfolding coremark_text_def append_assoc [symmetric]
    using r(3-5) by (simp add: coremark_figures_def cm_result.defs cm_report.defs pass_fail_def)
  ultimately show ?thesis
    using r(1,2) by (auto simp: coremark_main_def coremark_figures_def cm_result.defs cm_report.defs)
qed

text \<open>
  C17. The benchmark reports success: on a new or reset machine of sufficient size whose target has
  a name of at most 600 characters, for every number of iterations, in both modes, on every host and
  however long it takes, \<open>coremark::run\<close> returns without an exception, and the report buffer
  holds the complete text, whose last line says that all three checks pass.
\<close>

theorem coremark_report_passes:
  assumes "cm_fresh m k s" and "0x1080 \<le> m" and "0x80 \<le> k" and "length a = 16" and "length b = 16"
    and "length (target_name (e_target s)) \<le> 600"
  shows "\<exists>r s' out. coremark_main h mac wall 34 n use_fast (Some a) (Some b) s = Some (Ok r, s')
     \<and> cm_iterations r = n \<and> coremark_report r = coremark_text r
     \<and> coremark_report r = out @ ''  checks: list=PASS matrix=PASS crc=PASS  OVERALL PASS'' @ newline"
  by (rule coremark_report_ok [OF assms])

theorem coremark_report_passes_witness:
  "\<forall>mac. \<exists>r s' out. coremark_main demo_host mac 1500 34 100 True (Some identity_matrix) (Some counting_matrix) new_emulator = Some (Ok r, s')
     \<and> coremark_report r = out @ ''  checks: list=PASS matrix=PASS crc=PASS  OVERALL PASS'' @ newline"
proof
  fix mac
  have "length (target_name (e_target new_emulator)) \<le> 600" by (simp add: new_emulator_def emu_new_def make_asic_profile_def)
  from coremark_report_passes [OF new_fresh _ _ length_matrices this, of demo_host mac 1500 100 True]
  show "\<exists>r s' out. coremark_main demo_host mac 1500 34 100 True (Some identity_matrix) (Some counting_matrix) new_emulator = Some (Ok r, s')
     \<and> coremark_report r = out @ ''  checks: list=PASS matrix=PASS crc=PASS  OVERALL PASS'' @ newline" by auto
qed

end
