(* ===== verification/Session.thy ===== *)
theory Session
  imports Cli
begin

text \<open>
  The two debugging sessions of \<^verbatim>\<open>src/main.cpp\<close>: stepping a verbose machine to a breakpoint and
  going on, and running to a breakpoint, saving and restoring the state, and going on. They
  compose the debugger, the run loop and the state snapshot. \<open>rom_stop\<close> executes a program
  symbolically up to a breakpoint; \<open>run_loop_to_break\<close> transfers the result to the run loop.
\<close>

section \<open>The sessions\<close>

fun step_to_break :: "host_env \<Rightarrow> u32 \<Rightarrow> nat \<Rightarrow> emu \<Rightarrow> (unit res \<times> emu) option" where
  "step_to_break h bp n s =
     (if halt (e_regs s) then Some (Ok (), s)
      else case n of
        0 \<Rightarrow> None
      | Suc k \<Rightarrow> (case step h s of
            (Ok _, s') \<Rightarrow> if dbg_has_breakpoint (pc (e_regs s')) (e_debugger s')
               then Some (Ok (), s'\<lparr>e_debugger := dbg_remove_breakpoint bp (e_debugger s')\<rparr>)
               else step_to_break h bp k s'
          | (Err e, s') \<Rightarrow> Some (Err e, s')
          | (Undef, s') \<Rightarrow> Some (Undef, s')))"

declare step_to_break.simps [simp del]

definition and_then :: "(unit res \<times> emu) option \<Rightarrow> (emu \<Rightarrow> ('a res \<times> emu) option) \<Rightarrow> ('a res \<times> emu) option" where
  "and_then r f = (case r of None \<Rightarrow> None
     | Some (Ok _, s) \<Rightarrow> f s | Some (Err e, s) \<Rightarrow> Some (Err e, s) | Some (Undef, s) \<Rightarrow> Some (Undef, s))"

definition break_session :: "host_env \<Rightarrow> nat \<Rightarrow> (u32 res \<times> emu) option" where
  "break_session h fuel = and_then (Some (demo_load new_emulator)) (\<lambda>s.
     let s1 = set_verbose True s; s2 = s1\<lparr>e_debugger := dbg_add_breakpoint 0x10 (e_debugger s1)\<rparr>
     in and_then (step_to_break h 0x10 fuel s2) (\<lambda>s3.
        and_then (run h fuel s3) (\<lambda>s4. Some (rd_gpr 3 s4))))"

text \<open>The result: the saved and the final \<open>pc\<close> and \<open>r3\<close>, and whether the machine has halted.\<close>

definition state_session :: "host_env \<Rightarrow> nat \<Rightarrow> ((u32 \<times> u32 \<times> u32 \<times> u32 \<times> bool) res \<times> emu) option" where
  "state_session h fuel = and_then (Some (demo_load new_emulator)) (\<lambda>s.
     and_then (run h fuel (s\<lparr>e_debugger := dbg_add_breakpoint 0x2C (e_debugger s)\<rparr>)) (\<lambda>s1.
       case rd_gpr 3 s1 of
         (Ok saved_r3, s2) \<Rightarrow>
           let saved_pc = pc (e_regs s2); s3 = restore_state (save_state s2) s2;
               s4 = s3\<lparr>e_debugger := dbg_remove_breakpoint 0x2C (e_debugger s3)\<rparr>
           in and_then (run h fuel s4) (\<lambda>s5. Some (bind (rd_gpr 3) (\<lambda>r3. gets (\<lambda>s.
                (saved_pc, saved_r3, pc (e_regs s), r3, halt (e_regs s)))) s5))
       | (Err e, s2) \<Rightarrow> Some (Err e, s2)
       | (Undef, s2) \<Rightarrow> Some (Undef, s2)))"

section \<open>Symbolic execution to a breakpoint\<close>

definition rom_step :: "fpu \<Rightarrow> nat \<Rightarrow> u32 list \<Rightarrow> arch \<Rightarrow> arch option" where
  "rom_step fp t ws A = (let i = unat (a_pc A) div 4; w = \<lparr>raw = ws ! i\<rparr> in
     if 4 * i = unat (a_pc A) \<and> i < length ws \<and> operands_ok (instr_opcode w) w (advance A)
     then (case isa_exec fp (instr_opcode w) w (advance A) of
         Some B \<Rightarrow> if take t (a_mem B) = take t (a_mem A) then Some B else None
       | None \<Rightarrow> None)
     else None)"

lemma rom_step_ok:
  assumes "rom_step fp t ws A = Some A1" and "\<not> a_halt A" and "holds_text t ws A"
  shows "isa_ready A" and "isa_step fp A = Some A1" and "holds_text t ws A1"
proof -
  let ?i = "unat (a_pc A) div 4"
  let ?w = "\<lparr>raw = ws ! ?i\<rparr>"
  from assms(1) have i: "4 * ?i = unat (a_pc A)" "?i < length ws"
    and ops: "operands_ok (instr_opcode ?w) ?w (advance A)"
    and ex: "isa_exec fp (instr_opcode ?w) ?w (advance A) = Some A1"
    and tk: "take t (a_mem A1) = take t (a_mem A)"
    by (auto simp: rom_step_def Let_def split: if_splits option.splits)
  note f = holds_text_fetch [OF assms(3) i]
  show "isa_ready A" using f ops by (simp add: isa_ready_def advance_def)
  show "isa_step fp A = Some A1" using f ex assms(2) by (simp add: isa_step_def advance_def)
  show "holds_text t ws A1" by (rule holds_text_keep [OF assms(3) tk])
qed

text \<open>Execution up to the address \<open>bp\<close>; a machine that halts first has no result.\<close>

fun rom_stop :: "fpu \<Rightarrow> nat \<Rightarrow> u32 list \<Rightarrow> u32 \<Rightarrow> nat \<Rightarrow> arch \<Rightarrow> arch option" where
  "rom_stop fp t ws bp 0 A = (if a_pc A = bp then Some A else None)"
| "rom_stop fp t ws bp (Suc n) A =
    (if a_pc A = bp then Some A else if a_halt A then None
     else case rom_step fp t ws A of Some B \<Rightarrow> rom_stop fp t ws bp n B | None \<Rightarrow> None)"

declare rom_stop.simps(2) [simp del]

lemma rom_stop_numeral:
  "rom_stop fp t ws bp (numeral k) A =
    (if a_pc A = bp then Some A else if a_halt A then None
     else case rom_step fp t ws A of Some B \<Rightarrow> rom_stop fp t ws bp (pred_numeral k) B | None \<Rightarrow> None)"
  by (simp add: numeral_eq_Suc rom_stop.simps(2))

lemma machine_step:
  assumes "emu_inv m k s" and "quiet s" and "holds_text t ws (arch_of s)" and "\<not> halt (e_regs s)"
    and "rom_step (h_fpu h) t ws (arch_of s) = Some A1"
  obtains s1 where "step h s = (Ok (), s1)" "arch_of s1 = A1" "frame s s1" "emu_inv m k s1" "quiet s1" "holds_text t ws A1"
proof -
  have nh: "\<not> a_halt (arch_of s)" using assms(4) by (simp add: arch_of_def)
  note r = rom_step_ok [OF assms(5) nh assms(3)]
  from step_implements [OF assms(1,2) r(1) assms(4), of h] r(2) obtain s1 where
    s1: "step h s = (Ok (), s1)" "arch_of s1 = A1" "frame s s1" by auto
  have "emu_inv m k s1" using preservesD [OF pres_step assms(1), of h] s1(1) by simp
  then show ?thesis by (rule that [OF s1 _ quiet_frame [OF s1(3) assms(2)] r(3)])
qed

text \<open>The run loop stops at the breakpoint where the symbolic execution does.\<close>

lemma run_loop_to_break:
  assumes "rom_stop (h_fpu h) t ws bp n (arch_of s) = Some B" and "emu_inv m k s" and "quiet s"
    and "holds_text t ws (arch_of s)" and "breakpoints (e_debugger s) = {bp}"
  shows "\<exists>s'. run_loop h n s = Some (Ok (), s') \<and> arch_of s' = B \<and> frame s s' \<and> emu_inv m k s' \<and> holds_text t ws B"
  using assms(1-5)
proof (induction n arbitrary: s)
  case 0
  then show ?case by (auto simp: run_loop.simps [of h 0] stopped_def dbg_has_breakpoint_def arch_of_def split: if_splits)
next
  case (Suc n)
  show ?case
  proof (cases "a_pc (arch_of s) = bp")
    case True
    with Suc.prems show ?thesis
      by (auto simp: run_loop.simps [of h "Suc n"] stopped_def dbg_has_breakpoint_def arch_of_def rom_stop.simps(2))
  next
    case False
    with Suc.prems(1) obtain A1 where nh: "\<not> a_halt (arch_of s)" and A1: "rom_step (h_fpu h) t ws (arch_of s) = Some A1"
      "rom_stop (h_fpu h) t ws bp n A1 = Some B"
      by (auto simp: rom_stop.simps(2) split: if_splits option.splits)
    have nh': "\<not> halt (e_regs s)" using nh by (simp add: arch_of_def)
    obtain s1 where s1: "step h s = (Ok (), s1)" "arch_of s1 = A1" "frame s s1" "emu_inv m k s1" "quiet s1" "holds_text t ws A1"
      by (rule machine_step [OF Suc.prems(2,3,4) nh' A1(1)])
    have "breakpoints (e_debugger s1) = {bp}" using s1(3) Suc.prems(5) by (simp add: frame_def)
    with Suc.IH [of s1] A1(2) s1 obtain s' where "run_loop h n s1 = Some (Ok (), s')" "arch_of s' = B" "frame s1 s'"
      "emu_inv m k s'" "holds_text t ws B" by auto
    moreover have "\<not> stopped s" using nh' False Suc.prems(5) by (simp add: stopped_def dbg_has_breakpoint_def arch_of_def)
    ultimately show ?thesis using s1(1,3) frame_trans by (auto simp: run_loop.simps [of h "Suc n"])
  qed
qed

lemma step_to_break_ok:
  assumes "rom_stop (h_fpu h) t ws bp n (arch_of s) = Some B" and "a_pc (arch_of s) \<noteq> bp" and "emu_inv m k s" and "quiet s"
    and "holds_text t ws (arch_of s)" and "breakpoints (e_debugger s) = {bp}"
  shows "\<exists>s'. step_to_break h bp n s = Some (Ok (), s') \<and> arch_of s' = B \<and> emu_inv m k s' \<and> quiet s'
    \<and> breakpoints (e_debugger s') = {} \<and> holds_text t ws B"
  using assms
proof (induction n arbitrary: s)
  case (Suc n)
  from Suc.prems(1,2) obtain A1 where nh: "\<not> a_halt (arch_of s)" and A1: "rom_step (h_fpu h) t ws (arch_of s) = Some A1"
    "rom_stop (h_fpu h) t ws bp n A1 = Some B"
    by (auto simp: rom_stop.simps(2) split: if_splits option.splits)
  have nh': "\<not> halt (e_regs s)" using nh by (simp add: arch_of_def)
  obtain s1 where s1: "step h s = (Ok (), s1)" "arch_of s1 = A1" "frame s s1" "emu_inv m k s1" "quiet s1" "holds_text t ws A1"
    by (rule machine_step [OF Suc.prems(3,4,5) nh' A1(1)])
  have bp: "breakpoints (e_debugger s1) = {bp}" using s1(3) Suc.prems(6) by (simp add: frame_def)
  have pc1: "pc (e_regs s1) = a_pc A1" using s1(2) by (auto simp: arch_of_def)
  show ?case
  proof (cases "a_pc A1 = bp")
    case True
    then have "B = A1" using A1(2) by (cases n) (simp_all add: rom_stop.simps(2))
    let ?s2 = "s1\<lparr>e_debugger := dbg_remove_breakpoint bp (e_debugger s1)\<rparr>"
    have "emu_inv m k ?s2" by (rule inv_config(5) [OF s1(4)])
    moreover have "quiet ?s2" "arch_of ?s2 = A1" using s1(2,5) by (simp_all add: quiet_def arch_of_def)
    ultimately show ?thesis using True nh' s1(1,6) bp pc1 \<open>B = A1\<close>
      by (subst step_to_break.simps) (simp add: dbg_has_breakpoint_def dbg_remove_breakpoint_def)
  next
    case False
    with Suc.IH [of s1] A1(2) s1 bp nh' pc1 show ?thesis
      by (subst step_to_break.simps) (simp add: dbg_has_breakpoint_def)
  qed
qed simp

lemmas rom_stop_one = rom_stop.simps(2) [of _ _ _ _ 0]

lemmas stop_exec = rom_stop_numeral rom_stop_one rom_step_def main_words enc_dma_store_fields enc_dma_store_func sym_exec

lemma main_breaks:
  assumes "0x1080 \<le> length m" and "0x2040 \<le> length d" and "length (V 3) = 16"
    and "A = \<lparr>a_gpr = g0, a_vr = V, a_pc = 0, a_halt = False, a_flags = f0, a_mem = m, a_dram = d\<rparr>"
  shows "\<exists>B C. rom_stop fp 128 main_program 0x2C 23 A = Some B \<and> a_pc B = 0x2C \<and> a_gpr B 3 = 15
      \<and> rom_run fp 128 main_program 23 B = Some C \<and> a_halt C \<and> a_gpr C 3 = 15 \<and> a_pc C = 0x54"
    and "\<exists>B C. rom_stop fp 128 main_program 0x10 29 A = Some B
      \<and> rom_run fp 128 main_program 29 B = Some C \<and> a_halt C \<and> a_gpr C 3 = 15"
  using assms by (simp_all add: stop_exec matmul_ref_product buffers)

text \<open>The loaded machine, with a breakpoint set.\<close>

lemma demo_armed:
  assumes "cm_fresh m k s" and "0x1080 \<le> m" and "take (4 * length main_program) (sram_data (e_scratchpad s)) = bytes_of_words main_program"
    and s'_def: "s' = (set_verbose v s)\<lparr>e_debugger := dbg_add_breakpoint bp (e_debugger s)\<rparr>"
  shows "emu_inv m k s'" and "quiet s'" and "holds_text 128 main_program (arch_of s')" and "breakpoints (e_debugger s') = {bp}"
    and "arch_of s' = arch_of s" and "\<not> halt (e_regs s')" and "a_pc (arch_of s) = 0"
proof -
  have fr: "emu_inv m k s" "quiet s" "breakpoints (e_debugger s) = {}" "pc (e_regs s) = 0" "\<not> halt (e_regs s)"
    using assms(1) by (simp_all add: cm_fresh_def fast_ok_def)
  show "emu_inv m k s'" unfolding s'_def by (rule inv_config(5) [OF inv_config(1) [OF fr(1)]])
  show "quiet s'" "breakpoints (e_debugger s') = {bp}" "arch_of s' = arch_of s" "\<not> halt (e_regs s')" "a_pc (arch_of s) = 0"
    using fr by (simp_all add: s'_def quiet_def set_verbose_def dbg_add_breakpoint_def arch_of_def)
  then show "holds_text 128 main_program (arch_of s')"
    using assms(2,3) cm_fresh_sizes(1) [OF assms(1)] by (simp add: holds_text_def MMIO_BASE_def main_words)
qed

lemma loaded_demo:
  obtains s where "demo_load new_emulator = (Ok (), s)" "cm_fresh 67108864 67108864 s"
    "take (4 * length main_program) (sram_data (e_scratchpad s)) = bytes_of_words main_program"
  by (rule demo_load_ok [OF new_fresh]) simp_all

lemma loaded_breaks:
  assumes "cm_fresh 67108864 67108864 s"
  shows "\<exists>B C. rom_stop fp 128 main_program 0x2C 23 (arch_of s) = Some B \<and> a_pc B = 0x2C \<and> a_gpr B 3 = 15
      \<and> rom_run fp 128 main_program 23 B = Some C \<and> a_halt C \<and> a_gpr C 3 = 15 \<and> a_pc C = 0x54"
    and "\<exists>B C. rom_stop fp 128 main_program 0x10 29 (arch_of s) = Some B
      \<and> rom_run fp 128 main_program 29 B = Some C \<and> a_halt C \<and> a_gpr C 3 = 15"
  using main_breaks [of "sram_data (e_scratchpad s)" "ram_data (e_main_ram s)" "vrs (vr (e_regs s))" "arch_of s"
      "gprs (gpr (e_regs s))" "flags_of (status (e_regs s))" fp] cm_fresh_vr [OF assms] cm_fresh_sizes [OF assms] assms
  by (auto simp: arch_of_def cm_fresh_def)

section \<open>Properties\<close>

text \<open>
  Stepping to a breakpoint and going on changes nothing: the verbose machine stops at the loop
  entry \<open>0x10\<close>, and after the breakpoint has been removed \<open>run\<close> takes it to the \<open>HALT\<close> with 15 in
  \<open>r3\<close>, as an undisturbed run does.
\<close>

theorem break_session_correct: "\<exists>s'. break_session h 29 = Some (Ok 15, s') \<and> halt (e_regs s')"
proof -
  obtain s where s: "demo_load new_emulator = (Ok (), s)" "cm_fresh 67108864 67108864 s"
    "take (4 * length main_program) (sram_data (e_scratchpad s)) = bytes_of_words main_program" by (rule loaded_demo)
  let ?s = "(set_verbose True s)\<lparr>e_debugger := dbg_add_breakpoint 0x10 (e_debugger s)\<rparr>"
  have m: "0x1080 \<le> (67108864 :: nat)" by simp
  note a = demo_armed [where v = True and bp = "0x10", OF s(2) m s(3) refl]
  from loaded_breaks(2) [OF s(2), of "h_fpu h"] obtain B C where
    B: "rom_stop (h_fpu h) 128 main_program 0x10 29 (arch_of s) = Some B"
    "rom_run (h_fpu h) 128 main_program 29 B = Some C" "a_halt C" "a_gpr C 3 = 15" by blast
  from step_to_break_ok [of h 128 main_program "0x10" 29 ?s B, OF _ _ a(1-4)] B(1) a(5,7) obtain s1 where
    s1: "step_to_break h 0x10 29 ?s = Some (Ok (), s1)" "arch_of s1 = B" "emu_inv 67108864 67108864 s1" "quiet s1"
    "breakpoints (e_debugger s1) = {}" "holds_text 128 main_program B" by auto
  from rom_run_interp [OF s1(3,4,5), of 128 main_program h 29 C] s1(2,6) B(2) obtain s2 where
    s2: "run h 29 s1 = Some (Ok (), s2)" "arch_of s2 = C" "emu_inv 67108864 67108864 s2" by auto
  have "rd_gpr 3 s2 = (Ok 15, s2)" using rd_gpr_of_arch [OF s2(3), of 15] s2(2) B(4) by simp
  moreover have "halt (e_regs s2)" using s2(2) B(3) by (auto simp: arch_of_def)
  moreover have "e_debugger (set_verbose True s) = e_debugger s" by (simp add: set_verbose_def)
  ultimately show ?thesis using s(1) s1(1) s2(1) by (simp add: break_session_def and_then_def Let_def)
qed

lemma restore_own_state:
  assumes "emu_inv m k s"
  shows "restore_state (save_state s) s = s"
proof -
  have "gpr (e_regs s) ! 0 = 0" using assms by (simp add: inv_defs wf_regs_def)
  then have "(gpr (e_regs s))[0 := 0] = gpr (e_regs s)" by (metis list_update_id)
  then show ?thesis by (simp add: save_state_def restore_state_def profiler_restore_save)
qed

text \<open>
  C22. The state serialisation test matches: the run stops before the instruction at the
  breakpoint \<open>0x2C\<close> with \<open>r3 = 15\<close>, and after saving, restoring and removing the breakpoint it
  goes on to the \<open>HALT\<close>, the machine has halted and \<open>r3\<close> is what was saved.
\<close>

theorem state_session_matches: "\<exists>s'. state_session h 23 = Some (Ok (0x2C, 15, 0x54, 15, True), s')"
proof -
  obtain s where s: "demo_load new_emulator = (Ok (), s)" "cm_fresh 67108864 67108864 s"
    "take (4 * length main_program) (sram_data (e_scratchpad s)) = bytes_of_words main_program" by (rule loaded_demo)
  have same: "set_verbose False s = s" using s(2) by (simp add: set_verbose_def cm_fresh_def fast_ok_def)
  let ?s = "s\<lparr>e_debugger := dbg_add_breakpoint 0x2C (e_debugger s)\<rparr>"
  have m: "0x1080 \<le> (67108864 :: nat)" by simp
  note a = demo_armed [where v = False and bp = "0x2C", OF s(2) m s(3) refl, unfolded same]
  from loaded_breaks(1) [OF s(2), of "h_fpu h"] obtain B C where
    B: "rom_stop (h_fpu h) 128 main_program 0x2C 23 (arch_of s) = Some B" "a_pc B = 0x2C" "a_gpr B 3 = 15"
    "rom_run (h_fpu h) 128 main_program 23 B = Some C" "a_halt C" "a_gpr C 3 = 15" "a_pc C = 0x54" by blast
  from run_loop_to_break [of h 128 main_program "0x2C" 23 ?s B, OF _ a(1-4)] B(1) a(5) obtain s0 where
    s0: "run_loop h 23 ?s = Some (Ok (), s0)" "arch_of s0 = B" "frame ?s s0" "holds_text 128 main_program B" by auto
  then obtain s1 where s1: "run h 23 ?s = Some (Ok (), s1)" "arch_of s1 = B" "frame ?s s1"
    by (simp add: run_def flush_uart_def frame_def)
  have inv1: "emu_inv 67108864 67108864 s1" using run_inv [OF a(1) s1(1)] by simp
  have r1: "rd_gpr 3 s1 = (Ok 15, s1)" using rd_gpr_of_arch [OF inv1, of 15] s1(2) B(3) by simp
  let ?s2 = "s1\<lparr>e_debugger := dbg_remove_breakpoint 0x2C (e_debugger s1)\<rparr>"
  have s2: "emu_inv 67108864 67108864 ?s2" "quiet ?s2" "breakpoints (e_debugger ?s2) = {}" "arch_of ?s2 = B"
    using inv_config(5) [OF inv1] quiet_frame [OF s1(3) a(2)] s1(2,3) a(4)
    by (simp_all add: quiet_def dbg_remove_breakpoint_def arch_of_def frame_def)
  from rom_run_interp [OF s2(1-3), of 128 main_program h 23 C] s2(4) s0(4) B(4) obtain s3 where
    s3: "run h 23 ?s2 = Some (Ok (), s3)" "arch_of s3 = C" "emu_inv 67108864 67108864 s3" by auto
  have "rd_gpr 3 s3 = (Ok 15, s3)" using rd_gpr_of_arch [OF s3(3), of 15] s3(2) B(6) by simp
  moreover have "halt (e_regs s3)" "pc (e_regs s3) = 0x54" using s3(2) B(5,7) by (auto simp: arch_of_def)
  moreover have "pc (e_regs s1) = 0x2C" using s1(2) B(2) by (auto simp: arch_of_def)
  ultimately show ?thesis using s(1) s1(1) r1 s3(1) restore_own_state [OF inv1]
    by (simp add: state_session_def and_then_def Let_def bind_def)
qed

end
