(* ===== verification/Demos.thy ===== *)
theory Demos
  imports Score Session
begin

text \<open>
  What \<^verbatim>\<open>src/main.cpp\<close> prints when it is called without arguments: the checks of the demonstration
  program; the demonstrations of single components: peripherals on the
  bus, decoders, CSRs, MMU, interconnect, traps, timing, deterministic clock, checkpoints,
  pipeline, caches, warps and systolic array, tracing, transactions, FPGA, counters, debugger
  stub; then the sample sources and the benchmark suite. Each definition makes the calls of the
  source in order and returns the text that is printed; an exception or undefined behaviour on
  the way would be the result instead. Whether a file can be written, the contents of the sample
  sources and the wall-clock times are arguments.
\<close>

section \<open>The program of the demonstration\<close>

text \<open>
  The comparisons of floating-point numbers: \<open>far x y\<close> stands for \<open>std::abs(x - y) > 1e-3f\<close> in
  the arithmetic of the host; \<open>x != y\<close> is decided on the bits, where NaN differs from
  everything and the two zeros are equal.
\<close>

definition float_nan :: "f32 \<Rightarrow> bool" where
  "float_nan w \<longleftrightarrow> \<not> float_finite w \<and> w AND 0x7FFFFF \<noteq> 0"

definition float_ne :: "f32 \<Rightarrow> f32 \<Rightarrow> bool" where
  "float_ne x y \<longleftrightarrow> float_nan x \<or> float_nan y \<or> (x \<noteq> y \<and> \<not> (x AND 0x7FFFFFFF = 0 \<and> y AND 0x7FFFFFFF = 0))"

definition close_to_b :: "(f32 \<Rightarrow> f32 \<Rightarrow> bool) \<Rightarrow> f32 list \<Rightarrow> bool" where
  "close_to_b far res = list_all2 (\<lambda>x y. \<not> far x y) res counting_matrix"

definition matmul_lines :: "f32 list \<Rightarrow> string" where
  "matmul_lines res = concat (map (\<lambda>i. concat (map (\<lambda>j. ''  '' @ fmt_61f (res ! (i * 4 + j))) [0..<4]) @ newline) [0..<4])"

definition verify_text :: "(f32 \<Rightarrow> f32 \<Rightarrow> bool) \<Rightarrow> string \<Rightarrow> string emu_op" where
  "verify_text far dis = bind demo_result (\<lambda>(r3, res).
     bind (lift_res (\<lambda>s. sram_read_bytes (e_scratchpad s) SCRATCH_A 64)) (\<lambda>_. gets (\<lambda>s.
       ''=== Program Disassembly ('' @ fmt_u (length main_program) @ '' instructions) ==='' @ newline @ c_string dis @ newline
       @ ''=== Running (silent) ==='' @ newline @ ''Execution halted at PC=0x'' @ fmt_08X (pc (e_regs s)) @ newline @ newline
       @ ''=== Verification ==='' @ newline @ ''r3 (scalar sum) = '' @ u32_text r3 @ ''  (expected 15)  '' @ pass_fail (r3 = 15) @ newline
       @ ''Matmul result (identity * B = B):'' @ newline @ matmul_lines res
       @ ''MATMUL correct: '' @ pass_fail (close_to_b far res) @ newline
       @ newline @ c_string (profiler_report (e_profiler s)))))"

definition verify_demo :: "host_env \<Rightarrow> (f32 \<Rightarrow> f32 \<Rightarrow> bool) \<Rightarrow> nat \<Rightarrow> (string res \<times> emu) option" where
  "verify_demo h far fuel = and_then (Some (demo_load new_emulator)) (\<lambda>s.
     case disassemble_range (e_scratchpad s) 0 (of_nat (length main_program)) of
       Ok dis \<Rightarrow> and_then (run h fuel s) (\<lambda>s2. Some (verify_text far dis s2))
     | Err e \<Rightarrow> Some (Err e, s)
     | Undef \<Rightarrow> Some (Undef, s))"

definition host_demo :: "host_macros \<Rightarrow> emu \<Rightarrow> string" where
  "host_demo mac s = ''Host ISA: '' @ host_feature_string mac @ newline
     @ ''Acceleration: '' @ (if 0 \<le> fst (bc_hit_rate (e_block_cache s)) then ''enabled (host SIMD)'' else ''enabled'') @ newline"

definition bench_demo :: "host_env \<Rightarrow> (f32 \<Rightarrow> f32 \<Rightarrow> bool) \<Rightarrow> nat \<Rightarrow> u64 \<Rightarrow> string \<Rightarrow> target_profile \<Rightarrow> string res option" where
  "bench_demo h far fuel us label prof = map_option (\<lambda>(r, s). map_res (\<lambda>(_, res).
     pad_right 14 (CHR '' '') label @ '' cycles='' @ pad_right 4 (CHR '' '') (u64_text (cycle_count (e_profiler s)))
     @ ''  wall='' @ pad_left 4 (CHR '' '') (u64_text us) @ '' us  hit_rate='' @ fmt_f 1 (percent (bc_hit_rate (e_block_cache s)))
     @ ''%  '' @ (if close_to_b far res then ''PASS (bit-identical)'' else ''FAIL'') @ newline) r) (bench_target h fuel prof)"

definition accuracy_demo :: "host_env \<Rightarrow> nat \<Rightarrow> string res option" where
  "accuracy_demo h fuel = (case accuracy_ref h fuel of
     None \<Rightarrow> None
   | Some (r1, _) \<Rightarrow> map_option (\<lambda>(r2, _). bind_res r1 (\<lambda>(_, a). map_res (\<lambda>(_, b).
       ''Host accel vs scalar: '' @ pass_fail (list_all2 (\<lambda>x y. \<not> float_ne x y) a b) @ '' (FP32 bit-identical)'' @ newline) r2))
       (accuracy_fast h fuel))"

section \<open>Peripherals\<close>

definition uart_tx_addr :: u32 where "uart_tx_addr = MMIO_BASE + UART_BASE + UART_TX"

fun uart_send :: "u8 list \<Rightarrow> unit emu_op" where
  "uart_send [] = ret ()"
| "uart_send (c # cs) = bind (emu_bus_write32 uart_tx_addr (ucast c)) (\<lambda>_. uart_send cs)"

definition novium_msg :: "u8 list" where
  "novium_msg = map of_char ''Novium''"

definition mmio_demo :: "string emu_op" where
  "mmio_demo = bind (uart_send novium_msg) (\<lambda>_.
     bind (emu_bus_write32 uart_tx_addr 10) (\<lambda>_.
     bind (emu_bus_write32 (MMIO_BASE + TIMER_LIMIT) 500) (\<lambda>_.
     bind (emu_bus_write32 (MMIO_BASE + TIMER_CTRL) 1) (\<lambda>_.
     bind (emu_bus_read32 (MMIO_BASE + TIMER_LIMIT)) (\<lambda>limit.
     bind (emu_bus_read32 (MMIO_BASE + TIMER_CTRL)) (\<lambda>ctrl.
     ret (''Timer configured: limit=500, running'' @ newline
       @ ''Timer readback: limit='' @ u32_text limit @ '', ctrl='' @ u32_text ctrl @ newline)))))))"

section \<open>Architectural state\<close>

text \<open>\<open>out\<close> after a decoder: the words pushed. The disassembly of the first one, or nothing.\<close>

definition decoded_words :: "u32 list option \<Rightarrow> u32 list" where
  "decoded_words r = (case r of Some ws \<Rightarrow> ws | None \<Rightarrow> [])"

definition first_disasm :: "u32 list \<Rightarrow> string \<Rightarrow> string" where
  "first_disasm ws dflt = (case ws of [] \<Rightarrow> dflt | w # _ \<Rightarrow> disassemble \<lparr>raw = w\<rparr>)"

definition decoder_demo :: string where
  "decoder_demo =
    (let rv = translate_one_riscv 0x003100B3; out1 = decoded_words rv;
         out2 = decoded_words (translate_one_arm64 0x8B030021);
         out3 = decoded_words (translate_one_ptx ''add.f32 %f3, %f1, %f2;'')
     in ''Decoder RISCV add x1,x2,x3'' @ arrow @ first_disasm out1 [] @ '' ('' @ fmt_u (length out1) @ '' op) ''
          @ pass_fail (rv \<noteq> None) @ newline
        @ ''Decoder ARM64'' @ arrow @ fmt_u (length out2) @ '' op '' @ pass_fail (out2 \<noteq> []) @ newline
        @ ''Decoder PTX add.f32'' @ arrow @ first_disasm out3 ''FAIL'' @ '' PASS'' @ newline)"

definition csr_demo :: string where
  "csr_demo =
    (let c = csr_write CSR_MSTATUS (shl 1 3) (csr_write CSR_MTVEC 0x1000 (e_csr new_emulator))
     in ''CSR mtvec=0x'' @ fmt_llx (csr_read c CSR_MTVEC) @ '' priv='' @ u64_text (priv_code (priv c)) @ '' '' @ csr_dump c @ newline)"

text \<open>\<open>%.0f\<close>\<close>

definition fmt_0f :: "dbl \<Rightarrow> string" where
  "fmt_0f x = fmt_u (decimal 0 x)"

definition mmu_demo :: "string res" where
  "mmu_demo =
    (let s = new_emulator; m0 = identity_map 0x1000 0x1000 4 7 (set_enabled True (e_mmu s)) in
     bind_res (mmu_translate (Some (e_scratchpad s)) (Some (e_csr s)) 0x1004 False False None m0) (\<lambda>(pa, _, m1).
     bind_res (mmu_translate (Some (e_scratchpad s)) (Some (e_csr s)) 0x1004 False False None m1) (\<lambda>(_, _, m2).
     Ok (''MMU VA 0x1004'' @ arrow @ ''PA 0x'' @ fmt_08X (case pa of Some p \<Rightarrow> p | None \<Rightarrow> 0) @ '' TLB hits='' @ u64_text (tlb_hits m1)
         @ '' miss='' @ u64_text (tlb_misses m1) @ '' rate='' @ fmt_0f (percent (tlb_hit_rate m1)) @ ''% '' @ pass_fail (pa = Some 0x1004) @ newline
       @ ''MMU 2nd lookup hit_rate='' @ fmt_0f (percent (tlb_hit_rate m2)) @ ''%'' @ newline))))"

definition fabric_demo :: "string res" where
  "fabric_demo =
    (let s = new_emulator;
         t = \<lparr>tx_id = 1, tx_addr = 0x2000, tx_bytes = 64, tx_is_write = False, issue_cycle = 0, complete_cycle = 0, tx_proto = AXI4\<rparr> in
     bind_res (fabric_latency_for (e_axi s) 64) (\<lambda>a. bind_res (fabric_latency_for (e_pcie s) 64) (\<lambda>p.
     bind_res (fabric_latency_for (e_cxi s) 128) (\<lambda>c.
     bind_res (fabric_issue t 0 (e_axi s)) (\<lambda>(issued, ic).
     Ok (''Interconnect AXI latency 64B='' @ u32_text a @ '' PCIe 64B='' @ u32_text p @ '' CXI 128B='' @ u32_text c @ newline
       @ ''AXI issue '' @ pass_fail issued @ '' outstanding='' @ fmt_u (length (in_flight ic)) @ newline
       @ ''AXI after tick completed='' @ u64_text (completed (fabric_tick 10 ic)) @ newline))))))"

text \<open>The trap taken when an interrupt is pending, then an environment call from user mode.\<close>

definition trap_demo :: string where
  "trap_demo =
    (let s = new_emulator;
         c0 = csr_write CSR_MSTATUS (shl 1 3) (csr_write CSR_MIE (shl 1 7) (csr_write CSR_MTVEC 0x2000 (e_csr s)));
         i0 = raise_timer (e_intc s);
         pend = interrupt_pending (Some c0) i0;
         (t1, c1, i1) = (case pending_interrupt (Some c0) i0 of
            Some irq \<Rightarrow> (case take_trap irq (Some c0) i0 of (_, c, i) \<Rightarrow>
              (''Trap taken mtvec=0x'' @ fmt_llx (csr_read (the c) CSR_MTVEC) @ '' mepc=0x'' @ fmt_llx (csr_read (the c) CSR_MEPC)
                 @ '' PASS'' @ newline, the c, i))
          | None \<Rightarrow> ([], c0, i0));
         c2 = c1\<lparr>priv := User\<rparr>;
         (_, c3, i3) = take_trap (ecall_trap (Some c2) (ucast (pc (e_regs s)))) (Some c2) i1
     in ''Interrupt pending='' @ bool_d pend @ '' '' @ pass_fail pend @ newline @ t1
        @ ''Ecall U'' @ tl (butlast arrow) @ ''M priv='' @ u64_text (priv_code (priv (the c3))) @ '' mcause=0x'' @ fmt_llx (csr_read (the c3) CSR_MCAUSE)
        @ '' '' @ pass_fail (priv (the c3) = Machine) @ newline)"

definition arch_demo :: "string res" where
  "arch_demo = bind_res mmu_demo (\<lambda>m. bind_res fabric_demo (\<lambda>f. Ok (decoder_demo @ csr_demo @ m @ f @ trap_demo)))"

section \<open>Timing\<close>

definition timing_demo :: "string res" where
  "timing_demo =
    (let t0 = timing_set_mode Functional timing_default; t1 = timing_set_mode CycleApproximate t0;
         t2 = timing_set_mode CycleAccurate t1;
         c_func = adjust t0 10 False False False False; c_approx = adjust t1 10 True True False True;
         c_acc = adjust t2 10 True True True True in
     bind_res (det_tick 0 100 (det_new 1000)) (\<lambda>(_, d1). bind_res (det_tick 1 200 d1) (\<lambda>(_, d2).
     bind_res (profiler_record ADD 1 0 profiler_init) (\<lambda>pr.
     let cm = ckpt_push regs_init csr_init (profiler_save pr) 0 (global_clock d2) 0 (ckpt_new 4) in
     Ok (''Timing '' @ timing_describe t2 @ '' functional='' @ u32_text c_func @ '' approx='' @ u32_text c_approx
           @ '' accurate='' @ u32_text c_acc @ '' PASS'' @ newline
       @ ''Deterministic '' @ det_report d2 @ '' PASS'' @ newline
       @ ''Checkpoint '' @ ckpt_stats cm @ '' entries='' @ fmt_u (length (history cm)) @ '' PASS'' @ newline
       @ ''Checkpoint reverse '' @ pass_fail (ckpt_pop cm \<noteq> None) @ newline)))))"

section \<open>Microarchitecture\<close>

definition pipeline_demo :: string where
  "pipeline_demo =
    (let p0 = pipeline_configure \<lparr>ooo = True, register_renaming = True, branch_prediction = True, fetch_width = 1, issue_width = 1\<rparr>
            (pipeline_new pipeline_config_default);
         p1 = snd (try_issue \<lparr>raw = enc_add 1 2 3\<rparr> 0 p0); p2 = snd (commit 1 p1)
     in ''Pipeline '' @ pipeline_report 10 p2 @ '' PASS'' @ newline)"

text \<open>The pointer to the stall cycles is null; the value behind it is not used.\<close>

definition cache_demo :: "string res" where
  "cache_demo =
     bind_res hier_new (\<lambda>h.
     bind_res (cache_configure \<lparr>size_bytes = 32 * 1024, line_bytes = 64, associativity = 8, coherence = MESI, hit_latency = 1, miss_penalty = 10\<rparr>) (\<lambda>c0.
     bind_res (cache_access 0x1000 False 0 c0) (\<lambda>(hit, _, c1).
     bind_res (cache_access 0x1000 False 0 c1) (\<lambda>(_, _, c2).
     Ok (''Caches '' @ hierarchy_report (h\<lparr>l1 := c2\<rparr>) @ '' hit='' @ bool_d hit @ '' PASS'' @ newline)))))"

definition parallel_demo :: "string res" where
  "parallel_demo =
    (let (wid, w1) = schedule (warp_configure \<lparr>warp_size = 32, max_warps_per_sm = 32, num_sms = 4\<rparr> (warp_new warp_config_default));
         w2 = warp_tick 5 (mark_stalled wid 5 w1);
         y0 = systolic_configure \<lparr>sys_rows = 8, sys_cols = 8, macs_per_cycle = 64\<rparr> (systolic_new systolic_config_default) in
     map_res (\<lambda>(_, y1). ''Parallel '' @ warp_report w2 @ '' | '' @ systolic_report y1 @ '' PASS'' @ newline) (enqueue_tile 4 y0))"

definition micro_demo :: "string res" where
  "micro_demo = bind_res cache_demo (\<lambda>c. bind_res parallel_demo (\<lambda>p. Ok (pipeline_demo @ c @ p)))"

section \<open>Tooling\<close>

text \<open>The files written: the value change dump and the table of the trace.\<close>

definition trace_demo :: "bool \<Rightarrow> bool \<Rightarrow> string \<times> vcd \<times> string option" where
  "trace_demo vcd_ok csv_ok =
    (let i = \<lparr>raw = enc_add 1 2 3\<rparr>;
         tr = trace_push \<lparr>te_cycle = 0, te_pc = 0, te_instr = i, te_result = 0, te_branch_taken = False, te_mem_addr = 0\<rparr> trace_init;
         v = vcd_close (vcd_dump 0 0 i 0 (add_signal ''pc'' 32 (snd (vcd_open vcd_ok vcd_init))))
     in (''Trace entries='' @ fmt_u (length (entries tr)) @ '' vcd=build/trace.vcd csv=build/trace.csv PASS'' @ newline,
         v, export_csv csv_ok tr))"

definition tlm_demo :: "string res" where
  "tlm_demo =
    (let tgt = set_transport (\<lambda>p. ret (p\<lparr>response := TlmOK, tlm_delay_cycles := 2\<rparr>)) (socket_new ''tgt'');
         init = socket_bind tgt (socket_new ''init'');
         pl = \<lparr>command = TlmWrite, address = 0x1000, tdata = None, tlen = 4, streaming_width = 4, response = TlmOK, tlm_delay_cycles = 0\<rparr>
     in map_res (\<lambda>(_, d). ''TLM b_transport delay='' @ u32_text d @ '' PASS'' @ newline) (fst (b_transport init pl 0 new_emulator)))"

definition fpga_demo :: "fpu \<Rightarrow> string res" where
  "fpga_demo fp =
    (let f = snd (fpga_connect (fpga_new \<lparr>backend = FpgaSimulated, bitstream = ''build/npu.bit'', device_id = 0, fallback_to_sim = True\<rparr>)) in
     map_res (\<lambda>(_, _, f'). ''FPGA '' @ fpga_report f' @ '' PASS'' @ newline)
       (offload_matmul fp 2 0 1 4 (replicate 3 (replicate 16 0)) f))"

definition pmc_demo :: string where
  "pmc_demo = ''PMCs '' @ pmc_report 10 2 (pmc_inc EvCacheMisses 2 (on_commit 10 False False pmc_reset)) @ '' PASS'' @ newline"

definition gdb_demo :: string where
  "gdb_demo = (case gdb_start 1234 \<lparr>gdb_running = False, gdb_port = 0\<rparr> of (_, g) \<Rightarrow>
     ''GDB stub running='' @ bool_d (gdb_running g) @ '' PASS'' @ newline)"

definition tooling_demo :: "fpu \<Rightarrow> bool \<Rightarrow> bool \<Rightarrow> (string \<times> vcd \<times> string option) res" where
  "tooling_demo fp vcd_ok csv_ok = (case trace_demo vcd_ok csv_ok of (t, files) \<Rightarrow>
     bind_res tlm_demo (\<lambda>tl. bind_res (fpga_demo fp) (\<lambda>f. Ok (t @ tl @ f @ pmc_demo @ gdb_demo, files))))"

section \<open>Sample sources and benchmark suite\<close>

text \<open>
  A source is loaded, set up with its target and the two matrices, and run on the fast path,
  whether the front end succeeded or not. The result is the machine afterwards. The program of
  a source that could not be opened is empty: its \<open>data()\<close> may be null, and copying no bytes
  from it is taken to be defined, as it is for every implementation of \<open>memcpy\<close> in use.
\<close>

definition sample_setup :: "load_result \<Rightarrow> unit emu_op" where
  "sample_setup r =
     bind (modify (set_target (fe_target r))) (\<lambda>_.
     bind (load_program (fe_program r) (of_nat (length (fe_program r)))) (\<lambda>_.
     bind (load_main_ram 0 (bytes_of_words identity_matrix) 64) (\<lambda>_.
     load_main_ram 64 (bytes_of_words counting_matrix) 64)))"

definition sample_run :: "host_env \<Rightarrow> nat \<Rightarrow> load_result \<Rightarrow> (unit res \<times> emu) option" where
  "sample_run h fuel r = (case sample_setup r new_emulator of
     (Ok _, s1) \<Rightarrow> run_fast h fuel s1
   | (Err e, s1) \<Rightarrow> Some (Err e, s1)
   | (Undef, s1) \<Rightarrow> Some (Undef, s1))"

definition after_sample :: "host_env \<Rightarrow> nat \<Rightarrow> string option \<Rightarrow> string \<Rightarrow> (load_result \<Rightarrow> emu \<Rightarrow> string) \<Rightarrow> cli_outcome" where
  "after_sample h fuel contents path txt = (case frontend_load contents path of
     Loaded r \<Rightarrow> (case sample_run h fuel r of
         None \<Rightarrow> OutOfFuel
       | Some (Ok _, s) \<Rightarrow> Exit 0 (txt r s)
       | Some (Err e, s) \<Rightarrow> Terminated
       | Some (Undef, s) \<Rightarrow> CliUndefined)
   | OutOfRange \<Rightarrow> Terminated
   | ScanUndefined \<Rightarrow> CliUndefined)"

definition frontend_demo :: "host_env \<Rightarrow> nat \<Rightarrow> string option \<Rightarrow> string \<Rightarrow> cli_outcome" where
  "frontend_demo h fuel contents path = after_sample h fuel contents path (\<lambda>r s.
     ''['' @ kind_name (fe_kind r) @ ''] '' @ c_string (fe_diag r) @ newline
     @ ''  -> target='' @ c_string (target_name (e_target s)) @ '' cycles='' @ u64_text (cycle_count (e_profiler s))
     @ '' halted='' @ bool_d (halt (e_regs s)) @ newline)"

definition coremark_demo :: "host_env \<Rightarrow> host_macros \<Rightarrow> u64 \<Rightarrow> nat \<Rightarrow> target_profile \<Rightarrow> string res option" where
  "coremark_demo h mac wall fuel prof = map_option (\<lambda>(r, _). map_res coremark_report r)
     (coremark_main h mac wall fuel 100 True (Some identity_matrix) (Some counting_matrix) (set_target prof new_emulator))"

definition coremark_source_demo :: "host_env \<Rightarrow> nat \<Rightarrow> string option \<Rightarrow> cli_outcome" where
  "coremark_source_demo h fuel contents = after_sample h fuel contents ''examples/coremark.cpp'' (\<lambda>r s.
     ''C++ CoreMark frontend: '' @ c_string (fe_diag r) @ newline
     @ ''C++ source'' @ arrow @ ''cycles='' @ u64_text (cycle_count (e_profiler s)) @ '' instrs='' @ u64_text (instr_count (e_profiler s))
     @ '' '' @ (if halt (e_regs s) then ''HALT PASS'' else ''FAIL'') @ newline)"

section \<open>What is printed\<close>

lemma new_parts:
  "e_csr new_emulator = csr_reset csr_init" "e_mmu new_emulator = mmu_init" "e_intc new_emulator = intc_init"
  "e_axi new_emulator = fabric_new axi_config" "e_pcie new_emulator = fabric_new pcie_config"
  "e_cxi new_emulator = fabric_new cxi_config" "e_regs new_emulator = regs_init"
  "e_bus new_emulator = mmio_devices" "e_uart new_emulator = uart_init" "e_timer new_emulator = timer_init"
  by (simp_all add: new_emulator_def emu_new_def)

lemma decoder_demo_text:
  "decoder_demo = ''Decoder RISCV add x1,x2,x3'' @ arrow @ ''ADD  r1, r2, r3 (1 op) PASS'' @ newline
     @ ''Decoder ARM64'' @ arrow @ ''1 op PASS'' @ newline
     @ ''Decoder PTX add.f32'' @ arrow @ ''VEC_ADD  v2, v0, v1 PASS'' @ newline"
  by code_simp

lemma fabric_demo_text:
  "fabric_demo = Ok (''Interconnect AXI latency 64B=3 PCIe 64B=5 CXI 128B=4'' @ newline
     @ ''AXI issue PASS outstanding=1'' @ newline @ ''AXI after tick completed=1'' @ newline)"
  unfolding fabric_demo_def Let_def new_parts by code_simp

lemma tolower_digits:
  "tolower (CHR ''0'') = CHR ''0''" "tolower (CHR ''1'') = CHR ''1''" "tolower (CHR ''2'') = CHR ''2''" "tolower (CHR ''3'') = CHR ''3''"
  "tolower (CHR ''8'') = CHR ''8''"
  by code_simp+

text \<open>Numerals are printed digit by digit; other terms are left alone.\<close>

lemma show_numeral:
  "2 \<le> b \<Longrightarrow> show_base b (numeral k) = (if numeral k < b then [digit_char (numeral k)]
     else show_base b (numeral k div b) @ [digit_char (numeral k mod b)])"
  "2 \<le> b \<Longrightarrow> show_base b 0 = ''0''" "2 \<le> b \<Longrightarrow> show_base b (Suc 0) = ''1''"
  by (subst show_base.simps, simp add: digit_char_def digit_chars)+

lemmas print_eval = fmt_u_def show_numeral digit_char_def digit_chars snprintf_def fmt_llx_def tolower_digits pass_fail_def bool_d_def

lemma csr_demo_text:
  "csr_demo = ''CSR mtvec=0x1000 priv=3 priv=3 mstatus=0x8 mtvec=0x1000 mepc=0x0 mcause=0x0 satp=0x0'' @ newline"
  by (simp add: csr_demo_def Let_def new_parts csr_dump_def csr_text_def csr_write_def csr_addrs csr_reset_def csr_read_def csr_init_def shl_def print_eval)

lemma trap_demo_text:
  "trap_demo = ''Interrupt pending=1 PASS'' @ newline @ ''Trap taken mtvec=0x2000 mepc=0x0 PASS'' @ newline
     @ ''Ecall U'' @ tl (butlast arrow) @ ''M priv=3 mcause=0x8 PASS'' @ newline"
  by (simp add: trap_demo_def Let_def new_parts csr_write_def csr_addrs csr_reset_def csr_read_def csr_init_def shl_def print_eval
     interrupt_pending_def pending_interrupt_def raise_timer_def intc_init_def take_trap_def take_trap_csr_def interrupt_trap_def ecall_trap_def trap_mstatus_def)

lemma timing_demo_text:
  "timing_demo = Ok (''Timing timing=cycle-accurate +branch +cache functional=1 approx=10 accurate=33 PASS'' @ newline
     @ ''Deterministic deterministic quantum=1000 global_clock=300 seq=2 PASS'' @ newline
     @ ''Checkpoint checkpoint history 1/4 entries=1 PASS'' @ newline @ ''Checkpoint reverse PASS'' @ newline)"
  by (simp add: timing_demo_def Let_def timing_set_mode_def timing_default_def timing_describe_def adjust_def det_tick_def det_new_def kMaxCores_def
     profiler_record_def profiler_init_def NUM_OPCODES_def arr_get_def arr_set_def ckpt_push_def ckpt_append_def ckpt_new_def ckpt_pop_def trimmed_def det_report_def det_text_def
     ckpt_stats_def ckpt_text_def print_eval)

lemma gdb_demo_text: "gdb_demo = ''GDB stub running=1 PASS'' @ newline"
  by code_simp

lemma tlm_demo_text: "tlm_demo = Ok (''TLM b_transport delay=2 PASS'' @ newline)"
  by (simp add: tlm_demo_def b_transport_def socket_bind_def set_transport_def socket_new_def bind_def print_eval)

lemma fpga_demo_text:
  "fpga_demo fp = Ok (''FPGA FPGA backend=sim available=yes offloaded=1 fallback=0 bitstream=build/npu.bit PASS'' @ newline)"
  by (simp add: fpga_demo_def offload_matmul_def fpga_connect_def fpga_new_def available_def fpga_report_def fpga_text_def backend_name_def
      print_eval Let_def)

lemma zero_percent [simp]: "fmt_f (Suc 0) (percent (dbl_ratio 0 t)) = ''0.0''"
proof -
  have "dbl_frac (0, 0) = (0, 1)" by (simp add: dbl_frac_def)
  then have "percent (dbl_ratio 0 t) = (0, 0)"
    by (simp add: dbl_ratio_def dbl_div_def dbl_of_u64_def percent_def dbl_mul_def to_double_def split: prod.splits)
  then show ?thesis by (simp add: fmt_f_def decimal_def dbl_frac_def rnd_even_def pad_left_def print_eval)
qed

lemma pipeline_demo_values:
  "let p = snd (commit 1 (snd (try_issue \<lparr>raw = enc_add 1 2 3\<rparr> 0 (pipeline_configure
       \<lparr>ooo = True, register_renaming = True, branch_prediction = True, fetch_width = 1, issue_width = 1\<rparr> (pipeline_new pipeline_config_default)))))
   in ooo (p_cfg p) \<and> stalls p = 0 \<and> mispredicts p = 0"
  by code_simp

lemma pipeline_demo_text:
  "pipeline_demo = ''Pipeline pipeline OoO stalls=0 mispredicts=0 stall_rate=0.0% PASS'' @ newline"
  using pipeline_demo_values by (simp add: pipeline_demo_def Let_def pipeline_report_def pipeline_text_def stall_rate_def print_eval)

lemma parallel_demo_values:
  "case schedule (warp_configure \<lparr>warp_size = 32, max_warps_per_sm = 32, num_sms = 4\<rparr> (warp_new warp_config_default)) of (wid, w1) \<Rightarrow>
     (let w = warp_tick 5 (mark_stalled wid 5 w1) in
      num_sms (w_cfg w) = 4 \<and> max_warps_per_sm (w_cfg w) = 32 \<and> active_warps w = 128 \<and> scheduled w = 1 \<and> w_stalls w = 1)"
  by code_simp

lemma parallel_demo_text:
  "parallel_demo = Ok (''Parallel warp scheduler 4x32 active=128 scheduled=1 stalls=1 | systolic 8x8 tiles=1 cycles=1 PASS'' @ newline)"
proof -
  obtain wid w1 where w: "schedule (warp_configure \<lparr>warp_size = 32, max_warps_per_sm = 32, num_sms = 4\<rparr> (warp_new warp_config_default)) = (wid, w1)"
    by fastforce
  show ?thesis
    using parallel_demo_values w
    by (simp add: parallel_demo_def Let_def warp_report_def warp_text_def systolic_report_def systolic_text_def enqueue_tile_def systolic_configure_def
        systolic_new_def tile_cycles_def print_eval)
qed

lemma pmc_demo_text:
  "pmc_demo = ''PMCs PMCs IPC=0.100 cyc=10 instr=1 br_miss=0 cache_miss_rate=16.7% tlb_miss=0 dma_B=0 warp_stall=0 tiles=0 PASS'' @ newline"
  by (simp add: pmc_demo_def pmc_report_def pmc_text_def pmc_ipc_def pmc_get_def pmc_inc_def on_commit_def pmc_reset_def PMC_COUNT_def cache_miss_rate_def
    dbl_eval fmt_f_def decimal_def pad_left_def print_eval Let_def)

lemma uart_routes:
  "bus_route mmio_devices uart_tx_addr = Some \<lparr>dev_base = MMIO_BASE + UART_BASE, dev_size = 0x1000, dev_read = Some UartDev, dev_write = Some UartDev\<rparr>"
  "bus_route mmio_devices (MMIO_BASE + TIMER_LIMIT) = Some \<lparr>dev_base = MMIO_BASE, dev_size = 0x1000, dev_read = Some TimerDev, dev_write = Some TimerDev\<rparr>"
  "bus_route mmio_devices (MMIO_BASE + TIMER_CTRL) = Some \<lparr>dev_base = MMIO_BASE, dev_size = 0x1000, dev_read = Some TimerDev, dev_write = Some TimerDev\<rparr>"
  by code_simp+

lemma trace_demo_text:
  "fst (trace_demo vcd_ok csv_ok) = ''Trace entries=1 vcd=build/trace.vcd csv=build/trace.csv PASS'' @ newline"
  by (simp add: trace_demo_def Let_def trace_push_def trace_init_def trimmed_def print_eval)

lemma fresh_set:
  "find_index (line_match t) (replicate 8 line_init) = None" "victim (replicate 8 line_init) = 0"
  "find_index (line_match t) ((replicate 8 line_init)[0 := l]) = (if line_match t l then Some 0 else None)"
  by (simp_all add: numeral_eq_Suc line_match_def line_init_def) code_simp

lemma cache_demo_values:
  defines "c0 \<equiv> \<lparr>c_cfg = l1_config, c_sets = replicate 64 (replicate 8 line_init), c_tick = 0, c_stats = cache_stats_init\<rparr>"
  shows "\<exists>l1 c1 l2 c2. cache_access 0x1000 False 0 c0 = Ok (False, l1, c1) \<and> cache_access 0x1000 False 0 c1 = Ok (True, l2, c2)
    \<and> c_cfg c2 = l1_config \<and> hits (c_stats c2) = 1 \<and> misses (c_stats c2) = 1"
  by (simp add: c0_def cache_access_def l1_config_def Let_def set_of_def line_of_def fresh_set line_match_def cache_stats_init_def)

lemma cache_demo_text:
  "cache_demo = Ok (''Caches L1 32KiB/8-way MESI hit=1 miss=1 rate=50.0% | L2 256KiB/8-way MESI hit=0 miss=0 rate=0.0%''
     @ '' | L3 2048KiB/16-way MOESI hit=0 miss=0 rate=0.0% | MC DDR5 banks=16 row_hit=0.0% tCAS=16 hit=0 PASS'' @ newline)"
proof -
  have half: "fmt_f (Suc 0) (percent (dbl_ratio 1 2)) = ''50.0''"
    by (simp add: dbl_eval fmt_f_def decimal_def pad_left_def print_eval)
  have cfg: "cache_configure \<lparr>size_bytes = 32 * 1024, line_bytes = 64, associativity = 8, coherence = MESI, hit_latency = 1, miss_penalty = 10\<rparr>
     = Ok \<lparr>c_cfg = l1_config, c_sets = replicate 64 (replicate 8 line_init), c_tick = 0, c_stats = cache_stats_init\<rparr>"
    by (simp add: cache_configure_def l1_config_def)
  show ?thesis
    using cache_demo_values
    by (auto simp: cache_demo_def cfg hier_new_def cache_configure_def l1_config_def l2_config_def l3_config_def
        hierarchy_report_def cache_report_def cache_text_def coherence_name_def mc_report_def mc_text_def mc_new_def mc_config_default_def
        cache_hit_rate_def row_hit_rate_def cache_stats_init_def half print_eval)
qed

lemma translate_bare:
  "csr_satp c = 0 \<Longrightarrow> mmu_translate (Some ram) (Some c) va w x cause m = mmu_translate None (Some c) va w x cause m"
  by (simp add: mmu_translate_def split: prod.split option.split)

lemma mmu_demo_values:
  "case mmu_translate None (Some (csr_reset csr_init)) 0x1004 False False None (identity_map 0x1000 0x1000 4 7 (set_enabled True mmu_init)) of
     Ok (pa, _, m1) \<Rightarrow> pa = Some 0x1004 \<and> tlb_hits m1 = 0 \<and> tlb_misses m1 = 1
       \<and> (case mmu_translate None (Some (csr_reset csr_init)) 0x1004 False False None m1 of
            Ok (_, _, m2) \<Rightarrow> tlb_hits m2 = 1 \<and> tlb_misses m2 = 1 | _ \<Rightarrow> False)
   | _ \<Rightarrow> False"
  by code_simp

lemma mmu_demo_text:
  "mmu_demo = Ok (''MMU VA 0x1004'' @ arrow @ ''PA 0x00001004 TLB hits=0 miss=1 rate=0% PASS'' @ newline @ ''MMU 2nd lookup hit_rate=50%'' @ newline)"
proof -
  have satp: "csr_satp (csr_reset csr_init) = 0" by (simp add: csr_satp_def csr_reset_reads)
  have p: "fmt_0f (percent (dbl_ratio 0 1)) = ''0''" "fmt_0f (percent (dbl_ratio 1 2)) = ''50''" "fmt_08X 0x1004 = ''00001004''"
    by (simp_all add: fmt_0f_def dbl_eval decimal_def fmt_08X_def pad_left_def print_eval) (simp add: numeral_eq_Suc)
  let ?tr = "mmu_translate None (Some (csr_reset csr_init)) 0x1004 False False None"
  obtain pa x m1 where 1: "?tr (identity_map 0x1000 0x1000 4 7 (set_enabled True mmu_init)) = Ok (pa, x, m1)"
    using mmu_demo_values by (auto split: res.split_asm)
  moreover obtain y z m2 where "?tr m1 = Ok (y, z, m2)"
    using mmu_demo_values 1 by (cases "?tr m1") auto
  ultimately show ?thesis
    using mmu_demo_values by (simp add: mmu_demo_def Let_def new_parts translate_bare [OF satp] tlb_hit_rate_def p print_eval)
qed

lemma mmio_demo_text:
  "\<exists>s'. mmio_demo new_emulator = (Ok (''Timer configured: limit=500, running'' @ newline @ ''Timer readback: limit=500, ctrl=1'' @ newline), s')
     \<and> uart_lines (e_uart s') = [map of_char ''Novium'' @ [10]] \<and> tx_buffer (e_uart s') = []"
  by (simp add: mmio_demo_def novium_msg_def emu_bus_write32_def emu_bus_read32_def bus_write32_def bus_read32_def uart_routes new_parts bind_def
     timer_write_reg_def timer_read_reg_def print_eval TIMER_LIMIT_def TIMER_CTRL_def TIMER_COUNT_def UART_TX_def MMIO_BASE_def UART_BASE_def uart_routes [unfolded uart_tx_addr_def MMIO_BASE_def UART_BASE_def UART_TX_def TIMER_LIMIT_def TIMER_CTRL_def, simplified] uart_tx_addr_def uart_write_reg_def uart_print_def uart_init_def Let_def c_str_def)

lemmas demo_texts = decoder_demo_text csr_demo_text mmu_demo_text fabric_demo_text trap_demo_text timing_demo_text pipeline_demo_text
  cache_demo_text parallel_demo_text trace_demo_text tlm_demo_text fpga_demo_text pmc_demo_text gdb_demo_text

section \<open>Properties\<close>

text \<open>
  The demonstrations of the components run without an exception on every host, whether or not
  their files can be written, and print exactly this text: the decoders translate
  the three guest instructions, the second look-up of an address hits the TLB, the AXI
  transaction completes within ten cycles, the timer interrupt is taken, an environment call from
  user mode ends in machine mode with cause 8, the second access to a line hits the L1 cache.
\<close>

theorem component_demos_print:
  "arch_demo = Ok (
      ''Decoder RISCV add x1,x2,x3'' @ arrow @ ''ADD  r1, r2, r3 (1 op) PASS'' @ newline
    @ ''Decoder ARM64'' @ arrow @ ''1 op PASS'' @ newline
    @ ''Decoder PTX add.f32'' @ arrow @ ''VEC_ADD  v2, v0, v1 PASS'' @ newline
    @ ''CSR mtvec=0x1000 priv=3 priv=3 mstatus=0x8 mtvec=0x1000 mepc=0x0 mcause=0x0 satp=0x0'' @ newline
    @ ''MMU VA 0x1004'' @ arrow @ ''PA 0x00001004 TLB hits=0 miss=1 rate=0% PASS'' @ newline
    @ ''MMU 2nd lookup hit_rate=50%'' @ newline
    @ ''Interconnect AXI latency 64B=3 PCIe 64B=5 CXI 128B=4'' @ newline
    @ ''AXI issue PASS outstanding=1'' @ newline
    @ ''AXI after tick completed=1'' @ newline
    @ ''Interrupt pending=1 PASS'' @ newline
    @ ''Trap taken mtvec=0x2000 mepc=0x0 PASS'' @ newline
    @ ''Ecall U'' @ tl (butlast arrow) @ ''M priv=3 mcause=0x8 PASS'' @ newline)
  \<and> timing_demo = Ok (
      ''Timing timing=cycle-accurate +branch +cache functional=1 approx=10 accurate=33 PASS'' @ newline
    @ ''Deterministic deterministic quantum=1000 global_clock=300 seq=2 PASS'' @ newline
    @ ''Checkpoint checkpoint history 1/4 entries=1 PASS'' @ newline
    @ ''Checkpoint reverse PASS'' @ newline)
  \<and> micro_demo = Ok (
      ''Pipeline pipeline OoO stalls=0 mispredicts=0 stall_rate=0.0% PASS'' @ newline
    @ ''Caches L1 32KiB/8-way MESI hit=1 miss=1 rate=50.0% | L2 256KiB/8-way MESI hit=0 miss=0 rate=0.0%''
    @ '' | L3 2048KiB/16-way MOESI hit=0 miss=0 rate=0.0% | MC DDR5 banks=16 row_hit=0.0% tCAS=16 hit=0 PASS'' @ newline
    @ ''Parallel warp scheduler 4x32 active=128 scheduled=1 stalls=1 | systolic 8x8 tiles=1 cycles=1 PASS'' @ newline)
  \<and> map_res fst (tooling_demo fp vcd_ok csv_ok) = Ok (
      ''Trace entries=1 vcd=build/trace.vcd csv=build/trace.csv PASS'' @ newline
    @ ''TLM b_transport delay=2 PASS'' @ newline
    @ ''FPGA FPGA backend=sim available=yes offloaded=1 fallback=0 bitstream=build/npu.bit PASS'' @ newline
    @ ''PMCs PMCs IPC=0.100 cyc=10 instr=1 br_miss=0 cache_miss_rate=16.7% tlb_miss=0 dma_B=0 warp_stall=0 tiles=0 PASS'' @ newline
    @ ''GDB stub running=1 PASS'' @ newline)"
proof (intro conjI)
  obtain t files where t: "trace_demo vcd_ok csv_ok = (t, files)" by (cases "trace_demo vcd_ok csv_ok")
  then have "t = ''Trace entries=1 vcd=build/trace.vcd csv=build/trace.csv PASS'' @ newline" using trace_demo_text [of vcd_ok csv_ok] by simp
  with t show "map_res fst (tooling_demo fp vcd_ok csv_ok) = Ok (
      ''Trace entries=1 vcd=build/trace.vcd csv=build/trace.csv PASS'' @ newline
    @ ''TLM b_transport delay=2 PASS'' @ newline
    @ ''FPGA FPGA backend=sim available=yes offloaded=1 fallback=0 bitstream=build/npu.bit PASS'' @ newline
    @ ''PMCs PMCs IPC=0.100 cyc=10 instr=1 br_miss=0 cache_miss_rate=16.7% tlb_miss=0 dma_B=0 warp_stall=0 tiles=0 PASS'' @ newline
    @ ''GDB stub running=1 PASS'' @ newline)" by (simp add: tooling_demo_def demo_texts)
qed (simp_all add: arch_demo_def micro_demo_def demo_texts)

text \<open>
  The peripherals on the bus: the bytes of a message sent to the UART are printed as one line,
  and the timer reads back what was written to it.
\<close>

theorem mmio_demo_prints:
  "\<exists>s'. mmio_demo new_emulator = (Ok (''Timer configured: limit=500, running'' @ newline @ ''Timer readback: limit=500, ctrl=1'' @ newline), s')
     \<and> uart_lines (e_uart s') = [map of_char ''Novium'' @ [10]]"
  using mmio_demo_text by auto

section \<open>A machine without a program\<close>

lemma nop0: "instr_opcode \<lparr>raw = 0\<rparr> = NOP"
  by code_simp

text \<open>
  A machine that runs through a scratchpad of zeros, every word of which is a \<open>NOP\<close>, with no block
  decoded ahead of it.
\<close>

definition on_sled :: "nat \<Rightarrow> nat \<Rightarrow> emu \<Rightarrow> bool" where
  "on_sled m k s \<longleftrightarrow> fast_ok m k s \<and> sram_data (e_scratchpad s) = replicate m 0 \<and> \<not> halt (e_regs s)
     \<and> breakpoints (e_debugger s) = {} \<and> 4 dvd unat (pc (e_regs s)) \<and> unat (pc (e_regs s)) \<le> m
     \<and> (\<forall>a. unat (pc (e_regs s)) \<le> unat a \<longrightarrow> blocks (e_block_cache s) a = None)"

lemma sled_running: "on_sled m k s \<Longrightarrow> \<not> stopped s"
  by (simp add: on_sled_def stopped_def dbg_has_breakpoint_def)

lemma exec_nop:
  assumes "fast_ok m k s"
  shows "\<exists>s'. exec_one h \<lparr>raw = 0\<rparr> s = (Ok (), s') \<and> fast_ok m k s' \<and> arch_of s' = advance (arch_of s)
     \<and> frame s s' \<and> e_block_cache s' = e_block_cache s"
proof -
  let ?s = "s\<lparr>e_regs := (e_regs s)\<lparr>pc := pc (e_regs s) + 4\<rparr>\<rparr>"
  have inv: "emu_inv m k s" "quiet s" using assms by (simp_all add: fast_ok_def)
  have inv1: "emu_inv m k ?s" using preservesD [OF pres_set_pc inv(1), of "pc (e_regs s) + 4"] by (simp add: set_pc_def)
  have a: "arch_of ?s = advance (arch_of s)" by (simp add: arch_of_def advance_def)
  have "implements (Some (arch_of ?s)) ?s (execute h \<lparr>raw = 0\<rparr> ?s)"
    using execute_implements [OF inv1, of "\<lparr>raw = 0\<rparr>" h] inv(2) by (simp add: nop0 quiet_def)
  then obtain c s1 where s1: "execute h \<lparr>raw = 0\<rparr> ?s = (Ok c, s1)" "arch_of s1 = arch_of ?s" "frame ?s s1"
    by (cases "execute h \<lparr>raw = 0\<rparr> ?s") (auto simp: implements_def)
  have ex: "exec_one h \<lparr>raw = 0\<rparr> s = (Ok (), tick_peripherals s1)"
    using s1(1) by (simp add: exec_one_def set_pc_def bind_eq)
  have "snd (exec_one h \<lparr>raw = 0\<rparr> (set_bc (e_block_cache s) s)) = set_bc (e_block_cache s) (tick_peripherals s1)"
    using blind_exec_one [of "e_block_cache s" h "\<lparr>raw = 0\<rparr>"] ex by (simp add: blind_def)
  moreover have "set_bc (e_block_cache s) s = s" by (simp add: set_bc_def)
  ultimately have "e_block_cache (tick_peripherals s1) = e_block_cache s" using ex by (metis set_bc_sel(17) snd_conv)
  then show ?thesis
    using exec_one_keeps(1) [OF assms ex] ex tick_frame [of s1] s1 a by (auto simp: frame_def)
qed

lemma replay_nops:
  assumes "fast_ok m k s" and "\<not> halt (e_regs s)" and "breakpoints (e_debugger s) = {}" and "\<forall>i \<in> set is. raw i = 0"
  shows "\<exists>s'. replay h is s = (Ok (), s') \<and> fast_ok m k s' \<and> e_scratchpad s' = e_scratchpad s \<and> \<not> halt (e_regs s')
     \<and> breakpoints (e_debugger s') = {} \<and> pc (e_regs s') = pc (e_regs s) + of_nat (4 * length is) \<and> e_block_cache s' = e_block_cache s"
  using assms
proof (induction "is" arbitrary: s)
  case (Cons i "is")
  have i: "i = \<lparr>raw = 0\<rparr>" using Cons.prems(4) by (cases i) simp
  from exec_nop [OF Cons.prems(1), of h] obtain s1 where
    s1: "exec_one h i s = (Ok (), s1)" "fast_ok m k s1" "arch_of s1 = advance (arch_of s)" "frame s s1" "e_block_cache s1 = e_block_cache s"
    unfolding i by blast
  have "sram_data (e_scratchpad s1) = sram_data (e_scratchpad s)" and h1: "halt (e_regs s1) = halt (e_regs s)" "pc (e_regs s1) = pc (e_regs s) + 4"
    using arg_cong [OF s1(3), of a_mem] arg_cong [OF s1(3), of a_halt] arg_cong [OF s1(3), of a_pc] by (simp_all add: advance_def)
  then have sp: "e_scratchpad s1 = e_scratchpad s" by (cases "e_scratchpad s"; cases "e_scratchpad s1") simp
  from Cons.IH [OF s1(2)] h1 s1(4) Cons.prems obtain s2 where
    "replay h is s1 = (Ok (), s2)" "fast_ok m k s2" "e_scratchpad s2 = e_scratchpad s1" "\<not> halt (e_regs s2)"
    "breakpoints (e_debugger s2) = {}" "pc (e_regs s2) = pc (e_regs s1) + of_nat (4 * length is)" "e_block_cache s2 = e_block_cache s1"
    by (auto simp: frame_def)
  moreover have "\<not> stopped s" "\<not> is_control (instr_opcode i)"
    using Cons.prems(2,3) by (simp_all add: stopped_def dbg_has_breakpoint_def i nop0 is_control_def)
  ultimately show ?case using s1(1,5) h1 sp by (auto simp: replay_Cons bind_eq algebra_simps simp del: replay.simps)
qed simp

lemma zero_read:
  assumes "emu_inv m k s" and "sram_data (e_scratchpad s) = replicate m 0"
  shows "sram_read32 (e_scratchpad s) a = (if unat a + 4 \<le> m then Ok 0 else Err (SramOutOfBounds a 4))"
proof -
  have "le_word32 (slice (unat a) 4 (replicate m 0)) = 0" if "unat a + 4 \<le> m"
    using that by (simp add: slice_def min_def numeral_eq_Suc)
  then show ?thesis using inv_parts(5) [OF assms(1)] assms(2) by (simp add: sram_read32_eq)
qed

text \<open>A block of zeros ends at a line boundary, so within a memory of whole lines.\<close>

lemma zero_block:
  assumes "\<And>a. unat a + 4 \<le> m \<Longrightarrow> rd a = Ok 0" and "64 dvd m" and "m < 2 ^ 32"
  shows "unat cur < m \<Longrightarrow> 4 dvd unat cur \<Longrightarrow> \<exists>j blk'. decode_loop rd (Suc n) cur blk = Ok blk'
     \<and> ops blk' = ops blk @ replicate (Suc j) \<lparr>raw = 0\<rparr> \<and> unat cur + 4 * Suc j \<le> m"
proof (induction n arbitrary: cur blk)
  case 0
  then have "unat cur + 4 \<le> m" using assms(2) by (auto elim!: dvdE)
  then show ?case using assms(1) [of cur] by (auto simp: Let_def nop0 is_control_def intro!: exI [of _ 0])
next
  case (Suc n)
  then have le: "unat cur + 4 \<le> m" using assms(2) by (auto elim!: dvdE)
  then have next': "unat (cur + 4) = unat cur + 4" using assms(3) by (simp add: unat_word_ariths)
  have line: "unat ((cur + 4) AND 0x3F) = (unat cur + 4) mod 64"
    using next' by (simp only: mask_0x3F unsigned_take_bit_eq flip: take_bit_eq_mask) (simp add: take_bit_eq_mod)
  show ?case
  proof (cases "(cur + 4) AND 0x3F = 0")
    case True
    then show ?thesis using assms(1) [of cur] le by (auto simp: Let_def nop0 is_control_def intro!: exI [of _ 0])
  next
    case False
    then have "unat cur + 4 \<noteq> m" using line assms(2) by (metis mod_eq_0_iff_dvd unat_eq_zero)
    with le next' Suc.prems(2) Suc.IH [of "cur + 4" "blk\<lparr>ops := ops blk @ [\<lparr>raw = 0\<rparr>]\<rparr>"] obtain j blk' where
      "decode_loop rd (Suc n) (cur + 4) (blk\<lparr>ops := ops blk @ [\<lparr>raw = 0\<rparr>]\<rparr>) = Ok blk'"
      "ops blk' = ops blk @ replicate (Suc (Suc j)) \<lparr>raw = 0\<rparr>" "unat cur + 4 * Suc (Suc j) \<le> m" by auto
    with False show ?thesis
      using assms(1) [of cur] le by (subst decode_loop.simps(2)) (auto simp: Let_def nop0 is_control_def intro!: exI [of _ "Suc j"])
  qed
qed

text \<open>One turn inside the memory moves on, one turn at its end throws.\<close>

lemma sled_turn:
  assumes "on_sled m k s" and "64 dvd m" and "m < 2 ^ 32" and "unat (pc (e_regs s)) < m"
  shows "\<exists>s'. fast_turn h s = (Ok (), s') \<and> on_sled m k s' \<and> unat (pc (e_regs s)) < unat (pc (e_regs s'))"
proof -
  let ?p = "pc (e_regs s)"
  have f: "fast_ok m k s" "emu_inv m k s" "\<not> e_verbose s" "\<not> halt (e_regs s)" "breakpoints (e_debugger s) = {}"
    "sram_data (e_scratchpad s) = replicate m 0" "4 dvd unat ?p" "blocks (e_block_cache s) ?p = None"
    using assms(1) by (simp_all add: on_sled_def fast_ok_def)
  obtain j blk where blk: "decode_block (sram_read32 (e_scratchpad s)) ?p 32 = Ok blk" "ops blk = replicate (Suc j) \<lparr>raw = 0\<rparr>"
    "unat ?p + 4 * Suc j \<le> m"
    using zero_block [OF _ assms(2,3,4) f(7), of "sram_read32 (e_scratchpad s)" 31] zero_read [OF f(2,6)]
    by (fastforce simp: decode_block_def)
  define c1 where "c1 = block_put ?p blk ((e_block_cache s)\<lparr>bc_misses := bc_misses (e_block_cache s) + 1\<rparr>)"
  have b: "emu_block s = (Ok blk, set_bc c1 s)"
    using f(8) blk(1) by (simp add: emu_block_def block_translate_def bind_def c1_def set_bc_def)
  have "fast_ok m k (set_bc c1 s)" using f(1) by (simp add: fast_ok_def inv_defs quiet_def set_bc_def)
  from replay_nops [OF this, of "ops blk" h] f(4,5) blk(2) obtain s' where
    s': "replay h (ops blk) (set_bc c1 s) = (Ok (), s')" "fast_ok m k s'" "e_scratchpad s' = e_scratchpad s"
    "\<not> halt (e_regs s')" "breakpoints (e_debugger s') = {}" "pc (e_regs s') = ?p + of_nat (4 * Suc j)" "e_block_cache s' = c1"
    by auto
  have pc: "unat (pc (e_regs s')) = unat ?p + 4 * Suc j"
    using blk(3) assms(3) unfolding s'(6) by (simp only: unat_word_ariths unat_of_nat) (simp add: take_bit_nat_eq_self)
  have "fast_turn h s = (Ok (), s')" using f(3) b s'(1) by (simp add: fast_turn_def bind_eq)
  moreover have "on_sled m k s'"
    using s' f(6,7) pc blk(3) assms(1) by (auto simp: on_sled_def c1_def block_put_def)
  ultimately show ?thesis using pc by auto
qed

lemma sled_end:
  assumes "on_sled m k s" and "unat (pc (e_regs s)) = m"
  shows "\<exists>s'. fast_turn h s = (Err (SramOutOfBounds (pc (e_regs s)) 4), s')"
proof -
  have f: "emu_inv m k s" "\<not> e_verbose s" "sram_data (e_scratchpad s) = replicate m 0" "blocks (e_block_cache s) (pc (e_regs s)) = None"
    using assms by (simp_all add: on_sled_def fast_ok_def)
  then show ?thesis
    using zero_read [OF f(1,3), of "pc (e_regs s)"] assms(2)
    by (simp add: fast_turn_def bind_def emu_block_def block_translate_def decode_block_def numeral_eq_Suc)
qed

lemma sled_throws:
  assumes "on_sled m k s" and "64 dvd m" and "m < 2 ^ 32" and "m - unat (pc (e_regs s)) < n"
  shows "\<exists>s'. fast_loop h n s = Some (Err (SramOutOfBounds (of_nat m) 4), s')"
  using assms(1,4)
proof (induction n arbitrary: s)
  case (Suc n)
  show ?case
  proof (cases "unat (pc (e_regs s)) < m")
    case True
    from sled_turn [OF Suc.prems(1) assms(2,3) True, of h] obtain s1 where
      s1: "fast_turn h s = (Ok (), s1)" "on_sled m k s1" "unat (pc (e_regs s)) < unat (pc (e_regs s1))" by blast
    with Suc.IH [OF s1(2)] Suc.prems(2) True sled_running [OF Suc.prems(1)] show ?thesis by (simp add: fast_loop.simps [of h "Suc n"])
  next
    case False
    then have "unat (pc (e_regs s)) = m" using Suc.prems(1) by (simp add: on_sled_def)
    with sled_end [OF Suc.prems(1), of h] sled_running [OF Suc.prems(1)] show ?thesis
      by (auto simp: fast_loop.simps [of h "Suc n"])
  qed
qed simp

lemma empty_sample_setup:
  assumes "fe_program r = []" and "wf_target (fe_target r)"
  shows "\<exists>s. sample_setup r new_emulator = (Ok (), s) \<and> on_sled 67108864 67108864 s"
proof -
  let ?s = "set_target (fe_target r) new_emulator"
  have fr: "cm_fresh 67108864 67108864 ?s" by (rule cm_fresh_config(1) [OF new_fresh assms(2)])
  have z: "sram_data (e_scratchpad ?s) = replicate 67108864 0"
    by (simp add: set_target_def new_emulator_def emu_new_def sram_new_def SCRATCHPAD_SIZE_def)
  from load_words_ok [OF fr, of "[]"] obtain s1 where s1: "load_program [] 0 ?s = (Ok (), s1)" "cm_fresh 67108864 67108864 s1"
    "sram_data (e_scratchpad s1) = replicate 67108864 0" "blocks (e_block_cache s1) = Map.empty"
    using z by (simp add: bc_clear_def splice_at_def bytes_of_words_def)
  from load_mat_ok [OF s1(2), of 0 identity_matrix] obtain s2 where s2: "load_mat 0 (Some identity_matrix) s1 = (Ok (), s2)"
    "cm_fresh 67108864 67108864 s2" "e_scratchpad s2 = e_scratchpad s1" "e_block_cache s2 = e_block_cache s1" by simp
  from load_mat_ok [OF s2(2), of 64 counting_matrix] obtain s3 where s3: "load_mat 64 (Some counting_matrix) s2 = (Ok (), s3)"
    "cm_fresh 67108864 67108864 s3" "e_scratchpad s3 = e_scratchpad s2" "e_block_cache s3 = e_block_cache s2" by simp
  have "sample_setup r new_emulator = (Ok (), s3)"
    using s1(1) s2(1) s3(1) assms(1) by (simp add: sample_setup_def bind_def load_mat_def)
  moreover have "on_sled 67108864 67108864 s3"
    using s3(2-4) s2(3,4) s1(3,4) by (simp add: on_sled_def cm_fresh_def)
  ultimately show ?thesis by blast
qed

lemma unopened_sample:
  assumes "67108864 < fuel"
  shows "after_sample h fuel None path txt = Terminated"
proof -
  let ?r = "load_result_init\<lparr>fe_diag := ''cannot open '' @ path\<rparr>"
  have "fe_program ?r = []" "wf_target (fe_target ?r)" by (simp_all add: load_result_init_def)
  from empty_sample_setup [OF this] obtain s where s: "sample_setup ?r new_emulator = (Ok (), s)" "on_sled 67108864 67108864 s"
    by blast
  have "67108864 - unat (pc (e_regs s)) < fuel" using assms by linarith
  from sled_throws [OF s(2) _ _ this, of h] show ?thesis
    using s(1) by (auto simp: after_sample_def frontend_load_def sample_run_def run_fast_def flush_uart_def)
qed

section \<open>Properties of the samples\<close>

text \<open>
  C36. A sample source that cannot be opened ends the whole program: the demonstration does not look
  at the result of the front end, so the machine runs an empty program, executes a \<open>NOP\<close> for
  each of the sixteen million zero words of its scratchpad and then throws an exception that nobody
  catches. This holds for the samples of the front-end section and for the last line of the
  benchmark suite.
\<close>

theorem missing_sample_terminates:
  assumes "67108864 < fuel"
  shows "frontend_demo h fuel None path = Terminated \<and> coremark_source_demo h fuel None = Terminated"
  unfolding frontend_demo_def coremark_source_demo_def using unopened_sample [OF assms] by blast

theorem missing_sample_terminates_witness:
  "frontend_demo demo_host 67108865 None ''examples/accel.sv'' = Terminated"
  using missing_sample_terminates [of 67108865 demo_host "''examples/accel.sv''"] by simp

text \<open>The benchmark suite reports success under both target profiles.\<close>

theorem coremark_suite_passes:
  "\<exists>out1 out2. coremark_demo h mac wall1 34 make_cpu_profile
      = Some (Ok (out1 @ ''  checks: list=PASS matrix=PASS crc=PASS  OVERALL PASS'' @ newline))
    \<and> coremark_demo h mac wall2 34 make_gpu_profile
      = Some (Ok (out2 @ ''  checks: list=PASS matrix=PASS crc=PASS  OVERALL PASS'' @ newline))"
proof -
  have "\<exists>out. coremark_demo h mac wall 34 p = Some (Ok (out @ ''  checks: list=PASS matrix=PASS crc=PASS  OVERALL PASS'' @ newline))"
    if "wf_target p" "length (target_name p) \<le> 600" for p wall
  proof -
    from coremark_report_ok [OF cm_fresh_config(1) [OF new_fresh that(1)] _ _ length_matrices, of h mac wall 100 True] that(2)
    obtain r s' out where "coremark_main h mac wall 34 100 True (Some identity_matrix) (Some counting_matrix) (set_target p new_emulator) = Some (Ok r, s')"
      "coremark_report r = out @ ''  checks: list=PASS matrix=PASS crc=PASS  OVERALL PASS'' @ newline" by (auto simp: set_target_def)
    then show ?thesis by (simp add: coremark_demo_def)
  qed
  moreover have "length (target_name make_cpu_profile) \<le> 600" "length (target_name make_gpu_profile) \<le> 600"
    by (simp_all add: make_cpu_profile_def make_gpu_profile_def set_override_def)
  ultimately show ?thesis by simp
qed

section \<open>The checks of the demonstration program\<close>

lemma load_main_ram_scratchpad: "e_scratchpad (snd (load_main_ram addr bs n s)) = e_scratchpad s"
  by (simp add: load_main_ram_def update_res_def split: res.split)

lemma demo_load_listing:
  assumes "demo_load new_emulator = (Ok (), s)"
  shows "disassemble_range (e_scratchpad s) 0 (of_nat (length main_program)) = Ok (listing 0 main_program)"
proof -
  from assms obtain s1 s2 where "load_program main_program (of_nat (length main_program)) new_emulator = (Ok (), s1)"
    and ld: "load_main_ram MAIN_A (bytes_of_words identity_matrix) 64 s1 = (Ok (), s2)" "load_main_ram MAIN_B (bytes_of_words counting_matrix) 64 s2 = (Ok (), s)"
    unfolding demo_load_def by (auto elim!: bind_OkE)
  moreover have "e_scratchpad s = e_scratchpad s1"
    using load_main_ram_scratchpad [of MAIN_A "bytes_of_words identity_matrix" 64 s1] load_main_ram_scratchpad [of MAIN_B "bytes_of_words counting_matrix" 64 s2] ld
    by simp
  moreover have "emu_inv 67108864 67108864 new_emulator" using new_fresh by (simp add: cm_fresh_def fast_ok_def)
  ultimately show ?thesis using listing_loaded [of 67108864 67108864 new_emulator main_program s1] by (simp add: main_words)
qed

lemma matmul_lines_counting:
  "matmul_lines counting_matrix = ''     1.0     2.0     3.0     4.0'' @ newline @ ''     5.0     6.0     7.0     8.0'' @ newline
     @ ''     9.0    10.0    11.0    12.0'' @ newline @ ''    13.0    14.0    15.0    16.0'' @ newline"
  by (simp add: matmul_lines_def counting_matrix_def upt_rec fmt_61f_def float_text_def float_finite_def float_mag_def fmt_f_def decimal_def dbl_frac_def
      rnd_even_def pad_left_def print_eval) (simp add: numeral_eq_Suc)

text \<open>
  C37. The checks of \<open>main\<close> print \<open>PASS\<close>: with an arithmetic in which zero and one are neutral on the
  numbers 1 to 16, and in which none of them is far from itself, the silent run prints the halting
  address, the sum 15 and the matrix, and passes both checks; the runs under every target
  profile and the comparison of the accelerated with the scalar run pass as well.
\<close>

theorem demo_prints_pass:
  assumes "exact_identity (h_fpu h)" and "\<forall>x \<in> set counting_matrix. \<not> far x x" and "wf_target p"
  shows "(\<exists>rep s. verify_demo h far 33 = Some (Ok (
      ''=== Program Disassembly (21 instructions) ==='' @ newline @ c_string (listing 0 main_program) @ newline
    @ ''=== Running (silent) ==='' @ newline @ ''Execution halted at PC=0x00000054'' @ newline @ newline
    @ ''=== Verification ==='' @ newline @ ''r3 (scalar sum) = 15  (expected 15)  PASS'' @ newline
    @ ''Matmul result (identity * B = B):'' @ newline @ ''     1.0     2.0     3.0     4.0'' @ newline @ ''     5.0     6.0     7.0     8.0'' @ newline
    @ ''     9.0    10.0    11.0    12.0'' @ newline @ ''    13.0    14.0    15.0    16.0'' @ newline
    @ ''MATMUL correct: PASS'' @ newline @ newline @ rep), s))
  \<and> (\<exists>out. bench_demo h far 33 us label p = Some (Ok (out @ ''%  PASS (bit-identical)'' @ newline)))
  \<and> accuracy_demo h 33 = Some (Ok (''Host accel vs scalar: PASS (FP32 bit-identical)'' @ newline))"
proof (intro conjI)
  have prod: "product (h_fpu h) identity_matrix counting_matrix = counting_matrix" by (rule identity_product [OF assms(1)])
  have close: "close_to_b far counting_matrix" using assms(2) by (simp add: close_to_b_def list_all2_same)
  have run: "\<exists>s'. run_demo h 33 use_fast s = Some (Ok (15, counting_matrix), s')" if "cm_fresh 67108864 67108864 s" for s use_fast
    using demo_runs [OF that, of h use_fast] prod by simp
  obtain s1 s2 where "accuracy_ref h 33 = Some (Ok (15, counting_matrix), s1)" "accuracy_fast h 33 = Some (Ok (15, counting_matrix), s2)"
    using run [OF cm_fresh_config(2) [OF new_fresh]] unfolding accuracy_ref_def accuracy_fast_def by metis
  moreover have "list_all2 (\<lambda>x y. \<not> float_ne x y) counting_matrix counting_matrix" by code_simp
  ultimately show "accuracy_demo h 33 = Some (Ok (''Host accel vs scalar: PASS (FP32 bit-identical)'' @ newline))"
    by (simp add: accuracy_demo_def pass_fail_def)
  obtain s3 where "bench_target h 33 p = Some (Ok (15, counting_matrix), s3)"
    using run [OF cm_fresh_config(1) [OF new_fresh assms(3)]] unfolding bench_target_def by blast
  then show "\<exists>out. bench_demo h far 33 us label p = Some (Ok (out @ ''%  PASS (bit-identical)'' @ newline))"
    using close by (auto simp: bench_demo_def append_assoc [symmetric] simp del: append_assoc append.simps)
  obtain s4 s5 where s: "demo_load new_emulator = (Ok (), s4)" "run h 33 s4 = Some (Ok (), s5)" "demo_result s5 = (Ok (15, counting_matrix), s5)"
    "emu_inv 67108864 67108864 s5" "pc (e_regs s5) = 0x54"
    using demo_runs_to [OF new_fresh, of False h] prod by auto
  from demo_load_listing [OF s(1)] have "disassemble_range (e_scratchpad s4) 0 (of_nat (length main_program)) = Ok (listing 0 main_program)" .
  moreover have "\<exists>bs. sram_read_bytes (e_scratchpad s5) SCRATCH_A 64 = Ok bs"
    using sram_store.rd_ok [OF inv_parts(5) [OF s(4)], of SCRATCH_A 64] s(4) by (simp add: inv_defs SCRATCH_A_def)
  moreover have "fmt_08X 0x54 = ''00000054''" by (simp add: fmt_08X_def pad_left_def print_eval) (simp add: numeral_eq_Suc)
  ultimately show "\<exists>rep s. verify_demo h far 33 = Some (Ok (
      ''=== Program Disassembly (21 instructions) ==='' @ newline @ c_string (listing 0 main_program) @ newline
    @ ''=== Running (silent) ==='' @ newline @ ''Execution halted at PC=0x00000054'' @ newline @ newline
    @ ''=== Verification ==='' @ newline @ ''r3 (scalar sum) = 15  (expected 15)  PASS'' @ newline
    @ ''Matmul result (identity * B = B):'' @ newline @ ''     1.0     2.0     3.0     4.0'' @ newline @ ''     5.0     6.0     7.0     8.0'' @ newline
    @ ''     9.0    10.0    11.0    12.0'' @ newline @ ''    13.0    14.0    15.0    16.0'' @ newline
    @ ''MATMUL correct: PASS'' @ newline @ newline @ rep), s)"
    using s close by (auto simp: verify_demo_def and_then_def verify_text_def bind_def main_words matmul_lines_counting pass_fail_def print_eval)
qed

theorem demo_prints_pass_witness:
  "accuracy_demo one_host 33 = Some (Ok (''Host accel vs scalar: PASS (FP32 bit-identical)'' @ newline))
   \<and> (\<exists>out. bench_demo one_host (\<noteq>) 33 120 ''GPU (warp32)'' make_gpu_profile = Some (Ok (out @ ''%  PASS (bit-identical)'' @ newline)))"
proof -
  have "exact_identity (h_fpu one_host)" by (simp add: exact_identity_def one_host_def counting_matrix_def)
  from demo_prints_pass [OF this, of "(\<noteq>)" make_gpu_profile 120 "''GPU (warp32)''"] show ?thesis by simp
qed

end
