(* ===== verification/Kernel.thy ===== *)
theory Kernel
  imports Cli
begin

text \<open>
  The program that \<^verbatim>\<open>src/frontend.cpp\<close> emits for a kernel pragma without operations, on the two
  run loops of \<^verbatim>\<open>src/emulator.cpp\<close>. Its address registers \<open>r5\<close> and \<open>r6\<close> are never set, so that
  it loads its own text as matrices and stores the product over it. \<open>run\<close> fetches the product
  where the \<open>HALT\<close> was; \<open>run_fast\<close>, which has decoded the text before, halts.
\<close>

section \<open>Up to a breakpoint\<close>

text \<open>The specification up to the address \<open>bp\<close>, every instruction with valid operands.\<close>

fun isa_stop :: "fpu \<Rightarrow> u32 \<Rightarrow> nat \<Rightarrow> arch \<Rightarrow> arch option" where
  "isa_stop fp bp 0 A = (if a_pc A = bp then Some A else None)"
| "isa_stop fp bp (Suc n) A =
     (if a_pc A = bp then Some A
      else if a_halt A \<or> \<not> isa_ready A then None
      else case isa_step fp A of Some B \<Rightarrow> isa_stop fp bp n B | None \<Rightarrow> None)"

lemma isa_stop_numeral:
  "isa_stop fp bp (numeral k) A =
     (if a_pc A = bp then Some A
      else if a_halt A \<or> \<not> isa_ready A then None
      else case isa_step fp A of Some B \<Rightarrow> isa_stop fp bp (pred_numeral k) B | None \<Rightarrow> None)"
  by (simp add: numeral_eq_Suc)

lemma run_loop_isa_stop:
  assumes "emu_inv m k s" and "quiet s" and "breakpoints (e_debugger s) = {bp}"
    and "isa_stop (h_fpu h) bp n (arch_of s) = Some B"
  shows "\<exists>s'. run_loop h n s = Some (Ok (), s') \<and> arch_of s' = B \<and> emu_inv m k s'"
  using assms
proof (induction n arbitrary: s)
  case 0
  then show ?case
    by (auto simp: run_loop.simps [of h 0] stopped_def dbg_has_breakpoint_def split: if_splits)
next
  case (Suc n)
  show ?case
  proof (cases "pc (e_regs s) = bp")
    case True
    with Suc.prems show ?thesis
      by (auto simp: run_loop.simps [of h "Suc n"] stopped_def dbg_has_breakpoint_def)
  next
    case False
    with Suc.prems(4) obtain A1 where nh: "\<not> halt (e_regs s)" and rdy: "isa_ready (arch_of s)"
      and A1: "isa_step (h_fpu h) (arch_of s) = Some A1" "isa_stop (h_fpu h) bp n A1 = Some B"
      by (auto split: if_splits option.splits)
    from step_implements [OF Suc.prems(1,2) rdy nh, of h] A1(1) obtain s1 where
      s1: "step h s = (Ok (), s1)" "arch_of s1 = A1" "frame s s1" by auto
    have "emu_inv m k s1" using preservesD [OF pres_step Suc.prems(1), of h] s1(1) by simp
    moreover have "breakpoints (e_debugger s1) = {bp}" using s1(3) Suc.prems(3) by (simp add: frame_def)
    ultimately have "\<exists>s'. run_loop h n s1 = Some (Ok (), s') \<and> arch_of s' = B \<and> emu_inv m k s'"
      using Suc.IH [of s1] quiet_frame [OF s1(3) Suc.prems(2)] s1(2) A1(2) by simp
    moreover have "\<not> stopped s" using nh False Suc.prems(3) by (simp add: stopped_def dbg_has_breakpoint_def)
    ultimately show ?thesis using s1(1) by (simp add: run_loop.simps [of h "Suc n" s])
  qed
qed

section \<open>Replay of a block\<close>

text \<open>The instructions of a block one after the other, whatever memory holds in the meantime.\<close>

fun isa_replay :: "fpu \<Rightarrow> instruction list \<Rightarrow> arch \<Rightarrow> arch option" where
  "isa_replay fp [] A = Some A"
| "isa_replay fp (i # is) A =
     (if a_halt A then Some A
      else if operands_ok (instr_opcode i) i (advance A)
      then (case isa_exec fp (instr_opcode i) i (advance A) of
          Some B \<Rightarrow> if is_control (instr_opcode i) then Some B else isa_replay fp is B
        | None \<Rightarrow> None)
      else None)"

lemma exec_one_implements:
  assumes "emu_inv m k s" and "quiet s" and "operands_ok (instr_opcode i) i (advance (arch_of s))"
    and "isa_exec (h_fpu h) (instr_opcode i) i (advance (arch_of s)) = Some B"
  shows "\<exists>s'. exec_one h i s = (Ok (), s') \<and> arch_of s' = B \<and> frame s s' \<and> emu_inv m k s'"
proof -
  let ?s1 = "s\<lparr>e_regs := (e_regs s)\<lparr>pc := pc (e_regs s) + 4\<rparr>\<rparr>"
  have ar: "arch_of ?s1 = advance (arch_of s)" using arch_of_upd(1) [where s = s] by (simp add: advance_def)
  have inv: "emu_inv m k ?s1" using assms(1) by (simp add: inv_frames kept_regs)
  have q: "quiet ?s1" using quiet_frame [OF frame_simps(2) assms(2)] .
  from execute_implements [OF inv q, of i h] assms(3,4) ar obtain c s2 where
    s2: "execute h i ?s1 = (Ok c, s2)" "arch_of s2 = B" "frame ?s1 s2"
    by (cases "execute h i ?s1") (auto simp: implements_def)
  have "emu_inv m k s2" using preservesD [OF pres_execute inv, of h i] s2(1) by simp
  then have "emu_inv m k (tick_peripherals s2)" by (rule inv_tick_peripherals)
  moreover have "exec_one h i s = (Ok (), tick_peripherals s2)"
    using s2(1) by (simp add: exec_one_def set_pc_def bind_eq)
  ultimately show ?thesis
    using tick_frame [of s2] s2(2) frame_trans [OF frame_trans [OF frame_simps(2) s2(3)]] by auto
qed

lemma replay_implements:
  assumes "emu_inv m k s" and "quiet s" and "breakpoints (e_debugger s) = {}"
    and "isa_replay (h_fpu h) is (arch_of s) = Some B"
  shows "\<exists>s'. replay h is s = (Ok (), s') \<and> arch_of s' = B \<and> emu_inv m k s'"
  using assms
proof (induction "is" arbitrary: s)
  case (Cons i "is")
  have st: "stopped s \<longleftrightarrow> halt (e_regs s)"
    using Cons.prems(3) by (simp add: stopped_def dbg_has_breakpoint_def)
  show ?case
  proof (cases "halt (e_regs s)")
    case True
    with Cons.prems st show ?thesis by (simp add: replay_Cons del: replay.simps)
  next
    case False
    with Cons.prems(4) obtain C where ops: "operands_ok (instr_opcode i) i (advance (arch_of s))"
      and ex: "isa_exec (h_fpu h) (instr_opcode i) i (advance (arch_of s)) = Some C"
      and rest: "if is_control (instr_opcode i) then B = C else isa_replay (h_fpu h) is C = Some B"
      by (auto split: if_splits option.splits)
    from exec_one_implements [OF Cons.prems(1,2) ops ex] obtain s1 where
      s1: "exec_one h i s = (Ok (), s1)" "arch_of s1 = C" "frame s s1" "emu_inv m k s1" by blast
    have "breakpoints (e_debugger s1) = {}" using s1(3) Cons.prems(3) by (simp add: frame_def)
    with Cons.IH [OF s1(4) quiet_frame [OF s1(3) Cons.prems(2)]] s1 rest False st show ?thesis
      by (auto simp: replay_Cons bind_eq simp del: replay.simps split: if_splits)
  qed
qed simp

text \<open>One block that ends in \<open>HALT\<close>, not in the cache before: one turn of the fast loop.\<close>

lemma run_fast_block:
  assumes fr: "cm_fresh m k s" and no: "blocks (e_block_cache s) 0 = None"
    and blk: "decode_block (sram_read32 (e_scratchpad s)) 0 32 = Ok blk"
    and run: "isa_replay (h_fpu h) (ops blk) (arch_of s) = Some B" and halted: "a_halt B"
  shows "\<exists>s'. run_fast h 1 s = Some (Ok (), s') \<and> arch_of s' = B"
proof -
  let ?c = "block_put 0 blk ((e_block_cache s)\<lparr>bc_misses := bc_misses (e_block_cache s) + 1\<rparr>)"
  have f: "emu_inv m k s" "quiet s" "\<not> e_verbose s" "breakpoints (e_debugger s) = {}" "pc (e_regs s) = 0" "\<not> halt (e_regs s)"
    using fr by (simp_all add: cm_fresh_def fast_ok_def)
  have eb: "emu_block s = (Ok blk, s\<lparr>e_block_cache := ?c\<rparr>)"
    using no blk f(5) by (simp add: emu_block_def block_translate_def bind_def)
  have "emu_inv m k (s\<lparr>e_block_cache := ?c\<rparr>)" "quiet (s\<lparr>e_block_cache := ?c\<rparr>)"
    using f(1,2) by (simp_all add: inv_frames quiet_def)
  from replay_implements [OF this, of h "ops blk" B] f(4) run obtain s1 where
    s1: "replay h (ops blk) (s\<lparr>e_block_cache := ?c\<rparr>) = (Ok (), s1)" "arch_of s1 = B" by auto
  have "halt (e_regs s1)" using s1(2) halted by (metis arch_of_sel(2))
  moreover have "\<not> stopped s" using f(4,6) by (simp add: stopped_def dbg_has_breakpoint_def)
  moreover have "fast_turn h s = (Ok (), s1)" using f(3) eb s1(1) by (simp add: fast_turn_def bind_eq)
  ultimately have "fast_loop h 1 s = Some (Ok (), s1)"
    by (simp add: fast_loop.simps [of h "Suc 0"] fast_loop.simps [of h 0] stopped_def)
  with s1(2) show ?thesis by (simp add: run_fast_def flush_uart_def)
qed

section \<open>The kernel program\<close>

text \<open>The first sixteen words of a new machine with the program: the program and ten zeros.\<close>

definition kernel_image :: "u32 list" where
  "kernel_image = kernel_program @ replicate 10 0"

lemma kernel_words:
  "length kernel_program = 6" "kernel_image ! 0 = enc_load_vr 0 5 0" "kernel_image ! Suc 0 = enc_load_vr 1 6 0"
  "kernel_image ! 2 = enc_vec_add 2 0 1" "kernel_image ! 3 = enc_matmul_tile 3 0 1 4" "kernel_image ! 4 = enc_store_vr 3 5 0"
  "kernel_image ! 5 = enc_halt"
  by (simp_all add: kernel_program_def kernel_image_def)

lemma length_kernel_image [simp]: "length kernel_image = 16"
  by (simp add: kernel_image_def kernel_words)

definition holds_image :: "arch \<Rightarrow> bool" where
  "holds_image A \<longleftrightarrow> slice 0 64 (a_mem A) = bytes_of_words kernel_image \<and> 64 \<le> length (a_mem A)"

lemma image_word:
  assumes "slice 0 64 mem = bytes_of_words ws" and "length ws = 16" and "i < 16" and "64 \<le> length mem"
  shows "le_word32 (slice (4 * i) 4 mem) = ws ! i"
proof -
  have "slice (4 * i) 4 mem = slice (4 * i) 4 (slice 0 64 mem)"
    using assms(3) by (simp add: slice_def drop_take min_def)
  with assms show ?thesis by (simp add: slice_bytes_of_words)
qed

lemma kernel_fetch:
  assumes "holds_image A" and "i < 6" and "a_pc A = of_nat (4 * i)"
  shows "fetched A = \<lparr>raw = kernel_image ! i\<rparr>" and "in_range (a_mem A) (a_pc A) 4" and "\<not> device_addr (a_pc A)"
proof -
  have pc: "unat (a_pc A) = 4 * i" using assms(2,3) by (simp add: unat_word_ariths unat_of_nat take_bit_nat_eq_self)
  show "fetched A = \<lparr>raw = kernel_image ! i\<rparr>"
    using image_word [of "a_mem A" kernel_image i] assms(1,2) by (simp add: fetched_def pc holds_image_def)
  show "in_range (a_mem A) (a_pc A) 4" using assms(1,2) by (simp add: in_range_def pc holds_image_def)
  show "\<not> device_addr (a_pc A)" using assms(2) pc by (simp add: device_addr_def MMIO_BASE_def word_le_nat_alt)
qed

text \<open>The product that the program computes, and memory with the product over the text.\<close>

definition kernel_product :: "fpu \<Rightarrow> u32 list" where
  "kernel_product fp = product fp kernel_image kernel_image"

lemma kernel_stores:
  assumes "slice 0 64 mem = bytes_of_words kernel_image" and "64 \<le> length mem"
  shows "slice 0 64 (splice_at 0 (bytes_of_words (kernel_product fp)) mem) = bytes_of_words (kernel_product fp)"
    and "words_of_bytes (slice 0 64 mem) = kernel_image"
  using slice_splice_at_same [of 0 "bytes_of_words (kernel_product fp)" mem] assms
  by (simp_all add: kernel_product_def words_of_bytes_of_words)

lemma kernel_isa:
  assumes A: "A = \<lparr>a_gpr = g, a_vr = V, a_pc = 0, a_halt = False, a_flags = f, a_mem = mem, a_dram = d\<rparr>"
    and im: "holds_image A" and g: "g 5 = 0" "g 6 = 0" and v: "length (V 3) = 16"
  obtains V' where
    "isa_stop fp 20 5 A = Some \<lparr>a_gpr = g, a_vr = V', a_pc = 20, a_halt = False, a_flags = f,
       a_mem = splice_at 0 (bytes_of_words (kernel_product fp)) mem, a_dram = d\<rparr>"
    "isa_replay fp (map (\<lambda>w. \<lparr>raw = w\<rparr>) kernel_program) A = Some \<lparr>a_gpr = g, a_vr = V', a_pc = 24, a_halt = True, a_flags = f,
       a_mem = splice_at 0 (bytes_of_words (kernel_product fp)) mem, a_dram = d\<rparr>"
proof -
  let ?A = "\<lambda>V p. \<lparr>a_gpr = g, a_vr = V, a_pc = p, a_halt = False, a_flags = f, a_mem = mem, a_dram = d\<rparr>"
  have im': "slice 0 64 mem = bytes_of_words kernel_image" "64 \<le> length mem" using im by (simp_all add: A holds_image_def)
  have fe: "fetched (?A V' (of_nat (4 * i))) = \<lparr>raw = kernel_image ! i\<rparr>" "in_range mem (of_nat (4 * i)) 4"
    "\<not> device_addr (of_nat (4 * i))" if "i < 5" for V' i
    using kernel_fetch [of "?A V' (of_nat (4 * i))" i] that im' by (simp_all add: holds_image_def)
  note fe' = fe [of 0] fe [of 1] fe [of 2] fe [of 3] fe [of 4]
  let ?X = "kernel_image" and ?Y = "map2 (fadd fp) kernel_image kernel_image"
  define V' where "V' = V(0 := ?X, 1 := ?X, 2 := ?Y, 3 := kernel_product fp)"
  have m: "matmul_ref fp 4 ?X ?X (V 3) = kernel_product fp" using v by (simp add: matmul_ref_product kernel_product_def)
  show thesis
  proof (rule that [of V'])
    show "isa_stop fp 20 5 A = Some \<lparr>a_gpr = g, a_vr = V', a_pc = 20, a_halt = False, a_flags = f,
       a_mem = splice_at 0 (bytes_of_words (kernel_product fp)) mem, a_dram = d\<rparr>"
      using fe' g im' m kernel_stores(2) [OF im'] v
      by (simp add: A isa_stop_numeral isa_step_def isa_ready_def kernel_words sym_exec V'_def)
    show "isa_replay fp (map (\<lambda>w. \<lparr>raw = w\<rparr>) kernel_program) A = Some \<lparr>a_gpr = g, a_vr = V', a_pc = 24, a_halt = True, a_flags = f,
       a_mem = splice_at 0 (bytes_of_words (kernel_product fp)) mem, a_dram = d\<rparr>"
      using g im' m kernel_stores(2) [OF im'] v
      by (simp add: A kernel_program_def sym_exec is_control_def V'_def)
  qed
qed

lemma decode_loop_numeral:
  "decode_loop rd (numeral k) cur blk = bind_res (rd cur) (\<lambda>w.
     let ins = \<lparr>raw = w\<rparr>; blk1 = blk\<lparr>ops := ops blk @ [ins]\<rparr>; cur1 = cur + 4; op = instr_opcode ins
     in if is_control op
        then Ok (blk1\<lparr>ends_with_branch := (op \<noteq> HALT), ends_with_halt := (op = HALT), end_pc := cur1\<rparr>)
        else if cur1 AND 0x3F = 0 then Ok (blk1\<lparr>end_pc := cur1\<rparr>)
        else decode_loop rd (pred_numeral k) cur1 blk1)"
  by (simp add: numeral_eq_Suc)

lemma kernel_block:
  assumes "holds_image (arch_of s)" and "emu_inv m k s"
  shows "\<exists>blk. decode_block (sram_read32 (e_scratchpad s)) 0 32 = Ok blk \<and> ops blk = map (\<lambda>w. \<lparr>raw = w\<rparr>) kernel_program"
proof -
  let ?rd = "sram_read32 (e_scratchpad s)"
  have rd: "?rd (of_nat (4 * i)) = Ok (kernel_image ! i)" if "i < 6" for i
  proof -
    have "unat (of_nat (4 * i) :: u32) = 4 * i" using that by (simp only: unat_of_nat) (simp add: take_bit_nat_eq_self)
    then show ?thesis
      using that assms image_word [of "sram_data (e_scratchpad s)" kernel_image i] inv_parts(5) [OF assms(2)]
      by (simp add: sram_read32_eq holds_image_def)
  qed
  show ?thesis
    using rd [of 0] rd [of 1] rd [of 2] rd [of 3] rd [of 4] rd [of 5]
    by (simp add: decode_block_def decode_loop_numeral Let_def kernel_words kernel_program_def enc_fields enc_r_fields enc_m_fields reg5_numerals is_control_def)
qed

text \<open>On any machine that is ready to run, has zeros in \<open>r5\<close> and \<open>r6\<close> and holds the program.\<close>

lemma kernel_runs:
  assumes fr: "cm_fresh m k s" and im: "holds_image (arch_of s)" and no: "blocks (e_block_cache s) 0 = None"
    and g: "gpr (e_regs s) ! 5 = 0" "gpr (e_regs s) ! 6 = 0"
  shows "(\<exists>s1. run h 5 (s\<lparr>e_debugger := dbg_add_breakpoint 20 (e_debugger s)\<rparr>) = Some (Ok (), s1)
        \<and> \<not> halt (e_regs s1) \<and> pc (e_regs s1) = 20 \<and> slice 0 64 (sram_data (e_scratchpad s1)) = bytes_of_words (kernel_product (h_fpu h))
        \<and> sram_read32 (e_scratchpad s1) 20 = Ok (kernel_product (h_fpu h) ! 5))
     \<and> (\<exists>s2. run_fast h 1 s = Some (Ok (), s2)
        \<and> halt (e_regs s2) \<and> pc (e_regs s2) = 24 \<and> slice 0 64 (sram_data (e_scratchpad s2)) = bytes_of_words (kernel_product (h_fpu h)))"
proof -
  let ?p = "bytes_of_words (kernel_product (h_fpu h))" and ?b = "s\<lparr>e_debugger := dbg_add_breakpoint 20 (e_debugger s)\<rparr>"
  have f: "emu_inv m k s" "quiet s" "breakpoints (e_debugger s) = {}" "pc (e_regs s) = 0" "\<not> halt (e_regs s)"
    using fr by (simp_all add: cm_fresh_def fast_ok_def)
  have A: "arch_of s = \<lparr>a_gpr = gprs (gpr (e_regs s)), a_vr = vrs (vr (e_regs s)), a_pc = 0, a_halt = False,
      a_flags = flags_of (status (e_regs s)), a_mem = sram_data (e_scratchpad s), a_dram = ram_data (e_main_ram s)\<rparr>"
    using f(4,5) by (simp add: arch_of_def)
  have g': "gprs (gpr (e_regs s)) 5 = 0" "gprs (gpr (e_regs s)) 6 = 0" using g by (simp_all add: gprs_def)
  from kernel_isa [OF A im g' cm_fresh_vr [OF fr], of "h_fpu h"] obtain V' where
    B: "isa_stop (h_fpu h) 20 5 (arch_of s) = Some \<lparr>a_gpr = gprs (gpr (e_regs s)), a_vr = V', a_pc = 20, a_halt = False,
        a_flags = flags_of (status (e_regs s)), a_mem = splice_at 0 ?p (sram_data (e_scratchpad s)), a_dram = ram_data (e_main_ram s)\<rparr>"
    and C: "isa_replay (h_fpu h) (map (\<lambda>w. \<lparr>raw = w\<rparr>) kernel_program) (arch_of s) = Some \<lparr>a_gpr = gprs (gpr (e_regs s)), a_vr = V', a_pc = 24, a_halt = True,
        a_flags = flags_of (status (e_regs s)), a_mem = splice_at 0 ?p (sram_data (e_scratchpad s)), a_dram = ram_data (e_main_ram s)\<rparr>" by blast
  have st: "slice 0 64 (splice_at 0 ?p (sram_data (e_scratchpad s))) = ?p"
    using im by (intro kernel_stores(1)) (simp_all add: holds_image_def)
  have "arch_of ?b = arch_of s" "quiet ?b" "breakpoints (e_debugger ?b) = {20}"
    using f(2,3) by (simp_all add: arch_of_def quiet_def dbg_add_breakpoint_def)
  with run_loop_isa_stop [OF inv_config(5) [OF f(1)], of "dbg_add_breakpoint 20 (e_debugger s)" 20 h 5] B obtain s1 where
    s1: "run_loop h 5 ?b = Some (Ok (), s1)" "arch_of s1 = \<lparr>a_gpr = gprs (gpr (e_regs s)), a_vr = V', a_pc = 20, a_halt = False,
        a_flags = flags_of (status (e_regs s)), a_mem = splice_at 0 ?p (sram_data (e_scratchpad s)), a_dram = ram_data (e_main_ram s)\<rparr>" "emu_inv m k s1" by auto
  have mem1: "sram_data (e_scratchpad s1) = splice_at 0 ?p (sram_data (e_scratchpad s))" using s1(2) by (simp add: arch_of_def)
  have "64 \<le> length (sram_data (e_scratchpad s))" using im by (simp add: holds_image_def)
  then have rd1: "sram_read32 (e_scratchpad s1) 20 = Ok (kernel_product (h_fpu h) ! 5)"
    using image_word [of "sram_data (e_scratchpad s1)" "kernel_product (h_fpu h)" 5] st inv_parts(5) [OF s1(3)]
    by (simp add: sram_read32_eq mem1 kernel_product_def)
  from kernel_block [OF im f(1)] obtain blk where
    blk: "decode_block (sram_read32 (e_scratchpad s)) 0 32 = Ok blk" "ops blk = map (\<lambda>w. \<lparr>raw = w\<rparr>) kernel_program" by blast
  from run_fast_block [OF fr no blk(1), of h] C blk(2) obtain s2 where
    s2: "run_fast h 1 s = Some (Ok (), s2)" "arch_of s2 = \<lparr>a_gpr = gprs (gpr (e_regs s)), a_vr = V', a_pc = 24, a_halt = True,
        a_flags = flags_of (status (e_regs s)), a_mem = splice_at 0 ?p (sram_data (e_scratchpad s)), a_dram = ram_data (e_main_ram s)\<rparr>" by auto
  show ?thesis
    using s1(1,2) s2 st rd1 by (auto simp: run_def flush_uart_def arch_of_def)
qed

text \<open>
  C29. The program that a kernel pragma is lowered to overwrites itself, and the two run loops
  disagree on it. Loaded into a new machine, it multiplies its own text, taken as a matrix of
  floats, by itself and stores the product over the text. \<open>run\<close>, stopped by a breakpoint at the
  address of the \<open>HALT\<close>, finds the machine not halted and an element of the product where
  the \<open>HALT\<close> was, which it would execute next. \<open>run_fast\<close>, which replays the text it has
  decoded before, comes to \<open>HALT\<close> in one block, with the same product over the text.
\<close>

theorem kernel_overwrites_itself:
  "\<exists>s. load_program kernel_program 6 new_emulator = (Ok (), s)
    \<and> (\<exists>s1. run h 5 (s\<lparr>e_debugger := dbg_add_breakpoint 20 (e_debugger s)\<rparr>) = Some (Ok (), s1)
        \<and> \<not> halt (e_regs s1) \<and> pc (e_regs s1) = 20
        \<and> slice 0 64 (sram_data (e_scratchpad s1)) = bytes_of_words (product (h_fpu h) kernel_image kernel_image)
        \<and> sram_read32 (e_scratchpad s1) 20 = Ok (dot (h_fpu h) kernel_image kernel_image 4 1 1))
    \<and> (\<exists>s2. run_fast h 1 s = Some (Ok (), s2) \<and> halt (e_regs s2) \<and> pc (e_regs s2) = 24
        \<and> slice 0 64 (sram_data (e_scratchpad s2)) = bytes_of_words (product (h_fpu h) kernel_image kernel_image))"
proof -
  let ?m = "67108864 :: nat"
  define s where "s = new_emulator\<lparr>e_scratchpad := (e_scratchpad new_emulator)\<lparr>sram_data :=
      splice_at 0 (bytes_of_words kernel_program) (sram_data (e_scratchpad new_emulator))\<rparr>,
      e_block_cache := bc_clear (e_block_cache new_emulator)\<rparr>"
  have s: "load_program kernel_program 6 new_emulator = (Ok (), s)" "cm_fresh ?m ?m s"
    using load_words_ok [OF new_fresh, of kernel_program] by (simp_all add: s_def kernel_words)
  have zeros: "bytes_of_words (replicate 10 0) = replicate 40 0" by code_simp
  have "slice 0 64 (splice_at 0 (bytes_of_words kernel_program) (replicate n 0)) = bytes_of_words kernel_image" if "64 \<le> n" for n
  proof -
    have "bytes_of_words kernel_image = bytes_of_words kernel_program @ replicate 40 0"
      by (simp only: kernel_image_def zeros [symmetric]) (simp add: bytes_of_words_def)
    moreover have "take 40 (replicate (n - 24) (0 :: u8)) = replicate 40 0"
      using that by (simp only: take_replicate) (simp add: min_def)
    ultimately show ?thesis by (simp only: slice_def splice_at_def) (simp add: kernel_words del: take_replicate)
  qed
  then have im: "holds_image (arch_of s)"
    using cm_fresh_sizes(1) [OF s(2)]
    by (simp add: holds_image_def s_def new_emulator_def emu_new_def sram_new_def SCRATCHPAD_SIZE_def)
  have "blocks (e_block_cache s) 0 = None" "gpr (e_regs s) ! 5 = 0" "gpr (e_regs s) ! 6 = 0"
    by (simp_all add: s_def bc_clear_def new_emulator_def emu_new_def regs_init_def)
  from kernel_runs [OF s(2) im this, of h] s(1) show ?thesis
    by (auto simp: kernel_product_def product_def [of _ kernel_image kernel_image])
qed

end
