(* ===== verification/Spec2Isabelle.thy ===== *)
theory Spec2Isabelle
  imports Guest Demos Kernel
begin

text \<open>
  A verification of the Novium emulator, a C++ simulator of an AI accelerator with its own
  32-bit instruction set (\<^verbatim>\<open>src/include/aiasm\<close>, \<^verbatim>\<open>src/src\<close>).

  \<^bold>\<open>The program.\<close> \<open>class Emulator\<close> (\<^verbatim>\<open>emulator.h\<close>, \<^verbatim>\<open>emulator.cpp\<close>) owns a scratchpad memory
  and a main memory, sixteen scalar and eight vector registers, control and status registers,
  an MMU with a TLB, a bus with a timer and a UART behind a memory-mapped window, an AXI fabric,
  an interrupt controller, a profiler, a debugger, a target profile and a cache of decoded
  blocks. \<open>step\<close> checks for interrupts, fetches (through the MMU when it is on), dispatches to
  one of eighteen handlers, accounts the cycles and ticks the peripherals; \<open>run\<close> repeats it;
  \<open>run_fast\<close> replays decoded blocks. A C interface wraps the class. Beside the core stand a
  translator from RISC-V, ARM64 and PTX to the native instruction set, a front end that turns
  annotated C++ and assembly sources into programs, a CoreMark-style benchmark, a cluster of
  emulators with a shared memory window and a global clock, and models that the core does not
  call: a cache hierarchy, a pipeline with a branch predictor, a timing controller, a
  deterministic clock, a warp scheduler, performance counters, checkpoints, a trace buffer, a
  transaction-level bridge and an FPGA synchroniser.

  \<^bold>\<open>How it is modelled.\<close> A struct or class is a record, an enumeration a datatype, \<open>uint8_t\<close> to
  \<open>uint64_t\<close> and \<open>size_t\<close> are words of their width (so that arithmetic wraps where the code
  wraps), an array or vector a list, an exception a value: \<open>Prelude\<close> has the results
  \<open>Ok\<close>, \<open>Err\<close> and \<open>Undef\<close> (undefined behaviour, such as an index outside an array) and a state
  monad in which an exception keeps the state it was thrown in. Floating-point addition and
  multiplication are parameters: the theorems hold for whatever the hardware computes.

  \<^descr> \<open>Prelude\<close>: results, state monad, byte buffers, little-endian images, masks.
  \<^descr> \<open>Config\<close>, \<open>Isa\<close>, \<open>Asm\<close>, \<open>Format\<close>, \<open>Disasm\<close>: \<^verbatim>\<open>config.h\<close>, \<^verbatim>\<open>isa.h\<close>. Encoding and decoding
    are inverse; the disassembler never truncates; the bit-field views show other fields.
  \<^descr> \<open>Registers\<close>, \<open>Memory\<close>, \<open>Devices\<close>, \<open>Bus\<close>, \<open>Csr\<close>, \<open>Profiler\<close>, \<open>Debugger\<close>, \<open>Target\<close>: the header
    of the same name. \<open>Memory\<close> states the contract \<open>byte_store\<close> of both memories as a locale.
  \<^descr> \<open>Interrupt\<close> (\<^verbatim>\<open>interrupt.h\<close>, \<^verbatim>\<open>interrupt.cpp\<close>): trap entry and return are inverse.
  \<^descr> \<open>Interconnect\<close>: issue and tick of a fabric; conservation of transactions.
  \<^descr> \<open>Memo\<close>: the contract \<open>memo_cache\<close> of a cache in front of a function, interpreted by the TLB
    in \<open>Mmu\<close> and by the block cache in \<open>Translate\<close>.
  \<^descr> \<open>Mmu\<close> (\<^verbatim>\<open>mmu.h\<close>, \<^verbatim>\<open>mmu.cpp\<close>): the Sv39 walk, permissions, TLB transparency, flush.
  \<^descr> \<open>Host\<close> (\<^verbatim>\<open>host.h\<close>), \<open>Translate\<close> (\<^verbatim>\<open>translate.h\<close>): SIMD kernels, block decoding.
  \<^descr> \<open>Decoder\<close> (\<^verbatim>\<open>decoder.h\<close>, \<^verbatim>\<open>decoder.cpp\<close>): guest translation; \<open>Guest\<close> proves translated
    straight-line RISC-V code of six instructions correct on the low halves of the 64-bit guest
    registers, through the locale \<open>straight_line\<close>.
  \<^descr> \<open>Emulator\<close>: the record \<open>emu\<close>, every handler, fetch, execute, step, both run loops, reset,
    loading, state serialisation. \<open>Emu_Inv\<close>: the invariant (shape, and well-formedness) and that
    every operation keeps it.
    \<open>Isa_Spec\<close>: the instruction set as seen by the programmer, and that the emulator implements
    it on a quiet machine for instructions with valid operands; the overflow flag is not part
    of it. \<open>Unseen\<close>: the locale of the parts that executing instructions does not look at,
    interpreted by the block cache in \<open>Fast\<close> and by the log in \<open>Console\<close>.
    \<open>Fast\<close>: \<open>run_fast\<close> agrees with \<open>run\<close>. \<open>Emu_Props\<close>: the states reachable through the
    public operations and the parts handed out by reference, traps, accounting, reset, loading, snapshots.
  \<^descr> \<open>CApi\<close>: the C interface and arbitrary sequences of its calls.
  \<^descr> \<open>Cache\<close> (\<^verbatim>\<open>cache.h\<close>, \<^verbatim>\<open>cache.cpp\<close>): the time-stamped cache refines an LRU list per set;
    counters of the hierarchy; stall bounds.
  \<^descr> \<open>Pipeline\<close> (\<^verbatim>\<open>pipeline.h\<close>, \<^verbatim>\<open>pipeline.cpp\<close>, \<^verbatim>\<open>timing.h\<close>, \<^verbatim>\<open>deterministic.h\<close>).
  \<^descr> \<open>Parallel\<close> (\<^verbatim>\<open>parallel.h\<close>): warps, the round-robin scheduler (no warp starves) and the
    systolic array.
  \<^descr> \<open>Observe\<close> (\<^verbatim>\<open>pmc.h\<close>, \<^verbatim>\<open>checkpoint.h\<close>, \<^verbatim>\<open>trace.h\<close>): counters, saving and rewinding, the ring
    of trace entries.
  \<^descr> \<open>Bridge\<close> (\<^verbatim>\<open>tlm.h\<close>, \<^verbatim>\<open>fpga.h\<close>): transactions on memories and on the bus, the FPGA request queue.
  \<^descr> \<open>Cluster\<close> (\<^verbatim>\<open>cluster.h\<close>, \<^verbatim>\<open>cluster.cpp\<close>): several emulators, their shared window, clock, inter-core
    interrupts and TLB shootdowns.
  \<^descr> \<open>Reports\<close>: the text reports of the scheduler, the trace, the bridge and the cluster, character
    by character.
  \<^descr> \<open>Floats\<close>: doubles as mantissa and exponent with correct rounding, and \<open>%f\<close>, executable, with
    error bounds. \<open>Stats\<close>: the ratios of profiler, caches, pipeline, counters, fabric and the
    reports that print them. \<open>Console\<close>: register dump, memory dump, listing, verbose log, the
    host description and the version (\<^verbatim>\<open>version.h\<close>).
  \<^descr> \<open>Regex\<close>: the fragment of \<^verbatim>\<open>std::regex\<close> the front end uses, as a backtracking matcher.
    \<open>Frontend\<close> (\<^verbatim>\<open>frontend.h\<close>, \<^verbatim>\<open>frontend.cpp\<close>): annotations, guest assembly, kernel extraction and the
    programs they become.
  \<^descr> \<open>Coremark\<close> (\<^verbatim>\<open>coremark.h\<close>, \<^verbatim>\<open>coremark.cpp\<close>): the benchmark program, executed symbolically; an
    iteration ends with the three results that the checker expects. \<open>Score\<close>: the figures of the
    benchmark, their accuracy, and the report, which always says \<open>OVERALL PASS\<close>.
  \<^descr> \<open>Cli\<close> (\<^verbatim>\<open>main.cpp\<close>): running a source file from the command line and the demonstration
    program under every target and in both run modes.
    \<open>Kernel\<close>: the program of a kernel pragma, on which \<open>run\<close> and \<open>run_fast\<close> disagree.
    \<open>Session\<close>: stepping to a breakpoint and the save, restore and continue test.
    \<open>Demos\<close>: what the checks of the demonstration print, the demonstrations of the components,
    the sample sources (a missing one ends the program) and the benchmark suite.

  \<^bold>\<open>Fuel.\<close> The loops of \<open>run\<close> and \<open>run_fast\<close> end when the guest program ends, so the model takes
  a number of iterations, \<open>None\<close> meaning that it did not suffice. \<open>run_implements_isa\<close> shows that
  as many iterations as the program has instructions suffice; \<open>run_fast_equals_run\<close> that the
  fast path needs no more. A cluster runs for the number of rounds it is given, as in the
  source. An iteration of the benchmark executes 34 instructions of its 22 words, the
  demonstration 33, and their theorems show that as many turns suffice; a memory dump
  needs a turn per line; an empty program ends after at most as many turns as the scratchpad has
  bytes. Every other loop of the
  sources is a terminating function.

  \<^bold>\<open>Where the code does not do what it says.\<close> Some theorems state what the code does where a
  comment or the purpose says otherwise: the overflow flag of ADD and SUB, the program counter
  lost by interrupts, DMA ranges that wrap, the user bit on a TLB hit, immediates and branches
  of translated RISC-V code, the clock of a cluster on the fast path, moves of immediates in
  guest assembly, addresses of transactions that wrap, a lowered kernel that overwrites its
  own text, cells of the register dump that are cut, bit-field views of an instruction at the
  wrong end of the word, sample sources that are run although they could not be opened.

  \<^bold>\<open>Not modelled.\<close> The clock of the host: times are arguments of what is computed from them. The
  subtraction and comparison with a tolerance in the checks of \<^verbatim>\<open>main.cpp\<close> is a relation that the
  theorem takes as an argument. The headings that \<open>main\<close> prints between its sections, and the
  order in which the sections follow one another. Contraction of a multiplication and an addition
  into one rounding, which a build with FMA may do. Closures on the bus other than those of the
  sources, and an MMU that is attached to another memory. Host threads beyond the atomic steps they take;
  exhaustion of the host's memory; the sockets behind the GDB stub and the files behind the
  traces (their text is modelled). The generated \<^verbatim>\<open>src/build\<close> directory is not part of the
  program, and \<^verbatim>\<open>aism.h\<close> only declares the C interface.
\<close>

end
